theory Spec2Isabelle
  imports Main "HOL-Library.Word" "HOL-Library.Sublist"
begin

section \<open>JavaScript values\<close>

text \<open>
  The rule \<open>ignoreForAuthors\<close> is written in TypeScript and runs on values whose run-time
  shape is not fixed by the types (the tests pass \<open>raw: null\<close>, numbers in the pattern
  list, rule entries without \<open>packageName\<close>). The model therefore works on a datatype of
  JavaScript values. A string is a list of UTF-16 code units, as in the language.

  Outside the model: objects with accessor properties or user-defined conversion methods,
  Symbols, sparse arrays, objects made with a prototype of their own (instances of classes,
  \<open>Object.create\<close>), and built-in prototypes that a program has changed. An object is
  a list of its own data properties; the first binding of a key is the one that counts.
  What an object, an array or an \<open>Error\<close> does not have itself it inherits from
  \<open>Object.prototype\<close>, \<open>Array.prototype\<close> or \<open>Error.prototype\<close>, as ECMAScript
  2023 defines them. Numbers are integers: the rule only tests a number for truthiness.
\<close>

type_synonym jschar = "16 word"
type_synonym jsstring = "jschar list"

definition lit :: "string \<Rightarrow> jsstring" where
  "lit s = map of_char s"

definition apos :: jsstring where
  "apos = [0x27]"

definition dquote :: jsstring where
  "dquote = [0x22]"

text \<open>
  A function has an identity. \<open>Exported n\<close> is a function that comes from outside the
  language, such as a rule that a package exports; what a call of it does is given by the
  world (below). The other two are built-in functions, which an object inherits from its
  prototype: \<open>Constructor p\<close> is the constructor (\<open>Object\<close>, \<open>Array\<close>,
  \<open>Error\<close>) that the prototype \<open>p\<close> has under \<open>constructor\<close>, and \<open>Method p k\<close>
  is the method that \<open>p\<close> has under the name \<open>k\<close>.
\<close>

datatype prototype = Object_prototype | Array_prototype | Error_prototype

datatype callable =
    Exported nat
  | Constructor prototype
  | Method prototype jsstring

datatype jsval =
    JUndefined
  | JNull
  | JBool bool
  | JNum int
  | JStr jsstring
  | JArr "jsval list"
  | JObj "(jsstring \<times> jsval) list"
  | JFun callable
  | JError jsval

text \<open>
  \<open>JFun f\<close> is the function with identity \<open>f\<close>. \<open>JError m\<close> is an instance of
  \<open>Error\<close> whose \<open>message\<close> property is \<open>m\<close>.
\<close>

datatype jstype = TUndefined | TObject | TBoolean | TNumber | TString | TFunction

fun typeof :: "jsval \<Rightarrow> jstype" where
  "typeof JUndefined = TUndefined"
| "typeof JNull = TObject"
| "typeof (JBool b) = TBoolean"
| "typeof (JNum n) = TNumber"
| "typeof (JStr s) = TString"
| "typeof (JArr xs) = TObject"
| "typeof (JObj ps) = TObject"
| "typeof (JFun f) = TFunction"
| "typeof (JError m) = TObject"

fun truthy :: "jsval \<Rightarrow> bool" where
  "truthy JUndefined = False"
| "truthy JNull = False"
| "truthy (JBool b) = b"
| "truthy (JNum n) = (n \<noteq> 0)"
| "truthy (JStr s) = (s \<noteq> [])"
| "truthy (JArr xs) = True"
| "truthy (JObj ps) = True"
| "truthy (JFun f) = True"
| "truthy (JError m) = True"

fun isArray :: "jsval \<Rightarrow> bool" where
  "isArray (JArr xs) = True"
| "isArray v = False"

fun elements :: "jsval \<Rightarrow> jsval list" where
  "elements (JArr xs) = xs"
| "elements v = []"

fun string_value :: "jsval \<Rightarrow> jsstring" where
  "string_value (JStr s) = s"
| "string_value v = []"

fun instanceof_Error :: "jsval \<Rightarrow> bool" where
  "instanceof_Error (JError m) = True"
| "instanceof_Error v = False"

subsection \<open>Property access\<close>

text \<open>
  \<open>array_index k\<close> is the index a property key denotes when it is a canonical numeric
  string (\<open>"0"\<close>, \<open>"17"\<close>, but not \<open>"017"\<close>).
\<close>

definition is_digit :: "jschar \<Rightarrow> bool" where
  "is_digit c = (0x30 \<le> c \<and> c \<le> 0x39)"

definition array_index :: "jsstring \<Rightarrow> nat option" where
  "array_index k =
     (if k \<noteq> [] \<and> list_all is_digit k \<and> (hd k \<noteq> 0x30 \<or> length k = 1)
      then Some (foldl (\<lambda>n c. 10 * n + (unat c - 48)) 0 k)
      else None)"

text \<open>
  The methods of the three prototypes, by name. Every one of them is a function; the
  prototypes have them next to \<open>constructor\<close>.
\<close>

definition method_names :: "prototype \<Rightarrow> string list" where
  "method_names p =
     (case p of
        Object_prototype \<Rightarrow>
          [''hasOwnProperty'', ''isPrototypeOf'', ''propertyIsEnumerable'', ''toLocaleString'',
           ''toString'', ''valueOf'', ''__defineGetter__'', ''__defineSetter__'',
           ''__lookupGetter__'', ''__lookupSetter__'']
      | Array_prototype \<Rightarrow>
          [''at'', ''concat'', ''copyWithin'', ''entries'', ''every'', ''fill'', ''filter'',
           ''find'', ''findIndex'', ''findLast'', ''findLastIndex'', ''flat'', ''flatMap'',
           ''forEach'', ''includes'', ''indexOf'', ''join'', ''keys'', ''lastIndexOf'', ''map'',
           ''pop'', ''push'', ''reduce'', ''reduceRight'', ''reverse'', ''shift'', ''slice'',
           ''some'', ''sort'', ''splice'', ''toLocaleString'', ''toReversed'', ''toSorted'',
           ''toSpliced'', ''toString'', ''unshift'', ''values'', ''with'']
      | Error_prototype \<Rightarrow> [''toString''])"

text \<open>
  \<open>prototype_property p k\<close> is the property \<open>k\<close> of the prototype object \<open>p\<close> itself,
  when it has one. \<open>Error.prototype\<close> has the \<open>name\<close> \<open>'Error'\<close>; its \<open>message\<close> is
  left out, because an \<open>Error\<close> of the model has a message of its own. The accessor
  \<open>__proto__\<close> of \<open>Object.prototype\<close> answers the prototype object of the value it is
  read from; the rule only takes the type of what it reads under a computed key, and the
  model gives an object without properties of its own for a prototype object.

  \<open>inherited p k\<close> is what a value whose prototype is \<open>p\<close> finds under \<open>k\<close> when it has
  no such property itself: the property of \<open>p\<close>, else the property of
  \<open>Object.prototype\<close>, which is the prototype of the other two, else \<open>undefined\<close>.
\<close>

definition prototype_property :: "prototype \<Rightarrow> jsstring \<Rightarrow> jsval option" where
  "prototype_property p k =
     (if k = lit ''constructor'' then Some (JFun (Constructor p))
      else if k \<in> set (map lit (method_names p)) then Some (JFun (Method p k))
      else if p = Error_prototype \<and> k = lit ''name'' then Some (JStr (lit ''Error''))
      else if p = Object_prototype \<and> k = lit ''__proto__'' then Some (JObj [])
      else None)"

definition inherited :: "prototype \<Rightarrow> jsstring \<Rightarrow> jsval" where
  "inherited p k =
     (case prototype_property p k of
        Some v \<Rightarrow> v
      | None \<Rightarrow>
          (if p = Object_prototype then JUndefined
           else case prototype_property Object_prototype k of
                  Some v \<Rightarrow> v
                | None \<Rightarrow> JUndefined))"

text \<open>
  \<open>member v k\<close> is \<open>v[k]\<close> for a value \<open>v\<close> that is neither \<open>undefined\<close> nor \<open>null\<close>.
  The rule reads a property only from a value it has tested for truthiness (or from the
  commit and a loaded module, which are objects), so the \<open>TypeError\<close> of a read from
  \<open>undefined\<close> or \<open>null\<close> cannot arise; \<open>member\<close> returns \<open>undefined\<close> there.

  An object, an array and an \<open>Error\<close> answer with their own property when they have it
  and with the inherited one otherwise. This matters for \<open>rulesCatalog[ruleName]\<close>
  (lines 218 and 455), where the key is computed and the catalogue is one of these three.
  From a string, a number, a boolean or a function the rule reads only the fixed keys
  \<open>rules\<close>, \<open>packageName\<close>, \<open>ruleName\<close>, \<open>value\<close> and the names of the two options,
  which neither these values nor their prototypes have: the answer is \<open>undefined\<close>.
\<close>

fun member :: "jsval \<Rightarrow> jsstring \<Rightarrow> jsval" where
  "member (JObj ps) k =
     (case map_of ps k of Some v \<Rightarrow> v | None \<Rightarrow> inherited Object_prototype k)"
| "member (JArr xs) k =
     (case array_index k of
        Some i \<Rightarrow> if i < length xs then xs ! i else JUndefined
      | None \<Rightarrow>
          if k = lit ''length'' then JNum (int (length xs)) else inherited Array_prototype k)"
| "member (JError m) k = (if k = lit ''message'' then m else inherited Error_prototype k)"
| "member v k = JUndefined"

subsection \<open>Strings\<close>

text \<open>\<open>js_includes s p\<close> is \<open>s.includes(p)\<close>: \<open>p\<close> occurs in \<open>s\<close> as a contiguous run.\<close>

fun js_includes :: "jsstring \<Rightarrow> jsstring \<Rightarrow> bool" where
  "js_includes [] p = (p = [])"
| "js_includes (c # s) p = (prefix p (c # s) \<or> js_includes s p)"

text \<open>
  Line terminators and white space of ECMAScript. The class \<open>\s\<close> of a regular
  expression and \<open>String.prototype.trim\<close> both use white space together with the line
  terminators.
\<close>

definition is_line_terminator :: "jschar \<Rightarrow> bool" where
  "is_line_terminator c = (c = 0x0A \<or> c = 0x0D \<or> c = 0x2028 \<or> c = 0x2029)"

definition is_space :: "jschar \<Rightarrow> bool" where
  "is_space c =
     (c = 0x09 \<or> c = 0x0B \<or> c = 0x0C \<or> c = 0x20 \<or> c = 0xA0 \<or> c = 0x1680
      \<or> (0x2000 \<le> c \<and> c \<le> 0x200A) \<or> c = 0x202F \<or> c = 0x205F \<or> c = 0x3000
      \<or> c = 0xFEFF \<or> is_line_terminator c)"

definition trim :: "jsstring \<Rightarrow> jsstring" where
  "trim s = rev (dropWhile is_space (rev (dropWhile is_space s)))"

text \<open>
  Array destructuring \<open>const [a, b] = v\<close> iterates \<open>v\<close>: an array yields its elements, a
  string its code points (a surrogate pair is one element), a missing element is
  \<open>undefined\<close>. Any other value of the model is not iterable and the statement throws a
  \<open>TypeError\<close>.
\<close>

fun next_code_point :: "jsstring \<Rightarrow> jsval \<times> jsstring" where
  "next_code_point [] = (JUndefined, [])"
| "next_code_point [c] = (JStr [c], [])"
| "next_code_point (c # d # s) =
     (if 0xD800 \<le> c \<and> c \<le> 0xDBFF \<and> 0xDC00 \<le> d \<and> d \<le> 0xDFFF
      then (JStr [c, d], s) else (JStr [c], d # s))"

fun element_or_undefined :: "jsval list \<Rightarrow> nat \<Rightarrow> jsval" where
  "element_or_undefined xs i = (if i < length xs then xs ! i else JUndefined)"

definition not_iterable :: jsval where
  "not_iterable = JError (JStr (lit ''outcome is not iterable''))"

fun destructure2 :: "jsval \<Rightarrow> jsval + (jsval \<times> jsval)" where
  "destructure2 (JArr xs) = Inr (element_or_undefined xs 0, element_or_undefined xs 1)"
| "destructure2 (JStr s) =
     (case next_code_point s of (a, r) \<Rightarrow> Inr (a, fst (next_code_point r)))"
| "destructure2 v = Inl not_iterable"

section \<open>The world outside the rule\<close>

text \<open>
  The rule loads packages with a dynamic \<open>import()\<close> and calls the rules it finds in
  them. Both are effects: they are recorded in a trace of events, and what they answer is
  given by a \<open>world\<close>. The answer may depend on the events so far, so a stateful package
  or rule is covered.

  An awaited operation completes normally with a value, completes with a thrown value (a
  rejected promise), or never completes.
\<close>

datatype 'a completion = Normal 'a | Throw jsval | Hang

datatype behaviour =
    Returns jsval
  | Throws jsval
  | Fulfils jsval
  | Rejects jsval
  | NeverSettles

text \<open>
  \<open>await Promise.resolve(f(...))\<close>: a synchronous throw of \<open>f\<close> propagates, a returned
  value is awaited as it is, a returned promise is awaited until it settles.
\<close>

fun await_resolve :: "behaviour \<Rightarrow> jsval completion" where
  "await_resolve (Returns v) = Normal v"
| "await_resolve (Throws e) = Throw e"
| "await_resolve (Fulfils v) = Normal v"
| "await_resolve (Rejects e) = Throw e"
| "await_resolve NeverSettles = Hang"

datatype event =
    Import jsstring
  | Invoke callable jsval jsval jsval

text \<open>
  \<open>import_module w tr name\<close> is the outcome of \<open>await import(name)\<close> after the events
  \<open>tr\<close>: the exports of the module namespace object, or the load error. The rule reads
  the module only under \<open>default\<close> and \<open>rules\<close>, so what the module object inherits,
  if anything, does not matter.
  \<open>call_exported w tr n a b c\<close> is what the function \<open>Exported n\<close> does when called with
  three arguments. \<open>ToString_host w v\<close> is the text of a value that is not a string.
  \<open>TypeError_host w f a\<close> is the message of the \<open>TypeError\<close> that the engine throws out
  of the built-in function \<open>f\<close> when it is called with the first argument \<open>a\<close> and
  without a receiver; ECMAScript leaves the text to the engine.
\<close>

record world =
  import_module :: "event list \<Rightarrow> jsstring \<Rightarrow> (jsstring \<times> jsval) list completion"
  call_exported :: "event list \<Rightarrow> nat \<Rightarrow> jsval \<Rightarrow> jsval \<Rightarrow> jsval \<Rightarrow> behaviour"
  ToString_host :: "jsval \<Rightarrow> jsstring"
  TypeError_host :: "callable \<Rightarrow> jsval \<Rightarrow> jsstring"

fun ToString :: "world \<Rightarrow> jsval \<Rightarrow> jsstring" where
  "ToString w (JStr s) = s"
| "ToString w v = ToString_host w v"

text \<open>
  \<open>call_function w tr f a b c\<close> is what the call \<open>f(a, b, c)\<close> does after the events
  \<open>tr\<close>. The rule calls \<open>ruleFunction(parsed, 'always', ruleValue)\<close> (lines 237 and
  474): a plain call, in which the function has no receiver (\<open>this\<close> is \<open>undefined\<close>).

  Of the built-in functions, \<open>Object.prototype.toString\<close> answers
  \<open>'[object Undefined]'\<close> for the receiver \<open>undefined\<close>. \<open>Object(a)\<close> is a new object
  for \<open>undefined\<close> and \<open>null\<close> and is \<open>a\<close> itself for an object; a primitive would be
  wrapped, but the rule passes the commit, which is an object. \<open>Array(a, b, c)\<close> is the
  array of the three arguments. \<open>Error(a, b)\<close> is a new \<open>Error\<close> whose message is the
  text of \<open>a\<close>, and which has none of its own when \<open>a\<close> is \<open>undefined\<close> (it then reads
  as the empty string). \<open>Object.prototype.isPrototypeOf\<close> answers \<open>false\<close> for an
  argument that is not an object before it looks at the receiver. Every other method
  needs its receiver and throws a \<open>TypeError\<close> without one.
\<close>

definition is_object :: "jsval \<Rightarrow> bool" where
  "is_object v = (typeof v = TFunction \<or> (typeof v = TObject \<and> v \<noteq> JNull))"

fun call_function ::
  "world \<Rightarrow> event list \<Rightarrow> callable \<Rightarrow> jsval \<Rightarrow> jsval \<Rightarrow> jsval \<Rightarrow> behaviour" where
  "call_function w tr (Exported n) a b c = call_exported w tr n a b c"
| "call_function w tr (Constructor Object_prototype) a b c =
     Returns (if a = JUndefined \<or> a = JNull then JObj [] else a)"
| "call_function w tr (Constructor Array_prototype) a b c = Returns (JArr [a, b, c])"
| "call_function w tr (Constructor Error_prototype) a b c =
     Returns (JError (JStr (if a = JUndefined then [] else ToString w a)))"
| "call_function w tr (Method p k) a b c =
     (if p = Object_prototype \<and> k = lit ''toString''
      then Returns (JStr (lit ''[object Undefined]''))
      else if p = Object_prototype \<and> k = lit ''isPrototypeOf'' \<and> \<not> is_object a
      then Returns (JBool False)
      else Throws (JError (JStr (TypeError_host w (Method p k) a))))"

type_synonym commit = "(jsstring \<times> jsval) list"

type_synonym outcome = "bool \<times> jsstring"

section \<open>Resolving and enforcing one rule\<close>

text \<open>
  Both versions of the rule are in the same source listing, the first in lines 1 to 253
  and the later one in lines 254 to 490; line numbers below are those of that listing.

  The search for the catalogue inside the \<open>try\<close> block (lines 183 to 215), on the
  loaded module:
  \<open>module.default.rules\<close>, else \<open>module.default\<close>, else \<open>module.rules\<close>. The result
  is the value of \<open>rulesCatalog\<close>, \<open>undefined\<close> when none was found.
\<close>

definition find_rulesCatalog :: "jsval \<Rightarrow> jsval" where
  "find_rulesCatalog targetPluginModule =
     (let default = member targetPluginModule (lit ''default'');
          rulesCatalog =
            (if truthy default then
               (if typeof (member default (lit ''rules'')) = TObject
                   \<and> member default (lit ''rules'') \<noteq> JNull
                then member default (lit ''rules'')
                else if typeof default = TObject \<and> default \<noteq> JNull
                then default
                else JUndefined)
             else JUndefined)
      in if \<not> truthy rulesCatalog
            \<and> typeof (member targetPluginModule (lit ''rules'')) = TObject
            \<and> member targetPluginModule (lit ''rules'') \<noteq> JNull
         then member targetPluginModule (lit ''rules'')
         else rulesCatalog)"

text \<open>
  The later version of the file (lines 430 to 452) tests \<open>typeof default === 'object'\<close>
  without the comparison with \<open>null\<close>; the rest of the search is the same.
\<close>

definition find_rulesCatalog_signoff :: "jsval \<Rightarrow> jsval" where
  "find_rulesCatalog_signoff targetPluginModule =
     (let default = member targetPluginModule (lit ''default'');
          rulesCatalog =
            (if truthy default then
               (if typeof (member default (lit ''rules'')) = TObject
                   \<and> member default (lit ''rules'') \<noteq> JNull
                then member default (lit ''rules'')
                else if typeof default = TObject
                then default
                else JUndefined)
             else JUndefined)
      in if \<not> truthy rulesCatalog
            \<and> typeof (member targetPluginModule (lit ''rules'')) = TObject
            \<and> member targetPluginModule (lit ''rules'') \<noteq> JNull
         then member targetPluginModule (lit ''rules'')
         else rulesCatalog)"

text \<open>
  The \<open>try\<close> block (lines 177 to 219, and 424 to 456): import the package, find the
  catalogue, read the rule from it. The
  result is the value of \<open>ruleFunction\<close> (\<open>undefined\<close> without a catalogue), or the
  error the import threw. Nothing after the import can throw on the values of the model.
\<close>

definition resolve_rule ::
  "world \<Rightarrow> event list \<Rightarrow> jsstring \<Rightarrow> jsstring \<Rightarrow> jsval completion" where
  "resolve_rule w tr packageName ruleName =
     (case import_module w tr packageName of
        Throw error \<Rightarrow> Throw error
      | Hang \<Rightarrow> Hang
      | Normal exports \<Rightarrow>
          (let rulesCatalog = find_rulesCatalog (JObj exports)
           in Normal (if truthy rulesCatalog then member rulesCatalog ruleName
                      else JUndefined)))"

definition resolve_rule_signoff ::
  "world \<Rightarrow> event list \<Rightarrow> jsstring \<Rightarrow> jsstring \<Rightarrow> jsval completion" where
  "resolve_rule_signoff w tr packageName ruleName =
     (case import_module w tr packageName of
        Throw error \<Rightarrow> Throw error
      | Hang \<Rightarrow> Hang
      | Normal exports \<Rightarrow>
          (let rulesCatalog = find_rulesCatalog_signoff (JObj exports)
           in Normal (if truthy rulesCatalog then member rulesCatalog ruleName
                      else JUndefined)))"

text \<open>
  The \<open>catch\<close> block's \<open>error instanceof Error ? error.message : String(error)\<close>
  (lines 221 and 222, 458 and 459), as it appears in the template literal.
\<close>

definition errorMessage :: "world \<Rightarrow> jsval \<Rightarrow> jsstring" where
  "errorMessage w error =
     (if instanceof_Error error then ToString w (member error (lit ''message''))
      else ToString w error)"

text \<open>The prefix that the first version of the file puts before its messages.\<close>

definition plugin_prefix :: jsstring where
  "plugin_prefix = lit ''[@mridang/commitlint-plugin-conditionals ignoreForAuthors] ''"

text \<open>
  One iteration of \<open>for (const ruleConfig of rulesToEnforce)\<close>, first version (lines 162
  to 247). The result
  is the trace after the iteration together with \<open>None\<close> when the loop goes on to the
  next entry, or \<open>Some r\<close> when the function is left: \<open>Normal\<close> for a \<open>return\<close>,
  \<open>Throw\<close> for an exception that leaves the function (the promise it returned is
  rejected), \<open>Hang\<close> when an awaited operation never completes.
\<close>

definition enforce_one ::
  "world \<Rightarrow> commit \<Rightarrow> event list \<Rightarrow> jsval \<Rightarrow> event list \<times> outcome completion option" where
  "enforce_one w parsed tr ruleConfig =
     (if \<not> truthy ruleConfig
         \<or> typeof (member ruleConfig (lit ''packageName'')) \<noteq> TString
         \<or> typeof (member ruleConfig (lit ''ruleName'')) \<noteq> TString
      then (tr, Some (Normal (False,
              plugin_prefix @ lit ''Invalid rule configuration in '' @ apos
              @ lit ''rulesToEnforce'' @ apos @ lit '': '' @ apos @ lit ''packageName'' @ apos
              @ lit '' and '' @ apos @ lit ''ruleName'' @ apos @ lit '' must be strings.'')))
      else
        (let packageName = string_value (member ruleConfig (lit ''packageName''));
             ruleName = string_value (member ruleConfig (lit ''ruleName''));
             ruleValue = member ruleConfig (lit ''value'');
             tr1 = tr @ [Import packageName]
         in case resolve_rule w tr packageName ruleName of
              Throw error \<Rightarrow>
                (tr1, Some (Normal (False,
                   plugin_prefix @ lit ''Error loading plugin package '' @ apos @ packageName
                   @ apos @ lit '': '' @ errorMessage w error)))
            | Hang \<Rightarrow> (tr1, Some Hang)
            | Normal ruleFunction \<Rightarrow>
                (case ruleFunction of
                   JFun f \<Rightarrow>
                     (let tr2 = tr1 @ [Invoke f (JObj parsed) (JStr (lit ''always'')) ruleValue]
                      in case await_resolve
                                (call_function w tr1 f (JObj parsed) (JStr (lit ''always''))
                                   ruleValue) of
                           Throw e \<Rightarrow> (tr2, Some (Throw e))
                         | Hang \<Rightarrow> (tr2, Some Hang)
                         | Normal outcome \<Rightarrow>
                             (case destructure2 outcome of
                                Inl e \<Rightarrow> (tr2, Some (Throw e))
                              | Inr (isValid, message) \<Rightarrow>
                                  if \<not> truthy isValid
                                  then (tr2, Some (Normal (False,
                                          lit ''[@mridang/commitlint-plugin-conditionals via ''
                                          @ packageName @ lit ''/'' @ ruleName @ lit ''] ''
                                          @ ToString w message)))
                                  else (tr2, None)))
                 | _ \<Rightarrow>
                     (tr1, Some (Normal (False,
                        plugin_prefix @ lit ''Rule '' @ apos @ ruleName @ apos
                        @ lit '' not found or not a function in package '' @ apos @ packageName
                        @ apos @ lit ''.''))))))"

text \<open>
  The same iteration in the later version (lines 408 to 484): the messages have lost their
  prefix.
\<close>

definition enforce_one_signoff ::
  "world \<Rightarrow> commit \<Rightarrow> event list \<Rightarrow> jsval \<Rightarrow> event list \<times> outcome completion option" where
  "enforce_one_signoff w parsed tr ruleConfig =
     (if \<not> truthy ruleConfig
         \<or> typeof (member ruleConfig (lit ''packageName'')) \<noteq> TString
         \<or> typeof (member ruleConfig (lit ''ruleName'')) \<noteq> TString
      then (tr, Some (Normal (False,
              lit ''Invalid rule configuration in '' @ apos
              @ lit ''rulesToEnforce'' @ apos @ lit '': '' @ apos @ lit ''packageName'' @ apos
              @ lit '' and '' @ apos @ lit ''ruleName'' @ apos @ lit '' must be strings.'')))
      else
        (let packageName = string_value (member ruleConfig (lit ''packageName''));
             ruleName = string_value (member ruleConfig (lit ''ruleName''));
             ruleValue = member ruleConfig (lit ''value'');
             tr1 = tr @ [Import packageName]
         in case resolve_rule_signoff w tr packageName ruleName of
              Throw error \<Rightarrow>
                (tr1, Some (Normal (False,
                   lit ''Error loading plugin package '' @ apos @ packageName
                   @ apos @ lit '': '' @ errorMessage w error)))
            | Hang \<Rightarrow> (tr1, Some Hang)
            | Normal ruleFunction \<Rightarrow>
                (case ruleFunction of
                   JFun f \<Rightarrow>
                     (let tr2 = tr1 @ [Invoke f (JObj parsed) (JStr (lit ''always'')) ruleValue]
                      in case await_resolve
                                (call_function w tr1 f (JObj parsed) (JStr (lit ''always''))
                                   ruleValue) of
                           Throw e \<Rightarrow> (tr2, Some (Throw e))
                         | Hang \<Rightarrow> (tr2, Some Hang)
                         | Normal outcome \<Rightarrow>
                             (case destructure2 outcome of
                                Inl e \<Rightarrow> (tr2, Some (Throw e))
                              | Inr (isValid, messageFromSubRule) \<Rightarrow>
                                  if \<not> truthy isValid
                                  then (tr2, Some (Normal (False,
                                          lit ''[via '' @ packageName @ lit ''/'' @ ruleName
                                          @ lit ''] '' @ ToString w messageFromSubRule)))
                                  else (tr2, None)))
                 | _ \<Rightarrow>
                     (tr1, Some (Normal (False,
                        lit ''Rule '' @ apos @ ruleName @ apos
                        @ lit '' not found or not a function in package '' @ apos @ packageName
                        @ apos @ lit ''.''))))))"

text \<open>The loop, and the \<open>return\<close> after it (lines 249 to 252, and 486 to 489).\<close>

fun enforce :: "world \<Rightarrow> commit \<Rightarrow> event list \<Rightarrow> jsval list \<Rightarrow> event list \<times> outcome completion"
  where
  "enforce w parsed tr [] =
     (tr, Normal (True,
        plugin_prefix @ lit ''All configured '' @ dquote @ lit ''rulesToEnforce'' @ dquote
        @ lit '' passed for this author.''))"
| "enforce w parsed tr (ruleConfig # rest) =
     (case enforce_one w parsed tr ruleConfig of
        (tr', None) \<Rightarrow> enforce w parsed tr' rest
      | (tr', Some r) \<Rightarrow> (tr', r))"

fun enforce_signoff ::
  "world \<Rightarrow> commit \<Rightarrow> event list \<Rightarrow> jsval list \<Rightarrow> event list \<times> outcome completion" where
  "enforce_signoff w parsed tr [] =
     (tr, Normal (True,
        lit ''All configured '' @ dquote @ lit ''rulesToEnforce'' @ dquote
        @ lit '' passed for this author.''))"
| "enforce_signoff w parsed tr (ruleConfig # rest) =
     (case enforce_one_signoff w parsed tr ruleConfig of
        (tr', None) \<Rightarrow> enforce_signoff w parsed tr' rest
      | (tr', Some r) \<Rightarrow> (tr', r))"

section \<open>The first version: patterns looked up in the raw message\<close>

text \<open>
  The block guarded by \<open>ignoreAuthorPatterns && Array.isArray(ignoreAuthorPatterns)\<close>
  (lines 128 to 149).
  \<open>Some r\<close> is a \<open>return r\<close> inside the block, \<open>None\<close> is falling out of it.
  \<open>Array.prototype.find\<close> gives the first element that satisfies the test, or
  \<open>undefined\<close>; the \<open>if\<close> that follows tests what it gave for truthiness.
\<close>

definition bypass_check :: "jsstring \<Rightarrow> jsval \<Rightarrow> outcome option" where
  "bypass_check rawCommitMessage ignoreAuthorPatterns =
     (if truthy ignoreAuthorPatterns \<and> isArray ignoreAuthorPatterns then
        (if \<not> list_all (\<lambda>pattern. typeof pattern = TString) (elements ignoreAuthorPatterns)
         then Some (False,
                plugin_prefix @ lit ''Configuration error: '' @ apos @ lit ''ignoreAuthorPatterns''
                @ apos @ lit '' must be an array of strings.'')
         else
           (case find (\<lambda>pattern. js_includes rawCommitMessage (string_value pattern))
                   (elements ignoreAuthorPatterns) of
              Some matchedIgnoredPattern \<Rightarrow>
                if truthy matchedIgnoredPattern
                then Some (True,
                       plugin_prefix @ lit ''Commit by ignored author pattern ('' @ apos
                       @ string_value matchedIgnoredPattern @ apos
                       @ lit ''). Ruleset defined in '' @ apos @ lit ''rulesToEnforce'' @ apos
                       @ lit '' bypassed.'')
                else None
            | None \<Rightarrow> None))
      else None)"

text \<open>
  The rule (lines 106 to 253). The result is the trace of the imports and invocations made,
  and how the promise of the rule settles: \<open>Normal\<close> with the tuple it is fulfilled with,
  \<open>Throw\<close> with the error it is rejected with, \<open>Hang\<close> when it never settles.
\<close>

definition ignoreForAuthors ::
  "world \<Rightarrow> commit \<Rightarrow> jsval \<Rightarrow> jsval \<Rightarrow> event list \<times> outcome completion" where
  "ignoreForAuthors w parsedCommitData when_arg value =
     (let when = (if when_arg = JUndefined then JStr (lit ''always'') else when_arg) in
      if when = JStr (lit ''never'') then ([], Normal (True, []))
      else
        (let parsed = parsedCommitData;
             options = (if truthy value then value else JObj []);
             ignoreAuthorPatterns = member options (lit ''ignoreAuthorPatterns'');
             rulesToEnforce = member options (lit ''rulesToEnforce'');
             rawCommitMessage = member (JObj parsed) (lit ''raw'')
         in
           if typeof rawCommitMessage \<noteq> TString
           then ([], Normal (False,
                   plugin_prefix @ lit ''Raw commit message is not available or is invalid.''))
           else
             (case bypass_check (string_value rawCommitMessage) ignoreAuthorPatterns of
                Some r \<Rightarrow> ([], Normal r)
              | None \<Rightarrow>
                  if \<not> truthy rulesToEnforce \<or> \<not> isArray rulesToEnforce
                     \<or> length (elements rulesToEnforce) = 0
                  then ([], Normal (True,
                          plugin_prefix @ lit ''No rules configured in '' @ dquote
                          @ lit ''rulesToEnforce'' @ dquote
                          @ lit '' for this author, or author was ignored. Rule passes.''))
                  else enforce w parsed [] (elements rulesToEnforce))))"

section \<open>The later version: patterns looked up in the sign-off trailers\<close>

subsection \<open>The regular expression\<close>

text \<open>
  \<open>/^Signed-off-by:\s*(.*)$/gim\<close> (line 373). With the flag \<open>m\<close>, \<open>^\<close> holds at the start of the
  text and after a line terminator, and \<open>$\<close> at the end of the text and before a line
  terminator. With the flag \<open>i\<close> and without \<open>u\<close>, two code units match when their
  canonical forms are equal; a code unit outside ASCII is never canonicalised into ASCII,
  so against the ASCII text of the pattern only the case of the letters a to z is
  ignored. The dot matches every code unit but a line terminator.

  At a position where the literal part matches, the greedy \<open>\s*\<close> takes the longest run
  of white space (line terminators are white space), the greedy \<open>.*\<close> takes the rest of
  the line, and \<open>$\<close> then holds, so the first alternative the matcher tries succeeds and
  nothing is backtracked. \<open>match_at raw p\<close> is the end of the match and the text of group
  1, when the expression matches at position \<open>p\<close>.
\<close>

definition canonicalize :: "jschar \<Rightarrow> jschar" where
  "canonicalize c = (if 0x61 \<le> c \<and> c \<le> 0x7A then c - 0x20 else c)"

definition at_line_start :: "jsstring \<Rightarrow> nat \<Rightarrow> bool" where
  "at_line_start raw p = (p = 0 \<or> is_line_terminator (raw ! (p - 1)))"

definition match_at :: "jsstring \<Rightarrow> nat \<Rightarrow> (nat \<times> jsstring) option" where
  "match_at raw p =
     (let literal = lit ''Signed-off-by:'';
          rest = drop p raw
      in if at_line_start raw p \<and> length literal \<le> length rest
            \<and> map canonicalize (take (length literal) rest) = map canonicalize literal
         then
           (let after_spaces = dropWhile is_space (drop (length literal) rest);
                group1 = takeWhile (\<lambda>c. \<not> is_line_terminator c) after_spaces
            in Some (length raw - length after_spaces + length group1, group1))
         else None)"

text \<open>
  \<open>signOffRegex.exec(raw)\<close> with the flag \<open>g\<close>: the search starts at \<open>lastIndex\<close> and tries
  every position up to the length of the text; a match sets \<open>lastIndex\<close> to its end, a
  failure gives \<open>null\<close>.
\<close>

function regex_exec :: "jsstring \<Rightarrow> nat \<Rightarrow> (nat \<times> jsstring) option" where
  "regex_exec raw lastIndex =
     (if length raw < lastIndex then None
      else case match_at raw lastIndex of
             Some m \<Rightarrow> Some m
           | None \<Rightarrow> regex_exec raw (Suc lastIndex))"
  by pat_completeness auto
termination
  by (relation "measure (\<lambda>(raw, lastIndex). Suc (length raw) - lastIndex)") auto

declare regex_exec.simps [simp del]

lemma match_at_bounds:
  assumes "match_at raw p = Some (e, g)"
  shows "p < e" and "e \<le> length raw"
proof -
  let ?n = "length (lit ''Signed-off-by:'')"
  let ?a = "dropWhile is_space (drop ?n (drop p raw))"
  from assms have len: "?n \<le> length (drop p raw)"
    and e: "e = length raw - length ?a
                + length (takeWhile (\<lambda>c. \<not> is_line_terminator c) ?a)"
    by (auto simp: match_at_def Let_def split: if_splits)
  have n: "?n = 14" by (simp add: lit_def)
  have a: "length ?a \<le> length raw - p - ?n"
    using length_dropWhile_le [of is_space "drop ?n (drop p raw)"] by simp
  have t: "length (takeWhile (\<lambda>c. \<not> is_line_terminator c) ?a) \<le> length ?a"
    by (rule length_takeWhile_le)
  from len n a e show "p < e" by simp
  from len n a t e show "e \<le> length raw" by simp
qed

lemma regex_exec_bounds:
  "regex_exec raw i = Some (e, g) \<Longrightarrow> i < e \<and> e \<le> length raw"
proof (induction raw i rule: regex_exec.induct)
  case (1 raw lastIndex)
  show ?case
  proof (cases "match_at raw lastIndex")
    case None
    with "1.prems" have le: "\<not> length raw < lastIndex"
      and rec: "regex_exec raw (Suc lastIndex) = Some (e, g)"
      by (auto simp: regex_exec.simps [of raw lastIndex] split: if_splits)
    from "1.IH" [OF le None rec] show ?thesis by simp
  next
    case (Some m)
    with "1.prems" have "match_at raw lastIndex = Some (e, g)"
      by (auto simp: regex_exec.simps [of raw lastIndex] split: if_splits)
    then show ?thesis using match_at_bounds by blast
  qed
qed

text \<open>
  The loop \<open>while ((match = signOffRegex.exec(raw)) !== null)\<close> (lines 376 to 378),
  which pushes the trimmed
  group 1 of every match. It ends because every match is at least as long as the literal
  part, so \<open>lastIndex\<close> grows.
\<close>

function extractSignOffs :: "jsstring \<Rightarrow> nat \<Rightarrow> jsstring list \<Rightarrow> jsstring list" where
  "extractSignOffs raw lastIndex extractedSignOffs =
     (case regex_exec raw lastIndex of
        None \<Rightarrow> extractedSignOffs
      | Some (e, group1) \<Rightarrow> extractSignOffs raw e (extractedSignOffs @ [trim group1]))"
  by pat_completeness auto
termination
proof (relation "measure (\<lambda>(raw, lastIndex, acc). Suc (length raw) - lastIndex)")
  show "wf (measure (\<lambda>(raw, lastIndex, acc). Suc (length raw) - lastIndex))"
    by simp
next
  fix raw :: jsstring and lastIndex :: nat and extractedSignOffs :: "jsstring list"
    and x2 :: "nat \<times> jsstring" and e :: nat and group1 :: jsstring
  assume "regex_exec raw lastIndex = Some x2" and "(e, group1) = x2"
  then have "regex_exec raw lastIndex = Some (e, group1)" by simp
  from regex_exec_bounds [OF this] have "lastIndex < e" and "e \<le> length raw"
    by simp_all
  then have "Suc (length raw) - e < Suc (length raw) - lastIndex"
    by arith
  then show "((raw, e, extractedSignOffs @ [trim group1]), (raw, lastIndex, extractedSignOffs))
          \<in> measure (\<lambda>(raw, lastIndex, acc). Suc (length raw) - lastIndex)"
    by simp
qed

declare extractSignOffs.simps [simp del]

subsection \<open>The rule\<close>

text \<open>
  The block guarded by
  \<open>signOffPatternsToIgnore && Array.isArray(signOffPatternsToIgnore)\<close> (lines 359 to 395),
  and the rule (lines 336 to 490).
\<close>

definition bypass_check_signoff :: "jsstring \<Rightarrow> jsval \<Rightarrow> outcome option" where
  "bypass_check_signoff rawCommitMessage signOffPatternsToIgnore =
     (if truthy signOffPatternsToIgnore \<and> isArray signOffPatternsToIgnore then
        (if \<not> list_all (\<lambda>pattern. typeof pattern = TString) (elements signOffPatternsToIgnore)
         then Some (False,
                lit ''Configuration error: '' @ apos @ lit ''signOffPatternsToIgnore''
                @ apos @ lit '' must be an array of strings.'')
         else if length (elements signOffPatternsToIgnore) > 0 then
           (let extractedSignOffs = extractSignOffs rawCommitMessage 0 [] in
            if length extractedSignOffs > 0 then
              (case find (\<lambda>ignorePattern.
                            list_ex (\<lambda>actualSignOff.
                               js_includes actualSignOff (string_value ignorePattern))
                              extractedSignOffs)
                      (elements signOffPatternsToIgnore) of
                 Some matchedPattern \<Rightarrow>
                   if truthy matchedPattern
                   then Some (True,
                          lit ''Commit has a '' @ apos @ lit ''Signed-off-by'' @ apos
                          @ lit '' line matching pattern ('' @ apos
                          @ string_value matchedPattern @ apos
                          @ lit ''). Ruleset defined in '' @ apos @ lit ''rulesToEnforce'' @ apos
                          @ lit '' bypassed.'')
                   else None
               | None \<Rightarrow> None)
            else None)
         else None)
      else None)"

definition ignoreForAuthors_signoff ::
  "world \<Rightarrow> commit \<Rightarrow> jsval \<Rightarrow> jsval \<Rightarrow> event list \<times> outcome completion" where
  "ignoreForAuthors_signoff w parsedCommitData when_arg value =
     (let when = (if when_arg = JUndefined then JStr (lit ''always'') else when_arg) in
      if when = JStr (lit ''never'') then ([], Normal (True, []))
      else
        (let parsed = parsedCommitData;
             options = (if truthy value then value else JObj []);
             signOffPatternsToIgnore = member options (lit ''signOffPatternsToIgnore'');
             rulesToEnforce = member options (lit ''rulesToEnforce'');
             rawCommitMessage = member (JObj parsed) (lit ''raw'')
         in
           if typeof rawCommitMessage \<noteq> TString
           then ([], Normal (False,
                   lit ''Raw commit message is not available or is invalid.''))
           else
             (case bypass_check_signoff (string_value rawCommitMessage)
                     signOffPatternsToIgnore of
                Some r \<Rightarrow> ([], Normal r)
              | None \<Rightarrow>
                  if \<not> truthy rulesToEnforce \<or> \<not> isArray rulesToEnforce
                     \<or> length (elements rulesToEnforce) = 0
                  then ([], Normal (True,
                          lit ''No rules configured in '' @ dquote @ lit ''rulesToEnforce''
                          @ dquote
                          @ lit '' for this author/commit, or author was ignored. Rule passes.''))
                  else enforce_signoff w parsed [] (elements rulesToEnforce))))"

section \<open>Notions used to state the properties\<close>

text \<open>The field \<open>k\<close> of \<open>value || {}\<close>.\<close>

abbreviation option_field :: "jsval \<Rightarrow> string \<Rightarrow> jsval" where
  "option_field value k \<equiv> member (if truthy value then value else JObj []) (lit k)"

abbreviation raw_of :: "commit \<Rightarrow> jsval" where
  "raw_of parsed \<equiv> member (JObj parsed) (lit ''raw'')"

abbreviation always :: jsval where
  "always \<equiv> JStr (lit ''always'')"

abbreviation never :: jsval where
  "never \<equiv> JStr (lit ''never'')"

text \<open>
  \<open>passed_through w parsed tr entries\<close> is the trace after the loop has gone through all
  of \<open>entries\<close>, starting with the trace \<open>tr\<close>, when every one of them was valid, was
  resolved to a function and was reported valid by it; \<open>None\<close> when the function was
  left at one of them.
\<close>

fun passed_through :: "world \<Rightarrow> commit \<Rightarrow> event list \<Rightarrow> jsval list \<Rightarrow> event list option"
  where
  "passed_through w parsed tr [] = Some tr"
| "passed_through w parsed tr (ruleConfig # rest) =
     (case enforce_one w parsed tr ruleConfig of
        (tr', None) \<Rightarrow> passed_through w parsed tr' rest
      | (tr', Some r) \<Rightarrow> None)"

fun passed_through_signoff ::
  "world \<Rightarrow> commit \<Rightarrow> event list \<Rightarrow> jsval list \<Rightarrow> event list option" where
  "passed_through_signoff w parsed tr [] = Some tr"
| "passed_through_signoff w parsed tr (ruleConfig # rest) =
     (case enforce_one_signoff w parsed tr ruleConfig of
        (tr', None) \<Rightarrow> passed_through_signoff w parsed tr' rest
      | (tr', Some r) \<Rightarrow> None)"

text \<open>
  The evaluation reaches the entry \<open>ruleConfig\<close> of \<open>rulesToEnforce\<close> with the trace
  \<open>tr\<close>: the condition is not \<open>never\<close>, the raw message is a string, the block of the
  patterns was left without a \<open>return\<close>, and the entries before this one were passed
  through.
\<close>

definition reaches ::
  "world \<Rightarrow> commit \<Rightarrow> jsval \<Rightarrow> jsval \<Rightarrow> jsval list \<Rightarrow> jsval \<Rightarrow> jsval list \<Rightarrow> event list \<Rightarrow> bool"
  where
  "reaches w parsed when value before ruleConfig after tr =
     (when \<noteq> never
      \<and> typeof (raw_of parsed) = TString
      \<and> bypass_check (string_value (raw_of parsed))
            (option_field value ''ignoreAuthorPatterns'') = None
      \<and> option_field value ''rulesToEnforce'' = JArr (before @ ruleConfig # after)
      \<and> passed_through w parsed [] before = Some tr)"

definition reaches_signoff ::
  "world \<Rightarrow> commit \<Rightarrow> jsval \<Rightarrow> jsval \<Rightarrow> jsval list \<Rightarrow> jsval \<Rightarrow> jsval list \<Rightarrow> event list \<Rightarrow> bool"
  where
  "reaches_signoff w parsed when value before ruleConfig after tr =
     (when \<noteq> never
      \<and> typeof (raw_of parsed) = TString
      \<and> bypass_check_signoff (string_value (raw_of parsed))
            (option_field value ''signOffPatternsToIgnore'') = None
      \<and> option_field value ''rulesToEnforce'' = JArr (before @ ruleConfig # after)
      \<and> passed_through_signoff w parsed [] before = Some tr)"

text \<open>An entry of \<open>rulesToEnforce\<close> with the three fields of \<open>ExternalRuleToEnforce\<close>.\<close>

definition rule_entry :: "jsstring \<Rightarrow> jsstring \<Rightarrow> jsval \<Rightarrow> jsval" where
  "rule_entry packageName ruleName ruleValue =
     JObj [(lit ''packageName'', JStr packageName), (lit ''ruleName'', JStr ruleName),
           (lit ''value'', ruleValue)]"

text \<open>
  The fields of an entry, and the test the loop makes of it: the entry is truthy and its
  \<open>packageName\<close> and \<open>ruleName\<close> are strings.
\<close>

abbreviation packageName_of :: "jsval \<Rightarrow> jsstring" where
  "packageName_of ruleConfig \<equiv> string_value (member ruleConfig (lit ''packageName''))"

abbreviation ruleName_of :: "jsval \<Rightarrow> jsstring" where
  "ruleName_of ruleConfig \<equiv> string_value (member ruleConfig (lit ''ruleName''))"

abbreviation ruleValue_of :: "jsval \<Rightarrow> jsval" where
  "ruleValue_of ruleConfig \<equiv> member ruleConfig (lit ''value'')"

definition well_formed_entry :: "jsval \<Rightarrow> bool" where
  "well_formed_entry ruleConfig =
     (truthy ruleConfig
      \<and> typeof (member ruleConfig (lit ''packageName'')) = TString
      \<and> typeof (member ruleConfig (lit ''ruleName'')) = TString)"


text \<open>
  An event of the trace is a proper call for the entries \<open>entries\<close>: if it is an
  invocation, its arguments are the commit, \<open>'always'\<close> and the \<open>value\<close> of one of the
  entries.
\<close>

definition proper_call :: "commit \<Rightarrow> jsval list \<Rightarrow> event \<Rightarrow> bool" where
  "proper_call parsed entries ev =
     (case ev of
        Import name \<Rightarrow> True
      | Invoke f c a v \<Rightarrow>
          c = JObj parsed \<and> a = always \<and> list_ex (\<lambda>ruleConfig. v = ruleValue_of ruleConfig) entries)"

text \<open>
  The sign-off values as the specification words them, to be compared with what the
  regular expression extracts: the text is cut into lines at the line terminators, the
  lines that begin with \<open>Signed-off-by:\<close> (in any case) are kept, and the value of such
  a line is the rest of that line, trimmed.
\<close>

fun lines_of :: "jsstring \<Rightarrow> jsstring list" where
  "lines_of [] = [[]]"
| "lines_of (c # s) =
     (if is_line_terminator c then [] # lines_of s
      else (case lines_of s of [] \<Rightarrow> [[c]] | l # ls \<Rightarrow> (c # l) # ls))"

definition is_signoff_line :: "jsstring \<Rightarrow> bool" where
  "is_signoff_line l =
     (let literal = lit ''Signed-off-by:''
      in length literal \<le> length l
         \<and> map canonicalize (take (length literal) l) = map canonicalize literal)"

definition spec_signoff_values :: "jsstring \<Rightarrow> jsstring list" where
  "spec_signoff_values raw =
     map (\<lambda>l. trim (drop (length (lit ''Signed-off-by:'')) l))
       (filter is_signoff_line (lines_of raw))"

text \<open>
  The loop over the matches, written as a scan of the text from left to right: \<open>b\<close> says
  whether the position is the start of a line. It serves to compare the loop with the
  reading line by line.
\<close>

abbreviation not_terminator :: "jschar \<Rightarrow> bool" where
  "not_terminator c \<equiv> \<not> is_line_terminator c"

abbreviation literal_length :: nat where
  "literal_length \<equiv> length (lit ''Signed-off-by:'')"

function scan :: "bool \<Rightarrow> jsstring \<Rightarrow> jsstring list" where
  "scan b [] = []"
| "scan b (c # s) =
     (if b \<and> is_signoff_line (c # s) then
        (let after = dropWhile is_space (drop literal_length (c # s))
         in trim (takeWhile not_terminator after) # scan False (dropWhile not_terminator after))
      else scan (is_line_terminator c) s)"
  by pat_completeness auto
termination
proof (relation "measure (\<lambda>(b, s). length s)")
  show "wf (measure (\<lambda>(b, s). length s))" by simp
next
  fix b :: bool and c :: jschar and s after :: jsstring
  assume "after = dropWhile is_space (drop literal_length (c # s))"
  then have "length (dropWhile not_terminator after) \<le> length (drop literal_length (c # s))"
    using length_dropWhile_le [of not_terminator after]
      length_dropWhile_le [of is_space "drop literal_length (c # s)"]
    by simp
  also have "\<dots> < length (c # s)" by (simp add: lit_def)
  finally show "((False, dropWhile not_terminator after), (b, c # s))
                  \<in> measure (\<lambda>(b, s). length s)"
    by simp
next
  fix b :: bool and c :: jschar and s :: jsstring
  show "((is_line_terminator c, s), (b, c # s)) \<in> measure (\<lambda>(b, s). length s)" by simp
qed

declare scan.simps(2) [simp del]

subsection \<open>A concrete world\<close>

text \<open>
  The world of the test suite, with three more rules. The package \<open>@commitlint/rules\<close>
  has a default export whose \<open>rules\<close> field is the catalogue, the package
  \<open>empty-package\<close> exports nothing, and no other package can be loaded.
  \<open>type-enum\<close> reports \<open>[false, 'type invalid']\<close>, \<open>header-max-length\<close> reports
  \<open>[true, '']\<close>, \<open>rule-to-malform\<close> is a string, \<open>throws\<close> throws an error,
  \<open>rejects\<close> returns a promise that is rejected, \<open>no-tuple\<close> returns \<open>undefined\<close>.
  The catalogue is an ordinary object, as the one of the test suite is. A \<open>TypeError\<close> of
  a built-in function has the text that V8 gives when \<open>undefined\<close> is to be taken for an
  object.
\<close>

definition test_catalogue :: "(jsstring \<times> jsval) list" where
  "test_catalogue =
     [(lit ''type-enum'', JFun (Exported 0)),
      (lit ''header-max-length'', JFun (Exported 1)),
      (lit ''rule-to-malform'', JStr (lit ''not-a-function-string'')),
      (lit ''throws'', JFun (Exported 2)),
      (lit ''rejects'', JFun (Exported 3)),
      (lit ''no-tuple'', JFun (Exported 4))]"

definition test_import :: "event list \<Rightarrow> jsstring \<Rightarrow> (jsstring \<times> jsval) list completion" where
  "test_import tr name =
     (if name = lit ''@commitlint/rules''
      then Normal [(lit ''default'', JObj [(lit ''rules'', JObj test_catalogue)])]
      else if name = lit ''empty-package'' then Normal []
      else Throw (JError (JStr (lit ''Cannot find package''))))"

definition test_call :: "event list \<Rightarrow> nat \<Rightarrow> jsval \<Rightarrow> jsval \<Rightarrow> jsval \<Rightarrow> behaviour" where
  "test_call tr f parsed when value =
     (if f = 0 then Returns (JArr [JBool False, JStr (lit ''type invalid'')])
      else if f = 1 then Returns (JArr [JBool True, JStr []])
      else if f = 2 then Throws (JError (JStr (lit ''boom'')))
      else if f = 3 then Rejects (JError (JStr (lit ''boom'')))
      else Returns JUndefined)"

definition test_world :: world where
  "test_world =
     \<lparr>import_module = test_import, call_exported = test_call,
      ToString_host = (\<lambda>v. lit ''[object Object]''),
      TypeError_host = (\<lambda>f a. lit ''Cannot convert undefined or null to object'')\<rparr>"

definition commit_of :: "string \<Rightarrow> commit" where
  "commit_of raw = [(lit ''raw'', JStr (lit raw))]"

section \<open>Facts about the string operations\<close>

lemma unat_of_char: "unat (of_char c :: 16 word) = of_char c"
proof -
  have "(of_char c :: nat) < 256" by simp
  moreover have "(256 :: nat) \<le> 2 ^ 16" by simp
  ultimately have "(of_char c :: nat) < 2 ^ 16" by (rule less_le_trans)
  then have "(of_char c :: nat) mod 2 ^ 16 = of_char c" by (rule mod_less)
  moreover have "(of_char c :: 16 word) = of_nat (of_char c)"
    by (simp add: of_nat_of_char)
  ultimately show ?thesis by (simp add: unat_of_nat)
qed

lemma of_char_word_eq_iff: "(of_char c :: 16 word) = of_char d \<longleftrightarrow> c = d"
proof
  assume "(of_char c :: 16 word) = of_char d"
  then have "unat (of_char c :: 16 word) = unat (of_char d :: 16 word)" by simp
  then have "(of_char c :: nat) = of_char d" by (simp only: unat_of_char)
  then show "c = d" by simp
qed simp

lemma lit_eq_iff [simp]: "lit a = lit b \<longleftrightarrow> a = b"
  unfolding lit_def
  by (rule inj_map_eq_map) (simp add: inj_on_def of_char_word_eq_iff)

lemma lit_append: "lit (a @ b) = lit a @ lit b"
  by (simp add: lit_def)

lemma lit_Nil_iff [simp]: "lit a = [] \<longleftrightarrow> a = []"
  by (simp add: lit_def)

text \<open>\<open>js_includes\<close> is the search for a contiguous run.\<close>

lemma js_includes_iff: "js_includes s p \<longleftrightarrow> (\<exists>a b. s = a @ p @ b)"
proof (induction s)
  case Nil
  then show ?case by auto
next
  case (Cons c s)
  show ?case
  proof
    assume "js_includes (c # s) p"
    then consider "prefix p (c # s)" | "js_includes s p" by auto
    then show "\<exists>a b. c # s = a @ p @ b"
    proof cases
      case 1
      then obtain b where "c # s = p @ b" by (auto simp: prefix_def)
      then have "c # s = [] @ p @ b" by simp
      then show ?thesis by blast
    next
      case 2
      with Cons.IH obtain a b where "s = a @ p @ b" by blast
      then have "c # s = (c # a) @ p @ b" by simp
      then show ?thesis by blast
    qed
  next
    assume "\<exists>a b. c # s = a @ p @ b"
    then obtain a b where ab: "c # s = a @ p @ b" by blast
    show "js_includes (c # s) p"
    proof (cases a)
      case Nil
      with ab have "prefix p (c # s)" by (simp add: prefix_def)
      then show ?thesis by simp
    next
      case (Cons x a')
      with ab have "s = a' @ p @ b" by simp
      with Cons.IH have "js_includes s p" by blast
      then show ?thesis by simp
    qed
  qed
qed

lemma js_includes_middle: "js_includes (a @ p @ b) p"
  unfolding js_includes_iff by blast

lemma js_includes_suffix: "js_includes (a @ p) p"
  using js_includes_middle [of a p "[]"] by simp

lemma js_includes_empty: "js_includes s []"
  unfolding js_includes_iff by auto

section \<open>Facts about property access\<close>

lemma lit_in_names: "lit k \<in> set (map lit ks) \<longleftrightarrow> k \<in> set ks"
  by (induction ks) auto

text \<open>
  The names that a value can inherit a property under. The fixed keys that the rule reads
  are not among them, so for these keys a property is found only where the value has it
  itself.
\<close>

definition inherited_names :: "string list" where
  "inherited_names =
     ''constructor'' # ''__proto__'' # ''name''
     # method_names Object_prototype @ method_names Array_prototype
     @ method_names Error_prototype"

lemma inherited_other_name:
  assumes "k \<notin> set (map lit inherited_names)"
  shows "inherited p k = JUndefined"
proof -
  from assms have "prototype_property q k = None" for q
    by (cases q) (auto simp: prototype_property_def inherited_names_def)
  then show ?thesis by (simp add: inherited_def)
qed

lemma inherited_fixed_keys [simp]:
  "inherited p (lit ''raw'') = JUndefined"
  "inherited p (lit ''ignoreAuthorPatterns'') = JUndefined"
  "inherited p (lit ''signOffPatternsToIgnore'') = JUndefined"
  "inherited p (lit ''rulesToEnforce'') = JUndefined"
  "inherited p (lit ''packageName'') = JUndefined"
  "inherited p (lit ''ruleName'') = JUndefined"
  "inherited p (lit ''value'') = JUndefined"
  "inherited p (lit ''default'') = JUndefined"
  "inherited p (lit ''rules'') = JUndefined"
  by (rule inherited_other_name,
      simp only: lit_in_names, simp add: inherited_names_def method_names_def)+

lemmas prototype_eval =
  inherited_def prototype_property_def method_names_def lit_in_names

section \<open>How the rule unfolds\<close>

lemma ignoreForAuthors_raw_invalid:
  assumes "when \<noteq> never" and "typeof (raw_of parsed) \<noteq> TString"
  shows "ignoreForAuthors w parsed when value =
           ([], Normal (False,
              plugin_prefix @ lit ''Raw commit message is not available or is invalid.''))"
  using assms by (simp add: ignoreForAuthors_def Let_def)

lemma ignoreForAuthors_bypassed:
  assumes "when \<noteq> never" and "typeof (raw_of parsed) = TString"
    and "bypass_check (string_value (raw_of parsed))
           (option_field value ''ignoreAuthorPatterns'') = Some r"
  shows "ignoreForAuthors w parsed when value = ([], Normal r)"
  using assms by (simp add: ignoreForAuthors_def Let_def)

lemma ignoreForAuthors_no_rules:
  assumes "when \<noteq> never" and "typeof (raw_of parsed) = TString"
    and "bypass_check (string_value (raw_of parsed))
           (option_field value ''ignoreAuthorPatterns'') = None"
    and "\<not> truthy (option_field value ''rulesToEnforce'')
         \<or> \<not> isArray (option_field value ''rulesToEnforce'')
         \<or> elements (option_field value ''rulesToEnforce'') = []"
  shows "ignoreForAuthors w parsed when value =
           ([], Normal (True,
              plugin_prefix @ lit ''No rules configured in '' @ dquote
              @ lit ''rulesToEnforce'' @ dquote
              @ lit '' for this author, or author was ignored. Rule passes.''))"
  using assms by (simp add: ignoreForAuthors_def Let_def)

lemma ignoreForAuthors_enforces:
  assumes "when \<noteq> never" and "typeof (raw_of parsed) = TString"
    and "bypass_check (string_value (raw_of parsed))
           (option_field value ''ignoreAuthorPatterns'') = None"
    and "option_field value ''rulesToEnforce'' = JArr entries" and "entries \<noteq> []"
  shows "ignoreForAuthors w parsed when value = enforce w parsed [] entries"
  using assms by (simp add: ignoreForAuthors_def Let_def)

lemma ignoreForAuthors_signoff_raw_invalid:
  assumes "when \<noteq> never" and "typeof (raw_of parsed) \<noteq> TString"
  shows "ignoreForAuthors_signoff w parsed when value =
           ([], Normal (False, lit ''Raw commit message is not available or is invalid.''))"
  using assms by (simp add: ignoreForAuthors_signoff_def Let_def)

lemma ignoreForAuthors_signoff_bypassed:
  assumes "when \<noteq> never" and "typeof (raw_of parsed) = TString"
    and "bypass_check_signoff (string_value (raw_of parsed))
           (option_field value ''signOffPatternsToIgnore'') = Some r"
  shows "ignoreForAuthors_signoff w parsed when value = ([], Normal r)"
  using assms by (simp add: ignoreForAuthors_signoff_def Let_def)

lemma ignoreForAuthors_signoff_no_rules:
  assumes "when \<noteq> never" and "typeof (raw_of parsed) = TString"
    and "bypass_check_signoff (string_value (raw_of parsed))
           (option_field value ''signOffPatternsToIgnore'') = None"
    and "\<not> truthy (option_field value ''rulesToEnforce'')
         \<or> \<not> isArray (option_field value ''rulesToEnforce'')
         \<or> elements (option_field value ''rulesToEnforce'') = []"
  shows "ignoreForAuthors_signoff w parsed when value =
           ([], Normal (True,
              lit ''No rules configured in '' @ dquote @ lit ''rulesToEnforce'' @ dquote
              @ lit '' for this author/commit, or author was ignored. Rule passes.''))"
  using assms by (simp add: ignoreForAuthors_signoff_def Let_def)

lemma ignoreForAuthors_signoff_enforces:
  assumes "when \<noteq> never" and "typeof (raw_of parsed) = TString"
    and "bypass_check_signoff (string_value (raw_of parsed))
           (option_field value ''signOffPatternsToIgnore'') = None"
    and "option_field value ''rulesToEnforce'' = JArr entries" and "entries \<noteq> []"
  shows "ignoreForAuthors_signoff w parsed when value = enforce_signoff w parsed [] entries"
  using assms by (simp add: ignoreForAuthors_signoff_def Let_def)

text \<open>The trace is empty unless the loop is entered.\<close>

lemma ignoreForAuthors_cases:
  "(\<exists>r. ignoreForAuthors w parsed when value = ([], r))
   \<or> ignoreForAuthors w parsed when value
       = enforce w parsed [] (elements (option_field value ''rulesToEnforce''))"
  by (simp add: ignoreForAuthors_def Let_def split: option.splits)

lemma ignoreForAuthors_signoff_cases:
  "(\<exists>r. ignoreForAuthors_signoff w parsed when value = ([], r))
   \<or> ignoreForAuthors_signoff w parsed when value
       = enforce_signoff w parsed [] (elements (option_field value ''rulesToEnforce''))"
  by (simp add: ignoreForAuthors_signoff_def Let_def split: option.splits)

section \<open>How the loop unfolds\<close>

lemma enforce_passed_through:
  "passed_through w parsed tr before = Some tr'
   \<Longrightarrow> enforce w parsed tr (before @ rest) = enforce w parsed tr' rest"
  by (induction before arbitrary: tr) (auto split: prod.splits option.splits)

lemma enforce_signoff_passed_through:
  "passed_through_signoff w parsed tr before = Some tr'
   \<Longrightarrow> enforce_signoff w parsed tr (before @ rest) = enforce_signoff w parsed tr' rest"
  by (induction before arbitrary: tr) (auto split: prod.splits option.splits)

lemma reaches_step:
  assumes "reaches w parsed when value before ruleConfig after tr"
  shows "ignoreForAuthors w parsed when value =
           (case enforce_one w parsed tr ruleConfig of
              (tr', None) \<Rightarrow> enforce w parsed tr' after
            | (tr', Some r) \<Rightarrow> (tr', r))"
proof -
  from assms have "ignoreForAuthors w parsed when value
                     = enforce w parsed [] (before @ ruleConfig # after)"
    unfolding reaches_def by (intro ignoreForAuthors_enforces) auto
  also from assms have "\<dots> = enforce w parsed tr (ruleConfig # after)"
    unfolding reaches_def by (intro enforce_passed_through) auto
  finally show ?thesis by simp
qed

lemma reaches_signoff_step:
  assumes "reaches_signoff w parsed when value before ruleConfig after tr"
  shows "ignoreForAuthors_signoff w parsed when value =
           (case enforce_one_signoff w parsed tr ruleConfig of
              (tr', None) \<Rightarrow> enforce_signoff w parsed tr' after
            | (tr', Some r) \<Rightarrow> (tr', r))"
proof -
  from assms have "ignoreForAuthors_signoff w parsed when value
                     = enforce_signoff w parsed [] (before @ ruleConfig # after)"
    unfolding reaches_signoff_def by (intro ignoreForAuthors_signoff_enforces) auto
  also from assms have "\<dots> = enforce_signoff w parsed tr (ruleConfig # after)"
    unfolding reaches_signoff_def by (intro enforce_signoff_passed_through) auto
  finally show ?thesis by simp
qed

section \<open>One iteration, case by case\<close>

lemma enforce_one_malformed:
  assumes "\<not> well_formed_entry ruleConfig"
  shows "enforce_one w parsed tr ruleConfig =
           (tr, Some (Normal (False,
              plugin_prefix @ lit ''Invalid rule configuration in '' @ apos
              @ lit ''rulesToEnforce'' @ apos @ lit '': '' @ apos @ lit ''packageName'' @ apos
              @ lit '' and '' @ apos @ lit ''ruleName'' @ apos @ lit '' must be strings.'')))"
  using assms by (auto simp: enforce_one_def well_formed_entry_def)

lemma enforce_one_signoff_malformed:
  assumes "\<not> well_formed_entry ruleConfig"
  shows "enforce_one_signoff w parsed tr ruleConfig =
           (tr, Some (Normal (False,
              lit ''Invalid rule configuration in '' @ apos
              @ lit ''rulesToEnforce'' @ apos @ lit '': '' @ apos @ lit ''packageName'' @ apos
              @ lit '' and '' @ apos @ lit ''ruleName'' @ apos @ lit '' must be strings.'')))"
  using assms by (auto simp: enforce_one_signoff_def well_formed_entry_def)

lemma enforce_one_load_error:
  assumes "well_formed_entry ruleConfig"
    and "import_module w tr (packageName_of ruleConfig) = Throw error"
  shows "enforce_one w parsed tr ruleConfig =
           (tr @ [Import (packageName_of ruleConfig)],
            Some (Normal (False,
              plugin_prefix @ lit ''Error loading plugin package '' @ apos
              @ packageName_of ruleConfig @ apos @ lit '': '' @ errorMessage w error)))"
  using assms by (simp add: enforce_one_def well_formed_entry_def resolve_rule_def Let_def)

lemma enforce_one_signoff_load_error:
  assumes "well_formed_entry ruleConfig"
    and "import_module w tr (packageName_of ruleConfig) = Throw error"
  shows "enforce_one_signoff w parsed tr ruleConfig =
           (tr @ [Import (packageName_of ruleConfig)],
            Some (Normal (False,
              lit ''Error loading plugin package '' @ apos
              @ packageName_of ruleConfig @ apos @ lit '': '' @ errorMessage w error)))"
  using assms
  by (simp add: enforce_one_signoff_def well_formed_entry_def resolve_rule_signoff_def Let_def)

lemma enforce_one_not_found:
  assumes "well_formed_entry ruleConfig"
    and "resolve_rule w tr (packageName_of ruleConfig) (ruleName_of ruleConfig)
           = Normal ruleFunction"
    and "typeof ruleFunction \<noteq> TFunction"
  shows "enforce_one w parsed tr ruleConfig =
           (tr @ [Import (packageName_of ruleConfig)],
            Some (Normal (False,
              plugin_prefix @ lit ''Rule '' @ apos @ ruleName_of ruleConfig @ apos
              @ lit '' not found or not a function in package '' @ apos
              @ packageName_of ruleConfig @ apos @ lit ''.'')))"
  using assms
  by (cases ruleFunction) (simp_all add: enforce_one_def well_formed_entry_def Let_def)

lemma enforce_one_signoff_not_found:
  assumes "well_formed_entry ruleConfig"
    and "resolve_rule_signoff w tr (packageName_of ruleConfig) (ruleName_of ruleConfig)
           = Normal ruleFunction"
    and "typeof ruleFunction \<noteq> TFunction"
  shows "enforce_one_signoff w parsed tr ruleConfig =
           (tr @ [Import (packageName_of ruleConfig)],
            Some (Normal (False,
              lit ''Rule '' @ apos @ ruleName_of ruleConfig @ apos
              @ lit '' not found or not a function in package '' @ apos
              @ packageName_of ruleConfig @ apos @ lit ''.'')))"
  using assms
  by (cases ruleFunction) (simp_all add: enforce_one_signoff_def well_formed_entry_def Let_def)

lemma enforce_one_invoked:
  assumes "well_formed_entry ruleConfig"
    and "resolve_rule w tr (packageName_of ruleConfig) (ruleName_of ruleConfig)
           = Normal (JFun f)"
  shows "enforce_one w parsed tr ruleConfig =
           (tr @ [Import (packageName_of ruleConfig),
                  Invoke f (JObj parsed) always (ruleValue_of ruleConfig)],
            case await_resolve
                   (call_function w (tr @ [Import (packageName_of ruleConfig)]) f
                      (JObj parsed) always (ruleValue_of ruleConfig)) of
              Throw e \<Rightarrow> Some (Throw e)
            | Hang \<Rightarrow> Some Hang
            | Normal outcome \<Rightarrow>
                (case destructure2 outcome of
                   Inl e \<Rightarrow> Some (Throw e)
                 | Inr (isValid, message) \<Rightarrow>
                     if \<not> truthy isValid
                     then Some (Normal (False,
                            lit ''[@mridang/commitlint-plugin-conditionals via ''
                            @ packageName_of ruleConfig @ lit ''/'' @ ruleName_of ruleConfig
                            @ lit ''] '' @ ToString w message))
                     else None))"
  using assms
  by (simp add: enforce_one_def well_formed_entry_def Let_def
           split: completion.splits sum.splits prod.splits)

lemma enforce_one_signoff_invoked:
  assumes "well_formed_entry ruleConfig"
    and "resolve_rule_signoff w tr (packageName_of ruleConfig) (ruleName_of ruleConfig)
           = Normal (JFun f)"
  shows "enforce_one_signoff w parsed tr ruleConfig =
           (tr @ [Import (packageName_of ruleConfig),
                  Invoke f (JObj parsed) always (ruleValue_of ruleConfig)],
            case await_resolve
                   (call_function w (tr @ [Import (packageName_of ruleConfig)]) f
                      (JObj parsed) always (ruleValue_of ruleConfig)) of
              Throw e \<Rightarrow> Some (Throw e)
            | Hang \<Rightarrow> Some Hang
            | Normal outcome \<Rightarrow>
                (case destructure2 outcome of
                   Inl e \<Rightarrow> Some (Throw e)
                 | Inr (isValid, messageFromSubRule) \<Rightarrow>
                     if \<not> truthy isValid
                     then Some (Normal (False,
                            lit ''[via '' @ packageName_of ruleConfig @ lit ''/''
                            @ ruleName_of ruleConfig @ lit ''] ''
                            @ ToString w messageFromSubRule))
                     else None))"
  using assms
  by (simp add: enforce_one_signoff_def well_formed_entry_def Let_def
           split: completion.splits sum.splits prod.splits)

text \<open>
  The two versions resolve a rule in the same way: where the later one leaves out the
  comparison with \<open>null\<close>, the value is already known to be truthy.
\<close>

lemma find_rulesCatalog_signoff_eq: "find_rulesCatalog_signoff m = find_rulesCatalog m"
  by (auto simp: find_rulesCatalog_signoff_def find_rulesCatalog_def Let_def)

lemma resolve_rule_signoff_eq: "resolve_rule_signoff = resolve_rule"
  by (intro ext)
     (simp add: resolve_rule_signoff_def resolve_rule_def find_rulesCatalog_signoff_eq
           split: completion.splits)

section \<open>The condition \<open>never\<close>\<close>

text \<open>
  Claim C7. Called with the condition \<open>never\<close>, both versions of the rule return
  \<open>[true, '']\<close> at once, for every commit and every value of the options, whatever their
  shape: the result does not depend on them, and nothing is imported or invoked (the
  trace is empty).
\<close>

theorem never_passes_immediately:
  "ignoreForAuthors w parsed never value = ([], Normal (True, []))
   \<and> ignoreForAuthors_signoff w parsed never value = ([], Normal (True, []))"
  by (simp add: ignoreForAuthors_def ignoreForAuthors_signoff_def)

text \<open>
  An instance with a commit whose \<open>raw\<close> is \<open>null\<close> and with options of the wrong shape:
  a number, and an object whose pattern list holds a number and whose \<open>rulesToEnforce\<close>
  is \<open>true\<close>.
\<close>

theorem never_passes_immediately_witness:
  "ignoreForAuthors test_world [(lit ''raw'', JNull)] never (JNum 7) = ([], Normal (True, []))
   \<and> ignoreForAuthors_signoff test_world [(lit ''raw'', JNull)] never
        (JObj [(lit ''signOffPatternsToIgnore'', JArr [JNum 1]),
               (lit ''rulesToEnforce'', JBool True)])
      = ([], Normal (True, []))"
  using never_passes_immediately [of test_world "[(lit ''raw'', JNull)]" "JNum 7"]
        never_passes_immediately [of test_world "[(lit ''raw'', JNull)]"
           "JObj [(lit ''signOffPatternsToIgnore'', JArr [JNum 1]),
                  (lit ''rulesToEnforce'', JBool True)]"]
  by simp

section \<open>No rules to enforce\<close>

text \<open>When no pattern of the list matches, the block of the patterns is left without a
  \<open>return\<close>.\<close>

lemma bypass_check_no_match:
  assumes "\<forall>p \<in> set (elements pats). typeof p = TString \<and> \<not> js_includes raw (string_value p)"
  shows "bypass_check raw pats = None"
proof -
  from assms have "list_all (\<lambda>p. typeof p = TString) (elements pats)"
    by (simp add: list_all_iff)
  moreover from assms
  have "find (\<lambda>p. js_includes raw (string_value p)) (elements pats) = None"
    by (simp add: find_None_iff)
  ultimately show ?thesis by (simp add: bypass_check_def)
qed

lemma bypass_check_signoff_no_match:
  assumes "\<forall>p \<in> set (elements pats). typeof p = TString
             \<and> \<not> list_ex (\<lambda>s. js_includes s (string_value p)) (extractSignOffs raw 0 [])"
  shows "bypass_check_signoff raw pats = None"
proof -
  from assms have "list_all (\<lambda>p. typeof p = TString) (elements pats)"
    by (simp add: list_all_iff)
  moreover from assms
  have "find (\<lambda>p. list_ex (\<lambda>s. js_includes s (string_value p)) (extractSignOffs raw 0 []))
          (elements pats) = None"
    by (simp add: find_None_iff)
  ultimately show ?thesis by (simp add: bypass_check_signoff_def Let_def)
qed

text \<open>
  Claim C8. The raw message is a string and no pattern of the list matched (every pattern
  is a string; in the first version none occurs in the raw message, in the later version
  none occurs in an extracted sign-off). If \<open>rulesToEnforce\<close> is absent, is not an array
  or is the empty array, the rule passes, with a message that contains
  \<open>No rules configured\<close> and with nothing imported or invoked. The condition is not
  \<open>never\<close>, for which the rule has returned before.
\<close>

theorem no_rules_configured_passes:
  assumes "when \<noteq> never" and "typeof (raw_of parsed) = TString"
    and "\<not> truthy (option_field value ''rulesToEnforce'')
         \<or> \<not> isArray (option_field value ''rulesToEnforce'')
         \<or> elements (option_field value ''rulesToEnforce'') = []"
  shows
    "((\<forall>p \<in> set (elements (option_field value ''ignoreAuthorPatterns'')).
         typeof p = TString
         \<and> \<not> js_includes (string_value (raw_of parsed)) (string_value p))
      \<longrightarrow> (\<exists>message. ignoreForAuthors w parsed when value = ([], Normal (True, message))
                      \<and> js_includes message (lit ''No rules configured'')))
     \<and> ((\<forall>p \<in> set (elements (option_field value ''signOffPatternsToIgnore'')).
            typeof p = TString
            \<and> \<not> list_ex (\<lambda>s. js_includes s (string_value p))
                   (extractSignOffs (string_value (raw_of parsed)) 0 []))
         \<longrightarrow> (\<exists>message. ignoreForAuthors_signoff w parsed when value
                            = ([], Normal (True, message))
                         \<and> js_includes message (lit ''No rules configured'')))"
proof (intro conjI impI)
  assume "\<forall>p \<in> set (elements (option_field value ''ignoreAuthorPatterns'')).
            typeof p = TString
            \<and> \<not> js_includes (string_value (raw_of parsed)) (string_value p)"
  then have "bypass_check (string_value (raw_of parsed))
               (option_field value ''ignoreAuthorPatterns'') = None"
    by (rule bypass_check_no_match)
  from ignoreForAuthors_no_rules [OF assms(1,2) this assms(3)]
  have "ignoreForAuthors w parsed when value =
          ([], Normal (True,
             plugin_prefix @ lit ''No rules configured'' @ lit '' in '' @ dquote
             @ lit ''rulesToEnforce'' @ dquote
             @ lit '' for this author, or author was ignored. Rule passes.''))"
    by (simp add: lit_append [symmetric])
  moreover have "js_includes
          (plugin_prefix @ lit ''No rules configured'' @ lit '' in '' @ dquote
             @ lit ''rulesToEnforce'' @ dquote
             @ lit '' for this author, or author was ignored. Rule passes.'')
          (lit ''No rules configured'')"
    by (rule js_includes_middle)
  ultimately show "\<exists>message. ignoreForAuthors w parsed when value = ([], Normal (True, message))
                      \<and> js_includes message (lit ''No rules configured'')"
    by blast
next
  assume "\<forall>p \<in> set (elements (option_field value ''signOffPatternsToIgnore'')).
            typeof p = TString
            \<and> \<not> list_ex (\<lambda>s. js_includes s (string_value p))
                   (extractSignOffs (string_value (raw_of parsed)) 0 [])"
  then have "bypass_check_signoff (string_value (raw_of parsed))
               (option_field value ''signOffPatternsToIgnore'') = None"
    by (rule bypass_check_signoff_no_match)
  from ignoreForAuthors_signoff_no_rules [OF assms(1,2) this assms(3)]
  have "ignoreForAuthors_signoff w parsed when value =
          ([], Normal (True,
             [] @ lit ''No rules configured'' @ lit '' in '' @ dquote
             @ lit ''rulesToEnforce'' @ dquote
             @ lit '' for this author/commit, or author was ignored. Rule passes.''))"
    by (simp add: lit_append [symmetric])
  moreover have "js_includes
          ([] @ lit ''No rules configured'' @ lit '' in '' @ dquote
             @ lit ''rulesToEnforce'' @ dquote
             @ lit '' for this author/commit, or author was ignored. Rule passes.'')
          (lit ''No rules configured'')"
    by (rule js_includes_middle)
  ultimately show "\<exists>message. ignoreForAuthors_signoff w parsed when value
                            = ([], Normal (True, message))
                         \<and> js_includes message (lit ''No rules configured'')"
    by blast
qed

text \<open>
  Instances: a pattern that does not occur and no \<open>rulesToEnforce\<close> at all; a sign-off of
  somebody else and the empty \<open>rulesToEnforce\<close>.
\<close>

theorem no_rules_configured_passes_witness:
  "always \<noteq> never
   \<and> typeof (raw_of (commit_of ''feat: Another commit'')) = TString
   \<and> \<not> js_includes (lit ''feat: Another commit'') (lit ''dependabot[bot]'')
   \<and> (\<exists>message.
         ignoreForAuthors test_world (commit_of ''feat: Another commit'') always
           (JObj [(lit ''ignoreAuthorPatterns'', JArr [JStr (lit ''dependabot[bot]'')])])
           = ([], Normal (True, message))
         \<and> js_includes message (lit ''No rules configured''))
   \<and> extractSignOffs (lit ''feat: x\<newline>\<newline>Signed-off-by: Human <human@example.com>'') 0 []
       = [lit ''Human <human@example.com>'']
   \<and> (\<exists>message.
         ignoreForAuthors_signoff test_world
           (commit_of ''feat: x\<newline>\<newline>Signed-off-by: Human <human@example.com>'') always
           (JObj [(lit ''signOffPatternsToIgnore'', JArr [JStr (lit ''dependabot[bot]'')]),
                  (lit ''rulesToEnforce'', JArr [])])
           = ([], Normal (True, message))
         \<and> js_includes message (lit ''No rules configured''))"
proof -
  let ?c1 = "commit_of ''feat: Another commit''"
  let ?v1 = "JObj [(lit ''ignoreAuthorPatterns'', JArr [JStr (lit ''dependabot[bot]'')])]"
  let ?c2 = "commit_of ''feat: x\<newline>\<newline>Signed-off-by: Human <human@example.com>''"
  let ?v2 = "JObj [(lit ''signOffPatternsToIgnore'', JArr [JStr (lit ''dependabot[bot]'')]),
                   (lit ''rulesToEnforce'', JArr [])]"
  have a: "always \<noteq> never" by simp
  have s1: "typeof (raw_of ?c1) = TString" and s2: "typeof (raw_of ?c2) = TString"
    by (simp_all add: commit_of_def)
  have n1: "\<not> js_includes (lit ''feat: Another commit'') (lit ''dependabot[bot]'')"
    by (simp add: lit_def)
  have x: "extractSignOffs (lit ''feat: x\<newline>\<newline>Signed-off-by: Human <human@example.com>'') 0 []
             = [lit ''Human <human@example.com>'']"
    by code_simp
  have n2: "\<not> js_includes (lit ''Human <human@example.com>'') (lit ''dependabot[bot]'')"
    by (simp add: lit_def)
  have r1: "\<not> truthy (option_field ?v1 ''rulesToEnforce'')
            \<or> \<not> isArray (option_field ?v1 ''rulesToEnforce'')
            \<or> elements (option_field ?v1 ''rulesToEnforce'') = []"
    by simp
  have r2: "\<not> truthy (option_field ?v2 ''rulesToEnforce'')
            \<or> \<not> isArray (option_field ?v2 ''rulesToEnforce'')
            \<or> elements (option_field ?v2 ''rulesToEnforce'') = []"
    by simp
  have p1: "\<forall>p \<in> set (elements (option_field ?v1 ''ignoreAuthorPatterns'')).
              typeof p = TString \<and> \<not> js_includes (string_value (raw_of ?c1)) (string_value p)"
    using n1 by (simp add: commit_of_def)
  have p2: "\<forall>p \<in> set (elements (option_field ?v2 ''signOffPatternsToIgnore'')).
              typeof p = TString
              \<and> \<not> list_ex (\<lambda>s. js_includes s (string_value p))
                     (extractSignOffs (string_value (raw_of ?c2)) 0 [])"
    using n2 x by (simp add: commit_of_def)
  from no_rules_configured_passes [OF a s1 r1, of test_world] p1
  have "\<exists>message. ignoreForAuthors test_world ?c1 always ?v1 = ([], Normal (True, message))
           \<and> js_includes message (lit ''No rules configured'')"
    by blast
  moreover from no_rules_configured_passes [OF a s2 r2, of test_world] p2
  have "\<exists>message. ignoreForAuthors_signoff test_world ?c2 always ?v2
                     = ([], Normal (True, message))
           \<and> js_includes message (lit ''No rules configured'')"
    by blast
  ultimately show ?thesis using a s1 n1 x by blast
qed

section \<open>Malformed input\<close>

lemma bypass_check_config_error:
  assumes "isArray pats" and "\<exists>p \<in> set (elements pats). typeof p \<noteq> TString"
  shows "bypass_check raw pats =
           Some (False,
             plugin_prefix @ lit ''Configuration error: '' @ apos @ lit ''ignoreAuthorPatterns''
             @ apos @ lit '' must be an array of strings.'')"
proof -
  from assms(1) have "truthy pats" by (cases pats) simp_all
  moreover from assms(2) have "\<not> list_all (\<lambda>p. typeof p = TString) (elements pats)"
    by (simp add: list_all_iff)
  ultimately show ?thesis using assms(1) by (simp add: bypass_check_def)
qed

lemma bypass_check_signoff_config_error:
  assumes "isArray pats" and "\<exists>p \<in> set (elements pats). typeof p \<noteq> TString"
  shows "bypass_check_signoff raw pats =
           Some (False,
             lit ''Configuration error: '' @ apos @ lit ''signOffPatternsToIgnore''
             @ apos @ lit '' must be an array of strings.'')"
proof -
  from assms(1) have "truthy pats" by (cases pats) simp_all
  moreover from assms(2) have "\<not> list_all (\<lambda>p. typeof p = TString) (elements pats)"
    by (simp add: list_all_iff)
  ultimately show ?thesis using assms(1) by (simp add: bypass_check_signoff_def)
qed

text \<open>
  Claim C5. Malformed input ends the evaluation with a failing outcome, at the step that
  reads it, and nothing is thrown. The condition is not \<open>never\<close>.
  \<^item> A raw message that is not a string (absent and \<open>null\<close> included): \<open>[false, message]\<close>
    with \<open>Raw commit message is not available or is invalid.\<close> in the message, and an
    empty trace.
  \<^item> A pattern list with an entry that is not a string, the raw message being a string:
    \<open>[false, message]\<close> with \<open>must be an array of strings.\<close> in the message and an
    empty trace, whatever \<open>rulesToEnforce\<close> is.
  \<^item> An entry of \<open>rulesToEnforce\<close> that is falsy or whose \<open>packageName\<close> or \<open>ruleName\<close>
    is not a string, when the loop reaches it with the trace \<open>tr\<close>: \<open>[false, message]\<close>
    with \<open>must be strings.\<close> in the message, and the trace is still \<open>tr\<close>: nothing of
    this entry or of the entries after it is imported or invoked.
\<close>

theorem malformed_input_fails:
  assumes "when \<noteq> never"
  shows
    "(typeof (raw_of parsed) \<noteq> TString \<longrightarrow>
        (\<exists>message. ignoreForAuthors w parsed when value = ([], Normal (False, message))
            \<and> js_includes message
                 (lit ''Raw commit message is not available or is invalid.''))
        \<and> (\<exists>message. ignoreForAuthors_signoff w parsed when value
                         = ([], Normal (False, message))
            \<and> js_includes message
                 (lit ''Raw commit message is not available or is invalid.'')))
     \<and> (typeof (raw_of parsed) = TString
         \<and> isArray (option_field value ''ignoreAuthorPatterns'')
         \<and> (\<exists>p \<in> set (elements (option_field value ''ignoreAuthorPatterns'')).
               typeof p \<noteq> TString) \<longrightarrow>
           (\<exists>message. ignoreForAuthors w parsed when value = ([], Normal (False, message))
               \<and> js_includes message (lit ''must be an array of strings.'')))
     \<and> (typeof (raw_of parsed) = TString
         \<and> isArray (option_field value ''signOffPatternsToIgnore'')
         \<and> (\<exists>p \<in> set (elements (option_field value ''signOffPatternsToIgnore'')).
               typeof p \<noteq> TString) \<longrightarrow>
           (\<exists>message. ignoreForAuthors_signoff w parsed when value
                         = ([], Normal (False, message))
               \<and> js_includes message (lit ''must be an array of strings.'')))
     \<and> (reaches w parsed when value before ruleConfig after tr
         \<and> \<not> well_formed_entry ruleConfig \<longrightarrow>
           (\<exists>message. ignoreForAuthors w parsed when value = (tr, Normal (False, message))
               \<and> js_includes message (lit ''must be strings.'')))
     \<and> (reaches_signoff w parsed when value before ruleConfig after tr
         \<and> \<not> well_formed_entry ruleConfig \<longrightarrow>
           (\<exists>message. ignoreForAuthors_signoff w parsed when value
                         = (tr, Normal (False, message))
               \<and> js_includes message (lit ''must be strings.'')))"
proof (intro conjI impI; (elim conjE)?)
  assume "typeof (raw_of parsed) \<noteq> TString"
  from ignoreForAuthors_raw_invalid [OF assms this]
  show "\<exists>message. ignoreForAuthors w parsed when value = ([], Normal (False, message))
            \<and> js_includes message
                 (lit ''Raw commit message is not available or is invalid.'')"
    using js_includes_suffix by blast
next
  assume "typeof (raw_of parsed) \<noteq> TString"
  from ignoreForAuthors_signoff_raw_invalid [OF assms this]
  show "\<exists>message. ignoreForAuthors_signoff w parsed when value
                         = ([], Normal (False, message))
            \<and> js_includes message
                 (lit ''Raw commit message is not available or is invalid.'')"
    using js_includes_suffix [of "[]"] by auto
next
  assume s: "typeof (raw_of parsed) = TString"
    and "isArray (option_field value ''ignoreAuthorPatterns'')"
    and "\<exists>p \<in> set (elements (option_field value ''ignoreAuthorPatterns'')).
           typeof p \<noteq> TString"
  then have "bypass_check (string_value (raw_of parsed))
               (option_field value ''ignoreAuthorPatterns'')
             = Some (False,
                 (plugin_prefix @ lit ''Configuration error: '' @ apos
                  @ lit ''ignoreAuthorPatterns'' @ apos @ lit '' '')
                 @ lit ''must be an array of strings.'')"
    by (simp add: bypass_check_config_error lit_append [symmetric])
  from ignoreForAuthors_bypassed [OF assms s this]
  show "\<exists>message. ignoreForAuthors w parsed when value = ([], Normal (False, message))
               \<and> js_includes message (lit ''must be an array of strings.'')"
    using js_includes_suffix by blast
next
  assume s: "typeof (raw_of parsed) = TString"
    and "isArray (option_field value ''signOffPatternsToIgnore'')"
    and "\<exists>p \<in> set (elements (option_field value ''signOffPatternsToIgnore'')).
           typeof p \<noteq> TString"
  then have "bypass_check_signoff (string_value (raw_of parsed))
               (option_field value ''signOffPatternsToIgnore'')
             = Some (False,
                 (lit ''Configuration error: '' @ apos
                  @ lit ''signOffPatternsToIgnore'' @ apos @ lit '' '')
                 @ lit ''must be an array of strings.'')"
    by (simp add: bypass_check_signoff_config_error lit_append [symmetric])
  from ignoreForAuthors_signoff_bypassed [OF assms s this]
  show "\<exists>message. ignoreForAuthors_signoff w parsed when value
                         = ([], Normal (False, message))
               \<and> js_includes message (lit ''must be an array of strings.'')"
    using js_includes_suffix by blast
next
  assume r: "reaches w parsed when value before ruleConfig after tr"
    and m: "\<not> well_formed_entry ruleConfig"
  have "ignoreForAuthors w parsed when value =
          (tr, Normal (False,
             (plugin_prefix @ lit ''Invalid rule configuration in '' @ apos
              @ lit ''rulesToEnforce'' @ apos @ lit '': '' @ apos @ lit ''packageName'' @ apos
              @ lit '' and '' @ apos @ lit ''ruleName'' @ apos @ lit '' '')
             @ lit ''must be strings.''))"
    by (simp add: reaches_step [OF r] enforce_one_malformed [OF m] lit_append [symmetric])
  then show "\<exists>message. ignoreForAuthors w parsed when value = (tr, Normal (False, message))
               \<and> js_includes message (lit ''must be strings.'')"
    using js_includes_suffix by blast
next
  assume r: "reaches_signoff w parsed when value before ruleConfig after tr"
    and m: "\<not> well_formed_entry ruleConfig"
  have "ignoreForAuthors_signoff w parsed when value =
          (tr, Normal (False,
             (lit ''Invalid rule configuration in '' @ apos
              @ lit ''rulesToEnforce'' @ apos @ lit '': '' @ apos @ lit ''packageName'' @ apos
              @ lit '' and '' @ apos @ lit ''ruleName'' @ apos @ lit '' '')
             @ lit ''must be strings.''))"
    by (simp add: reaches_signoff_step [OF r] enforce_one_signoff_malformed [OF m]
          lit_append [symmetric])
  then show "\<exists>message. ignoreForAuthors_signoff w parsed when value
                         = (tr, Normal (False, message))
               \<and> js_includes message (lit ''must be strings.'')"
    using js_includes_suffix by blast
qed

text \<open>The definitions that a computation in the concrete world unfolds.\<close>

lemmas test_eval =
  enforce_one_def enforce_one_signoff_def resolve_rule_def resolve_rule_signoff_def
  find_rulesCatalog_def find_rulesCatalog_signoff_def test_world_def test_import_def
  test_call_def test_catalogue_def commit_of_def rule_entry_def Let_def prototype_eval

text \<open>
  Instances, from the test suite: \<open>raw: null\<close>; the patterns \<open>['valid', 123, null]\<close>;
  an entry without \<open>packageName\<close>, here after an entry that passes and before one that
  would fail.
\<close>

theorem malformed_input_fails_witness:
  "typeof (raw_of [(lit ''raw'', JNull)]) \<noteq> TString
   \<and> (\<exists>message.
         ignoreForAuthors test_world [(lit ''raw'', JNull)] always
           (JObj [(lit ''ignoreAuthorPatterns'', JArr [JStr (lit ''dependabot[bot]'')])])
           = ([], Normal (False, message))
         \<and> js_includes message (lit ''Raw commit message is not available or is invalid.''))
   \<and> (\<exists>message.
         ignoreForAuthors_signoff test_world [(lit ''raw'', JNull)] always
           (JObj [(lit ''ignoreAuthorPatterns'', JArr [JStr (lit ''dependabot[bot]'')])])
           = ([], Normal (False, message))
         \<and> js_includes message (lit ''Raw commit message is not available or is invalid.''))
   \<and> (\<exists>message.
         ignoreForAuthors test_world (commit_of ''feat: test commit'') always
           (JObj [(lit ''ignoreAuthorPatterns'', JArr [JStr (lit ''valid''), JNum 123, JNull]),
                  (lit ''rulesToEnforce'',
                   JArr [rule_entry (lit ''@commitlint/rules'') (lit ''type-enum'') JNull])])
           = ([], Normal (False, message))
         \<and> js_includes message (lit ''must be an array of strings.''))
   \<and> (\<exists>message.
         ignoreForAuthors_signoff test_world (commit_of ''feat: test commit'') always
           (JObj [(lit ''signOffPatternsToIgnore'', JArr [JStr (lit ''valid''), JNum 123, JNull]),
                  (lit ''rulesToEnforce'',
                   JArr [rule_entry (lit ''@commitlint/rules'') (lit ''type-enum'') JNull])])
           = ([], Normal (False, message))
         \<and> js_includes message (lit ''must be an array of strings.''))
   \<and> \<not> well_formed_entry (JObj [(lit ''ruleName'', JStr (lit ''type-enum'')), (lit ''value'', JArr [])])
   \<and> (\<exists>message.
         ignoreForAuthors test_world (commit_of ''feat(app): new feature by human'') always
           (JObj [(lit ''rulesToEnforce'',
                   JArr [rule_entry (lit ''@commitlint/rules'') (lit ''header-max-length'') (JNum 50),
                         JObj [(lit ''ruleName'', JStr (lit ''type-enum'')), (lit ''value'', JArr [])],
                         rule_entry (lit ''@commitlint/rules'') (lit ''type-enum'') JNull])])
           = ([Import (lit ''@commitlint/rules''),
               Invoke (Exported 1) (JObj (commit_of ''feat(app): new feature by human'')) always (JNum 50)],
              Normal (False, message))
         \<and> js_includes message (lit ''must be strings.''))
   \<and> (\<exists>message.
         ignoreForAuthors_signoff test_world (commit_of ''feat(app): new feature by human'') always
           (JObj [(lit ''rulesToEnforce'',
                   JArr [rule_entry (lit ''@commitlint/rules'') (lit ''header-max-length'') (JNum 50),
                         JObj [(lit ''ruleName'', JStr (lit ''type-enum'')), (lit ''value'', JArr [])],
                         rule_entry (lit ''@commitlint/rules'') (lit ''type-enum'') JNull])])
           = ([Import (lit ''@commitlint/rules''),
               Invoke (Exported 1) (JObj (commit_of ''feat(app): new feature by human'')) always (JNum 50)],
              Normal (False, message))
         \<and> js_includes message (lit ''must be strings.''))"
proof -
  let ?c0 = "[(lit ''raw'', JNull)]"
  let ?v0 = "JObj [(lit ''ignoreAuthorPatterns'', JArr [JStr (lit ''dependabot[bot]'')])]"
  let ?c1 = "commit_of ''feat: test commit''"
  let ?e = "rule_entry (lit ''@commitlint/rules'') (lit ''type-enum'') JNull"
  let ?v1 = "JObj [(lit ''ignoreAuthorPatterns'', JArr [JStr (lit ''valid''), JNum 123, JNull]),
                   (lit ''rulesToEnforce'', JArr [?e])]"
  let ?v1' = "JObj [(lit ''signOffPatternsToIgnore'', JArr [JStr (lit ''valid''), JNum 123, JNull]),
                    (lit ''rulesToEnforce'', JArr [?e])]"
  let ?c2 = "commit_of ''feat(app): new feature by human''"
  let ?h = "rule_entry (lit ''@commitlint/rules'') (lit ''header-max-length'') (JNum 50)"
  let ?bad = "JObj [(lit ''ruleName'', JStr (lit ''type-enum'')), (lit ''value'', JArr [])]"
  let ?v2 = "JObj [(lit ''rulesToEnforce'', JArr [?h, ?bad, ?e])]"
  let ?tr = "[Import (lit ''@commitlint/rules''), Invoke (Exported 1) (JObj ?c2) always (JNum 50)]"
  have a: "always \<noteq> never" by simp
  have raw0: "typeof (raw_of ?c0) \<noteq> TString" by simp
  have bad: "\<not> well_formed_entry ?bad" by (simp add: well_formed_entry_def)
  have r: "reaches test_world ?c2 always ?v2 [?h] ?bad [?e] ?tr"
    by (simp add: reaches_def bypass_check_def test_eval)
  have r': "reaches_signoff test_world ?c2 always ?v2 [?h] ?bad [?e] ?tr"
    by (simp add: reaches_signoff_def bypass_check_signoff_def test_eval)
  note t0 = malformed_input_fails [OF a, of ?c0 test_world ?v0]
  note t1 = malformed_input_fails [OF a, of ?c1 test_world ?v1]
  note t1' = malformed_input_fails [OF a, of ?c1 test_world ?v1']
  note t2 = malformed_input_fails [OF a, of ?c2 test_world ?v2 "[?h]" ?bad "[?e]" ?tr]
  from t0 raw0 have g1: "\<exists>message.
         ignoreForAuthors test_world ?c0 always ?v0 = ([], Normal (False, message))
         \<and> js_includes message (lit ''Raw commit message is not available or is invalid.'')"
    and g2: "\<exists>message.
         ignoreForAuthors_signoff test_world ?c0 always ?v0 = ([], Normal (False, message))
         \<and> js_includes message (lit ''Raw commit message is not available or is invalid.'')"
    by blast+
  have "typeof (raw_of ?c1) = TString
        \<and> isArray (option_field ?v1 ''ignoreAuthorPatterns'')
        \<and> (\<exists>p \<in> set (elements (option_field ?v1 ''ignoreAuthorPatterns'')). typeof p \<noteq> TString)"
    by (simp add: commit_of_def)
  with t1 have g3: "\<exists>message.
         ignoreForAuthors test_world ?c1 always ?v1 = ([], Normal (False, message))
         \<and> js_includes message (lit ''must be an array of strings.'')"
    by blast
  have "typeof (raw_of ?c1) = TString
        \<and> isArray (option_field ?v1' ''signOffPatternsToIgnore'')
        \<and> (\<exists>p \<in> set (elements (option_field ?v1' ''signOffPatternsToIgnore'')).
              typeof p \<noteq> TString)"
    by (simp add: commit_of_def)
  with t1' have g4: "\<exists>message.
         ignoreForAuthors_signoff test_world ?c1 always ?v1' = ([], Normal (False, message))
         \<and> js_includes message (lit ''must be an array of strings.'')"
    by blast
  from t2 r bad have g5: "\<exists>message.
         ignoreForAuthors test_world ?c2 always ?v2 = (?tr, Normal (False, message))
         \<and> js_includes message (lit ''must be strings.'')"
    by blast
  from t2 r' bad have g6: "\<exists>message.
         ignoreForAuthors_signoff test_world ?c2 always ?v2 = (?tr, Normal (False, message))
         \<and> js_includes message (lit ''must be strings.'')"
    by blast
  from raw0 g1 g2 g3 g4 bad g5 g6 show ?thesis by (intro conjI)
qed

section \<open>Rules that cannot be resolved\<close>

lemma errorMessage_Error: "errorMessage w (JError (JStr text)) = text"
  by (simp add: errorMessage_def)

lemma resolve_rule_loaded:
  assumes "import_module w tr packageName = Normal exports"
  shows "resolve_rule w tr packageName ruleName =
           Normal (if truthy (find_rulesCatalog (JObj exports))
                   then member (find_rulesCatalog (JObj exports)) ruleName
                   else JUndefined)"
  using assms by (simp add: resolve_rule_def)

text \<open>
  What the code does when the loop reaches, with the trace \<open>tr\<close>, an entry whose
  \<open>packageName\<close> and \<open>ruleName\<close> are strings.
  \<^item> If the import of the package throws, the rule fails with
    \<open>Error loading plugin package '<packageName>': <text>\<close>, where the text is the
    \<open>message\<close> of an \<open>Error\<close> and \<open>String(error)\<close> of anything else; for an \<open>Error\<close>
    whose message is a string it is that string.
  \<^item> If the package is loaded but no catalogue is found, or what the expression
    \<open>rulesCatalog[ruleName]\<close> gives is not a function, the rule fails with
    \<open>Rule '<ruleName>' not found or not a function in package '<packageName>'.\<close>
  In both cases the trace ends with the import of this package: the entries after this one
  are neither resolved nor invoked. The first version puts its prefix before the messages.

  The expression \<open>rulesCatalog[ruleName]\<close> is \<open>member\<close>: it gives what the catalogue has
  under \<open>ruleName\<close> or, when it has nothing, what it inherits under that name.
\<close>

lemma resolution_failure_reported:
  "(reaches w parsed when value before ruleConfig after tr \<and> well_formed_entry ruleConfig
      \<longrightarrow>
      (import_module w tr (packageName_of ruleConfig) = Throw error \<longrightarrow>
         ignoreForAuthors w parsed when value =
           (tr @ [Import (packageName_of ruleConfig)],
            Normal (False,
              plugin_prefix @ lit ''Error loading plugin package '' @ apos
              @ packageName_of ruleConfig @ apos @ lit '': '' @ errorMessage w error)))
      \<and> (import_module w tr (packageName_of ruleConfig) = Normal exports
          \<and> (\<not> truthy (find_rulesCatalog (JObj exports))
              \<or> typeof (member (find_rulesCatalog (JObj exports)) (ruleName_of ruleConfig))
                  \<noteq> TFunction) \<longrightarrow>
         ignoreForAuthors w parsed when value =
           (tr @ [Import (packageName_of ruleConfig)],
            Normal (False,
              plugin_prefix @ lit ''Rule '' @ apos @ ruleName_of ruleConfig @ apos
              @ lit '' not found or not a function in package '' @ apos
              @ packageName_of ruleConfig @ apos @ lit ''.''))))
   \<and> (reaches_signoff w parsed when value before ruleConfig after tr
       \<and> well_formed_entry ruleConfig \<longrightarrow>
      (import_module w tr (packageName_of ruleConfig) = Throw error \<longrightarrow>
         ignoreForAuthors_signoff w parsed when value =
           (tr @ [Import (packageName_of ruleConfig)],
            Normal (False,
              lit ''Error loading plugin package '' @ apos
              @ packageName_of ruleConfig @ apos @ lit '': '' @ errorMessage w error)))
      \<and> (import_module w tr (packageName_of ruleConfig) = Normal exports
          \<and> (\<not> truthy (find_rulesCatalog_signoff (JObj exports))
              \<or> typeof (member (find_rulesCatalog_signoff (JObj exports))
                          (ruleName_of ruleConfig)) \<noteq> TFunction) \<longrightarrow>
         ignoreForAuthors_signoff w parsed when value =
           (tr @ [Import (packageName_of ruleConfig)],
            Normal (False,
              lit ''Rule '' @ apos @ ruleName_of ruleConfig @ apos
              @ lit '' not found or not a function in package '' @ apos
              @ packageName_of ruleConfig @ apos @ lit ''.''))))
   \<and> errorMessage w (JError (JStr text)) = text"
proof (intro conjI impI; (elim conjE)?)
  assume r: "reaches w parsed when value before ruleConfig after tr"
    and wf: "well_formed_entry ruleConfig"
    and "import_module w tr (packageName_of ruleConfig) = Throw error"
  then show "ignoreForAuthors w parsed when value =
           (tr @ [Import (packageName_of ruleConfig)],
            Normal (False,
              plugin_prefix @ lit ''Error loading plugin package '' @ apos
              @ packageName_of ruleConfig @ apos @ lit '': '' @ errorMessage w error))"
    by (simp add: reaches_step [OF r] enforce_one_load_error)
next
  assume r: "reaches w parsed when value before ruleConfig after tr"
    and wf: "well_formed_entry ruleConfig"
    and i: "import_module w tr (packageName_of ruleConfig) = Normal exports"
    and n: "\<not> truthy (find_rulesCatalog (JObj exports))
              \<or> typeof (member (find_rulesCatalog (JObj exports)) (ruleName_of ruleConfig))
                  \<noteq> TFunction"
  let ?f = "if truthy (find_rulesCatalog (JObj exports))
            then member (find_rulesCatalog (JObj exports)) (ruleName_of ruleConfig)
            else JUndefined"
  from n have "typeof ?f \<noteq> TFunction" by auto
  from enforce_one_not_found [OF wf resolve_rule_loaded [OF i] this]
  show "ignoreForAuthors w parsed when value =
           (tr @ [Import (packageName_of ruleConfig)],
            Normal (False,
              plugin_prefix @ lit ''Rule '' @ apos @ ruleName_of ruleConfig @ apos
              @ lit '' not found or not a function in package '' @ apos
              @ packageName_of ruleConfig @ apos @ lit ''.''))"
    by (simp add: reaches_step [OF r])
next
  assume r: "reaches_signoff w parsed when value before ruleConfig after tr"
    and wf: "well_formed_entry ruleConfig"
    and "import_module w tr (packageName_of ruleConfig) = Throw error"
  then show "ignoreForAuthors_signoff w parsed when value =
           (tr @ [Import (packageName_of ruleConfig)],
            Normal (False,
              lit ''Error loading plugin package '' @ apos
              @ packageName_of ruleConfig @ apos @ lit '': '' @ errorMessage w error))"
    by (simp add: reaches_signoff_step [OF r] enforce_one_signoff_load_error)
next
  assume r: "reaches_signoff w parsed when value before ruleConfig after tr"
    and wf: "well_formed_entry ruleConfig"
    and i: "import_module w tr (packageName_of ruleConfig) = Normal exports"
    and n: "\<not> truthy (find_rulesCatalog_signoff (JObj exports))
              \<or> typeof (member (find_rulesCatalog_signoff (JObj exports))
                          (ruleName_of ruleConfig)) \<noteq> TFunction"
  let ?f = "if truthy (find_rulesCatalog (JObj exports))
            then member (find_rulesCatalog (JObj exports)) (ruleName_of ruleConfig)
            else JUndefined"
  from n have "typeof ?f \<noteq> TFunction" by (auto simp: find_rulesCatalog_signoff_eq)
  from enforce_one_signoff_not_found
         [OF wf resolve_rule_loaded [OF i, folded resolve_rule_signoff_eq] this]
  show "ignoreForAuthors_signoff w parsed when value =
           (tr @ [Import (packageName_of ruleConfig)],
            Normal (False,
              lit ''Rule '' @ apos @ ruleName_of ruleConfig @ apos
              @ lit '' not found or not a function in package '' @ apos
              @ packageName_of ruleConfig @ apos @ lit ''.''))"
    by (simp add: reaches_signoff_step [OF r])
next
  show "errorMessage w (JError (JStr text)) = text" by (rule errorMessage_Error)
qed

text \<open>
  Instances: a package that cannot be loaded, after an entry that passes; a rule that the
  catalogue does not have; a catalogue entry that is a string; a package without a
  catalogue. Each is followed by an entry that would fail, and that is not reached.
\<close>

lemma resolution_failure_reported_instances:
  "ignoreForAuthors test_world (commit_of ''feat(app): new feature by human'') always
     (JObj [(lit ''rulesToEnforce'',
             JArr [rule_entry (lit ''@commitlint/rules'') (lit ''header-max-length'') (JNum 50),
                   rule_entry (lit ''truly-non-existent-package-for-import-failure'')
                     (lit ''any-rule'') JNull,
                   rule_entry (lit ''@commitlint/rules'') (lit ''type-enum'') JNull])])
     = ([Import (lit ''@commitlint/rules''),
         Invoke (Exported 1) (JObj (commit_of ''feat(app): new feature by human'')) always (JNum 50),
         Import (lit ''truly-non-existent-package-for-import-failure'')],
        Normal (False,
          plugin_prefix @ lit ''Error loading plugin package '' @ apos
          @ lit ''truly-non-existent-package-for-import-failure'' @ apos
          @ lit '': Cannot find package''))
   \<and> ignoreForAuthors test_world (commit_of ''feat(app): new feature by human'') always
       (JObj [(lit ''rulesToEnforce'',
               JArr [rule_entry (lit ''@commitlint/rules'')
                       (lit ''this-rule-is-not-in-our-mock-catalogue'') JNull,
                     rule_entry (lit ''@commitlint/rules'') (lit ''type-enum'') JNull])])
       = ([Import (lit ''@commitlint/rules'')],
          Normal (False,
            plugin_prefix @ lit ''Rule '' @ apos
            @ lit ''this-rule-is-not-in-our-mock-catalogue'' @ apos
            @ lit '' not found or not a function in package '' @ apos
            @ lit ''@commitlint/rules'' @ apos @ lit ''.''))
   \<and> ignoreForAuthors_signoff test_world (commit_of ''feat(app): new feature by human'') always
       (JObj [(lit ''rulesToEnforce'',
               JArr [rule_entry (lit ''@commitlint/rules'') (lit ''rule-to-malform'') JNull,
                     rule_entry (lit ''@commitlint/rules'') (lit ''type-enum'') JNull])])
       = ([Import (lit ''@commitlint/rules'')],
          Normal (False,
            lit ''Rule '' @ apos @ lit ''rule-to-malform'' @ apos
            @ lit '' not found or not a function in package '' @ apos
            @ lit ''@commitlint/rules'' @ apos @ lit ''.''))
   \<and> ignoreForAuthors_signoff test_world (commit_of ''feat(app): new feature by human'') always
       (JObj [(lit ''rulesToEnforce'',
               JArr [rule_entry (lit ''empty-package'') (lit ''type-enum'') JNull,
                     rule_entry (lit ''@commitlint/rules'') (lit ''type-enum'') JNull])])
       = ([Import (lit ''empty-package'')],
          Normal (False,
            lit ''Rule '' @ apos @ lit ''type-enum'' @ apos
            @ lit '' not found or not a function in package '' @ apos
            @ lit ''empty-package'' @ apos @ lit ''.''))
   \<and> ignoreForAuthors_signoff test_world (commit_of ''feat(app): new feature by human'') always
       (JObj [(lit ''rulesToEnforce'',
               JArr [rule_entry (lit ''no-such-package'') (lit ''type-enum'') JNull,
                     rule_entry (lit ''@commitlint/rules'') (lit ''type-enum'') JNull])])
       = ([Import (lit ''no-such-package'')],
          Normal (False,
            lit ''Error loading plugin package '' @ apos @ lit ''no-such-package'' @ apos
            @ lit '': Cannot find package''))"
proof -
  let ?c = "commit_of ''feat(app): new feature by human''"
  let ?h = "rule_entry (lit ''@commitlint/rules'') (lit ''header-max-length'') (JNum 50)"
  let ?e = "rule_entry (lit ''@commitlint/rules'') (lit ''type-enum'') JNull"
  let ?x = "rule_entry (lit ''truly-non-existent-package-for-import-failure'')
              (lit ''any-rule'') JNull"
  let ?u = "rule_entry (lit ''@commitlint/rules'')
              (lit ''this-rule-is-not-in-our-mock-catalogue'') JNull"
  let ?m = "rule_entry (lit ''@commitlint/rules'') (lit ''rule-to-malform'') JNull"
  let ?n = "rule_entry (lit ''empty-package'') (lit ''type-enum'') JNull"
  let ?z = "rule_entry (lit ''no-such-package'') (lit ''type-enum'') JNull"
  let ?tr = "[Import (lit ''@commitlint/rules''), Invoke (Exported 1) (JObj ?c) always (JNum 50)]"
  let ?mod = "[(lit ''default'', JObj [(lit ''rules'', JObj test_catalogue)])]"
  let ?err = "JError (JStr (lit ''Cannot find package''))"
  have wf: "well_formed_entry ?x" "well_formed_entry ?u" "well_formed_entry ?m"
    "well_formed_entry ?n" "well_formed_entry ?z"
    by (simp_all add: well_formed_entry_def rule_entry_def)
  have r1: "reaches test_world ?c always (JObj [(lit ''rulesToEnforce'', JArr [?h, ?x, ?e])])
              [?h] ?x [?e] ?tr"
    by (simp add: reaches_def bypass_check_def test_eval)
  have i1: "import_module test_world ?tr (packageName_of ?x) = Throw ?err"
    by (simp add: test_eval)
  have r2: "reaches test_world ?c always (JObj [(lit ''rulesToEnforce'', JArr [?u, ?e])])
              [] ?u [?e] []"
    by (simp add: reaches_def bypass_check_def test_eval)
  have i2: "import_module test_world [] (packageName_of ?u) = Normal ?mod
            \<and> (\<not> truthy (find_rulesCatalog (JObj ?mod))
                \<or> typeof (member (find_rulesCatalog (JObj ?mod)) (ruleName_of ?u)) \<noteq> TFunction)"
    by (simp add: test_eval)
  have r3: "reaches_signoff test_world ?c always
              (JObj [(lit ''rulesToEnforce'', JArr [?m, ?e])]) [] ?m [?e] []"
    by (simp add: reaches_signoff_def bypass_check_signoff_def test_eval)
  have i3: "import_module test_world [] (packageName_of ?m) = Normal ?mod
            \<and> (\<not> truthy (find_rulesCatalog_signoff (JObj ?mod))
                \<or> typeof (member (find_rulesCatalog_signoff (JObj ?mod)) (ruleName_of ?m))
                    \<noteq> TFunction)"
    by (simp add: test_eval)
  have r4: "reaches_signoff test_world ?c always
              (JObj [(lit ''rulesToEnforce'', JArr [?n, ?e])]) [] ?n [?e] []"
    by (simp add: reaches_signoff_def bypass_check_signoff_def test_eval)
  have i4: "import_module test_world [] (packageName_of ?n) = Normal []
            \<and> (\<not> truthy (find_rulesCatalog_signoff (JObj []))
                \<or> typeof (member (find_rulesCatalog_signoff (JObj [])) (ruleName_of ?n))
                    \<noteq> TFunction)"
    by (simp add: test_eval)
  have r5: "reaches_signoff test_world ?c always
              (JObj [(lit ''rulesToEnforce'', JArr [?z, ?e])]) [] ?z [?e] []"
    by (simp add: reaches_signoff_def bypass_check_signoff_def test_eval)
  have i5: "import_module test_world [] (packageName_of ?z) = Throw ?err"
    by (simp add: test_eval)
  have em: "errorMessage test_world ?err = lit ''Cannot find package''"
    by (simp add: errorMessage_def)
  from resolution_failure_reported
         [of test_world ?c always "JObj [(lit ''rulesToEnforce'', JArr [?h, ?x, ?e])]"
             "[?h]" ?x "[?e]" ?tr ?err] r1 wf(1) i1
  have g1: "ignoreForAuthors test_world ?c always
              (JObj [(lit ''rulesToEnforce'', JArr [?h, ?x, ?e])])
            = (?tr @ [Import (packageName_of ?x)],
               Normal (False,
                 plugin_prefix @ lit ''Error loading plugin package '' @ apos
                 @ packageName_of ?x @ apos @ lit '': '' @ errorMessage test_world ?err))"
    by blast
  from resolution_failure_reported
         [of test_world ?c always "JObj [(lit ''rulesToEnforce'', JArr [?u, ?e])]"
             "[]" ?u "[?e]" "[]" _ ?mod] r2 wf(2) i2
  have g2: "ignoreForAuthors test_world ?c always
              (JObj [(lit ''rulesToEnforce'', JArr [?u, ?e])])
            = ([] @ [Import (packageName_of ?u)],
               Normal (False,
                 plugin_prefix @ lit ''Rule '' @ apos @ ruleName_of ?u @ apos
                 @ lit '' not found or not a function in package '' @ apos
                 @ packageName_of ?u @ apos @ lit ''.''))"
    by blast
  from resolution_failure_reported
         [of test_world ?c always "JObj [(lit ''rulesToEnforce'', JArr [?m, ?e])]"
             "[]" ?m "[?e]" "[]" _ ?mod] r3 wf(3) i3
  have g3: "ignoreForAuthors_signoff test_world ?c always
              (JObj [(lit ''rulesToEnforce'', JArr [?m, ?e])])
            = ([] @ [Import (packageName_of ?m)],
               Normal (False,
                 lit ''Rule '' @ apos @ ruleName_of ?m @ apos
                 @ lit '' not found or not a function in package '' @ apos
                 @ packageName_of ?m @ apos @ lit ''.''))"
    by blast
  from resolution_failure_reported
         [of test_world ?c always "JObj [(lit ''rulesToEnforce'', JArr [?n, ?e])]"
             "[]" ?n "[?e]" "[]" _ "[]"] r4 wf(4) i4
  have g4: "ignoreForAuthors_signoff test_world ?c always
              (JObj [(lit ''rulesToEnforce'', JArr [?n, ?e])])
            = ([] @ [Import (packageName_of ?n)],
               Normal (False,
                 lit ''Rule '' @ apos @ ruleName_of ?n @ apos
                 @ lit '' not found or not a function in package '' @ apos
                 @ packageName_of ?n @ apos @ lit ''.''))"
    by blast
  from resolution_failure_reported
         [of test_world ?c always "JObj [(lit ''rulesToEnforce'', JArr [?z, ?e])]"
             "[]" ?z "[?e]" "[]" ?err] r5 wf(5) i5
  have g5: "ignoreForAuthors_signoff test_world ?c always
              (JObj [(lit ''rulesToEnforce'', JArr [?z, ?e])])
            = ([] @ [Import (packageName_of ?z)],
               Normal (False,
                 lit ''Error loading plugin package '' @ apos
                 @ packageName_of ?z @ apos @ lit '': '' @ errorMessage test_world ?err))"
    by blast
  from g1 g2 g3 g4 g5 em show ?thesis
    by (simp add: rule_entry_def lit_append [symmetric])
qed

text \<open>
  A catalogue that is an ordinary object and has no entry under \<open>ruleName\<close>: the rule
  fails with \<open>Rule '<ruleName>' not found ...\<close> as long as \<open>ruleName\<close> is not one of
  the names under which an object inherits a property.
\<close>

lemma missing_rule_not_found:
  assumes wf: "well_formed_entry ruleConfig"
    and i: "import_module w tr (packageName_of ruleConfig) = Normal exports"
    and c: "find_rulesCatalog (JObj exports) = JObj rules"
    and own: "map_of rules (ruleName_of ruleConfig) = None"
    and other: "ruleName_of ruleConfig \<notin> set (map lit inherited_names)"
  shows "reaches w parsed when value before ruleConfig after tr \<Longrightarrow>
         ignoreForAuthors w parsed when value =
           (tr @ [Import (packageName_of ruleConfig)],
            Normal (False,
              plugin_prefix @ lit ''Rule '' @ apos @ ruleName_of ruleConfig @ apos
              @ lit '' not found or not a function in package '' @ apos
              @ packageName_of ruleConfig @ apos @ lit ''.''))"
    and "reaches_signoff w parsed when value before ruleConfig after tr \<Longrightarrow>
         ignoreForAuthors_signoff w parsed when value =
           (tr @ [Import (packageName_of ruleConfig)],
            Normal (False,
              lit ''Rule '' @ apos @ ruleName_of ruleConfig @ apos
              @ lit '' not found or not a function in package '' @ apos
              @ packageName_of ruleConfig @ apos @ lit ''.''))"
proof -
  from own other have m: "member (JObj rules) (ruleName_of ruleConfig) = JUndefined"
    by (simp add: inherited_other_name)
  with c have n: "typeof (member (find_rulesCatalog (JObj exports)) (ruleName_of ruleConfig))
                    \<noteq> TFunction"
    by simp
  with c have n': "typeof (member (find_rulesCatalog_signoff (JObj exports))
                      (ruleName_of ruleConfig)) \<noteq> TFunction"
    by (simp add: find_rulesCatalog_signoff_eq)
  show "reaches w parsed when value before ruleConfig after tr \<Longrightarrow>
         ignoreForAuthors w parsed when value =
           (tr @ [Import (packageName_of ruleConfig)],
            Normal (False,
              plugin_prefix @ lit ''Rule '' @ apos @ ruleName_of ruleConfig @ apos
              @ lit '' not found or not a function in package '' @ apos
              @ packageName_of ruleConfig @ apos @ lit ''.''))"
    using resolution_failure_reported [of w parsed "when" "value" before ruleConfig after tr
            _ exports] wf i n
    by blast
  show "reaches_signoff w parsed when value before ruleConfig after tr \<Longrightarrow>
         ignoreForAuthors_signoff w parsed when value =
           (tr @ [Import (packageName_of ruleConfig)],
            Normal (False,
              lit ''Rule '' @ apos @ ruleName_of ruleConfig @ apos
              @ lit '' not found or not a function in package '' @ apos
              @ packageName_of ruleConfig @ apos @ lit ''.''))"
    using resolution_failure_reported [of w parsed "when" "value" before ruleConfig after tr
            _ exports] wf i n'
    by blast
qed

text \<open>
  The name \<open>toString\<close> in a catalogue that is an ordinary object without an entry of that
  name: \<open>rulesCatalog[ruleName]\<close> is the inherited \<open>Object.prototype.toString\<close>, a
  function. The code calls it; without a receiver it answers \<open>'[object Undefined]'\<close>; the
  destructuring takes the first two characters of that string, and the first, \<open>'['\<close>, is
  truthy. The entry counts as passed and the loop goes on.
\<close>

lemma destructure2_object_Undefined:
  "destructure2 (JStr (lit ''[object Undefined]'')) = Inr (JStr (lit ''[''), JStr (lit ''o''))"
  by (simp add: lit_def)

lemma inherited_toString_invoked:
  assumes wf: "well_formed_entry ruleConfig"
    and n: "ruleName_of ruleConfig = lit ''toString''"
    and i: "import_module w tr (packageName_of ruleConfig) = Normal exports"
    and c: "find_rulesCatalog (JObj exports) = JObj rules"
    and own: "map_of rules (lit ''toString'') = None"
  shows "enforce_one w parsed tr ruleConfig =
           (tr @ [Import (packageName_of ruleConfig),
                  Invoke (Method Object_prototype (lit ''toString'')) (JObj parsed) always
                    (ruleValue_of ruleConfig)],
            None)"
    and "enforce_one_signoff w parsed tr ruleConfig =
           (tr @ [Import (packageName_of ruleConfig),
                  Invoke (Method Object_prototype (lit ''toString'')) (JObj parsed) always
                    (ruleValue_of ruleConfig)],
            None)"
proof -
  from own have "member (JObj rules) (lit ''toString'')
                   = JFun (Method Object_prototype (lit ''toString''))"
    by (simp add: prototype_eval)
  with resolve_rule_loaded [OF i, of "ruleName_of ruleConfig"] c n
  have f: "resolve_rule w tr (packageName_of ruleConfig) (ruleName_of ruleConfig)
             = Normal (JFun (Method Object_prototype (lit ''toString'')))"
    by simp
  from enforce_one_invoked [OF wf f, of parsed]
  show "enforce_one w parsed tr ruleConfig =
           (tr @ [Import (packageName_of ruleConfig),
                  Invoke (Method Object_prototype (lit ''toString'')) (JObj parsed) always
                    (ruleValue_of ruleConfig)],
            None)"
    by (simp add: destructure2_object_Undefined del: destructure2.simps(2))
  from enforce_one_signoff_invoked [OF wf f [folded resolve_rule_signoff_eq], of parsed]
  show "enforce_one_signoff w parsed tr ruleConfig =
           (tr @ [Import (packageName_of ruleConfig),
                  Invoke (Method Object_prototype (lit ''toString'')) (JObj parsed) always
                    (ruleValue_of ruleConfig)],
            None)"
    by (simp add: destructure2_object_Undefined del: destructure2.simps(2))
qed

text \<open>
  Claim C6 says that when the catalogue has no entry under \<open>ruleName\<close> the evaluation
  fails at once with a message that names the rule and the package, and the remaining
  entries are skipped. The documentation of \<open>ruleName\<close> (lines 33 to 37, and 278 to
  282) calls it the name of the rule as exported by the \<open>rules\<close> object of the plugin.
  The catalogue of \<open>@commitlint/rules\<close> in the world of the test
  suite has no entry \<open>toString\<close>. With the single entry \<open>toString\<close> in
  \<open>rulesToEnforce\<close> the code imports the package, calls \<open>Object.prototype.toString\<close>
  with the arguments of a rule, and passes. With the entry \<open>type-enum\<close> after it the
  code goes on to that entry, which is not skipped, and fails with what \<open>type-enum\<close>
  reports. This is the code at these inputs, in both versions.
\<close>

theorem inherited_function_taken_for_rule:
  "map_of test_catalogue (lit ''toString'') = None
   \<and> ignoreForAuthors test_world (commit_of ''feat(app): new feature by human'') always
       (JObj [(lit ''rulesToEnforce'',
               JArr [rule_entry (lit ''@commitlint/rules'') (lit ''toString'') JNull])])
       = ([Import (lit ''@commitlint/rules''),
           Invoke (Method Object_prototype (lit ''toString''))
             (JObj (commit_of ''feat(app): new feature by human'')) always JNull],
          Normal (True,
            plugin_prefix @ lit ''All configured '' @ dquote @ lit ''rulesToEnforce'' @ dquote
            @ lit '' passed for this author.''))
   \<and> ignoreForAuthors_signoff test_world (commit_of ''feat(app): new feature by human'')
       always
       (JObj [(lit ''rulesToEnforce'',
               JArr [rule_entry (lit ''@commitlint/rules'') (lit ''toString'') JNull])])
       = ([Import (lit ''@commitlint/rules''),
           Invoke (Method Object_prototype (lit ''toString''))
             (JObj (commit_of ''feat(app): new feature by human'')) always JNull],
          Normal (True,
            lit ''All configured '' @ dquote @ lit ''rulesToEnforce'' @ dquote
            @ lit '' passed for this author.''))
   \<and> ignoreForAuthors_signoff test_world (commit_of ''feat(app): new feature by human'')
       always
       (JObj [(lit ''rulesToEnforce'',
               JArr [rule_entry (lit ''@commitlint/rules'') (lit ''toString'') JNull,
                     rule_entry (lit ''@commitlint/rules'') (lit ''type-enum'') JNull])])
       = ([Import (lit ''@commitlint/rules''),
           Invoke (Method Object_prototype (lit ''toString''))
             (JObj (commit_of ''feat(app): new feature by human'')) always JNull,
           Import (lit ''@commitlint/rules''),
           Invoke (Exported 0) (JObj (commit_of ''feat(app): new feature by human'')) always
             JNull],
          Normal (False, lit ''[via @commitlint/rules/type-enum] type invalid''))"
proof -
  let ?c = "commit_of ''feat(app): new feature by human''"
  let ?s = "rule_entry (lit ''@commitlint/rules'') (lit ''toString'') JNull"
  let ?e = "rule_entry (lit ''@commitlint/rules'') (lit ''type-enum'') JNull"
  have own: "map_of test_catalogue (lit ''toString'') = None"
    by (simp add: test_catalogue_def)
  have e1: "ignoreForAuthors test_world ?c always (JObj [(lit ''rulesToEnforce'', JArr [?s])])
       = ([Import (lit ''@commitlint/rules''),
           Invoke (Method Object_prototype (lit ''toString'')) (JObj ?c) always JNull],
          Normal (True,
            plugin_prefix @ lit ''All configured '' @ dquote @ lit ''rulesToEnforce'' @ dquote
            @ lit '' passed for this author.''))"
    by (simp add: ignoreForAuthors_def bypass_check_def test_eval
          destructure2_object_Undefined del: destructure2.simps(2))
  have e2: "ignoreForAuthors_signoff test_world ?c always
              (JObj [(lit ''rulesToEnforce'', JArr [?s])])
       = ([Import (lit ''@commitlint/rules''),
           Invoke (Method Object_prototype (lit ''toString'')) (JObj ?c) always JNull],
          Normal (True,
            lit ''All configured '' @ dquote @ lit ''rulesToEnforce'' @ dquote
            @ lit '' passed for this author.''))"
    by (simp add: ignoreForAuthors_signoff_def bypass_check_signoff_def test_eval
          destructure2_object_Undefined del: destructure2.simps(2))
  have e3: "ignoreForAuthors_signoff test_world ?c always
              (JObj [(lit ''rulesToEnforce'', JArr [?s, ?e])])
       = ([Import (lit ''@commitlint/rules''),
           Invoke (Method Object_prototype (lit ''toString'')) (JObj ?c) always JNull,
           Import (lit ''@commitlint/rules''),
           Invoke (Exported 0) (JObj ?c) always JNull],
          Normal (False, lit ''[via @commitlint/rules/type-enum] type invalid''))"
    by (simp add: ignoreForAuthors_signoff_def bypass_check_signoff_def test_eval
          destructure2_object_Undefined lit_append [symmetric]
          del: destructure2.simps(2))
  from own e1 e2 e3 show ?thesis by (intro conjI)
qed

text \<open>
  In particular the rule does not fail there with the message that names the rule and the
  package.
\<close>

theorem inherited_function_taken_for_rule_witness:
  "ignoreForAuthors test_world (commit_of ''feat(app): new feature by human'') always
     (JObj [(lit ''rulesToEnforce'',
             JArr [rule_entry (lit ''@commitlint/rules'') (lit ''toString'') JNull])])
     \<noteq> ([Import (lit ''@commitlint/rules'')],
         Normal (False,
           plugin_prefix @ lit ''Rule '' @ apos @ lit ''toString'' @ apos
           @ lit '' not found or not a function in package '' @ apos
           @ lit ''@commitlint/rules'' @ apos @ lit ''.''))
   \<and> ignoreForAuthors_signoff test_world (commit_of ''feat(app): new feature by human'')
       always
       (JObj [(lit ''rulesToEnforce'',
               JArr [rule_entry (lit ''@commitlint/rules'') (lit ''toString'') JNull])])
       \<noteq> ([Import (lit ''@commitlint/rules'')],
           Normal (False,
             lit ''Rule '' @ apos @ lit ''toString'' @ apos
             @ lit '' not found or not a function in package '' @ apos
             @ lit ''@commitlint/rules'' @ apos @ lit ''.''))"
  using inherited_function_taken_for_rule by simp

section \<open>A delegated rule that reports a failure\<close>

lemma ToString_string: "ToString w (JStr text) = text"
  by simp

text \<open>
  Claim C4, as amended. The loop reaches, with the trace \<open>tr\<close>, an entry that is well
  formed and resolves to a function; the call of the function completes with a value whose
  first component is falsy. Then the rule fails at this entry. The message names the
  package and the rule and ends with the text of the second component, which is that
  component itself when it is a string: it is
  \<open>[via <packageName>/<ruleName>] <message>\<close> in the later version and
  \<open>[@mridang/commitlint-plugin-conditionals via <packageName>/<ruleName>] <message>\<close>
  in the first version. The trace ends with the import and the invocation of this entry:
  the entries after it are neither resolved nor invoked. All entries before this one have
  passed, so this is the first entry that fails.
\<close>

theorem first_failure_short_circuits:
  "(reaches w parsed when value before ruleConfig after tr \<and> well_formed_entry ruleConfig
    \<and> resolve_rule w tr (packageName_of ruleConfig) (ruleName_of ruleConfig) = Normal (JFun f)
    \<and> await_resolve
          (call_function w (tr @ [Import (packageName_of ruleConfig)]) f (JObj parsed) always
             (ruleValue_of ruleConfig)) = Normal outcome
    \<and> destructure2 outcome = Inr (isValid, message) \<and> \<not> truthy isValid
    \<longrightarrow>
      ignoreForAuthors w parsed when value =
        (tr @ [Import (packageName_of ruleConfig),
               Invoke f (JObj parsed) always (ruleValue_of ruleConfig)],
         Normal (False,
           lit ''[@mridang/commitlint-plugin-conditionals via '' @ packageName_of ruleConfig
           @ lit ''/'' @ ruleName_of ruleConfig @ lit ''] '' @ ToString w message)))
   \<and> (reaches_signoff w parsed when value before ruleConfig after tr
       \<and> well_formed_entry ruleConfig
       \<and> resolve_rule_signoff w tr (packageName_of ruleConfig) (ruleName_of ruleConfig)
           = Normal (JFun f)
       \<and> await_resolve
             (call_function w (tr @ [Import (packageName_of ruleConfig)]) f (JObj parsed)
                always (ruleValue_of ruleConfig)) = Normal outcome
       \<and> destructure2 outcome = Inr (isValid, message) \<and> \<not> truthy isValid
       \<longrightarrow>
         ignoreForAuthors_signoff w parsed when value =
           (tr @ [Import (packageName_of ruleConfig),
                  Invoke f (JObj parsed) always (ruleValue_of ruleConfig)],
            Normal (False,
              lit ''[via '' @ packageName_of ruleConfig @ lit ''/'' @ ruleName_of ruleConfig
              @ lit ''] '' @ ToString w message)))
   \<and> ToString w (JStr text) = text"
proof (intro conjI impI; (elim conjE)?)
  assume r: "reaches w parsed when value before ruleConfig after tr"
    and wf: "well_formed_entry ruleConfig"
    and f: "resolve_rule w tr (packageName_of ruleConfig) (ruleName_of ruleConfig)
              = Normal (JFun f)"
    and c: "await_resolve
          (call_function w (tr @ [Import (packageName_of ruleConfig)]) f (JObj parsed) always
             (ruleValue_of ruleConfig)) = Normal outcome"
    and d: "destructure2 outcome = Inr (isValid, message)" and n: "\<not> truthy isValid"
  show "ignoreForAuthors w parsed when value =
        (tr @ [Import (packageName_of ruleConfig),
               Invoke f (JObj parsed) always (ruleValue_of ruleConfig)],
         Normal (False,
           lit ''[@mridang/commitlint-plugin-conditionals via '' @ packageName_of ruleConfig
           @ lit ''/'' @ ruleName_of ruleConfig @ lit ''] '' @ ToString w message))"
    using c d n by (simp add: reaches_step [OF r] enforce_one_invoked [OF wf f])
next
  assume r: "reaches_signoff w parsed when value before ruleConfig after tr"
    and wf: "well_formed_entry ruleConfig"
    and f: "resolve_rule_signoff w tr (packageName_of ruleConfig) (ruleName_of ruleConfig)
              = Normal (JFun f)"
    and c: "await_resolve
          (call_function w (tr @ [Import (packageName_of ruleConfig)]) f (JObj parsed) always
             (ruleValue_of ruleConfig)) = Normal outcome"
    and d: "destructure2 outcome = Inr (isValid, message)" and n: "\<not> truthy isValid"
  show "ignoreForAuthors_signoff w parsed when value =
           (tr @ [Import (packageName_of ruleConfig),
                  Invoke f (JObj parsed) always (ruleValue_of ruleConfig)],
            Normal (False,
              lit ''[via '' @ packageName_of ruleConfig @ lit ''/'' @ ruleName_of ruleConfig
              @ lit ''] '' @ ToString w message))"
    using c d n
    by (simp add: reaches_signoff_step [OF r] enforce_one_signoff_invoked [OF wf f])
next
  show "ToString w (JStr text) = text" by simp
qed

text \<open>
  Instances, from the test suite: \<open>type-enum\<close> reports \<open>[false, 'type invalid']\<close>; the
  entry after it is not reached (in the first instance it would throw).
\<close>

theorem first_failure_short_circuits_witness:
  "ignoreForAuthors test_world (commit_of ''feat(app): new feature by human'') always
     (JObj [(lit ''rulesToEnforce'',
             JArr [rule_entry (lit ''@commitlint/rules'') (lit ''header-max-length'') (JNum 50),
                   rule_entry (lit ''@commitlint/rules'') (lit ''type-enum'') JNull,
                   rule_entry (lit ''@commitlint/rules'') (lit ''throws'') JNull])])
     = ([Import (lit ''@commitlint/rules''),
         Invoke (Exported 1) (JObj (commit_of ''feat(app): new feature by human'')) always (JNum 50),
         Import (lit ''@commitlint/rules''),
         Invoke (Exported 0) (JObj (commit_of ''feat(app): new feature by human'')) always JNull],
        Normal (False,
          lit ''[@mridang/commitlint-plugin-conditionals via @commitlint/rules/type-enum] type invalid''))
   \<and> ignoreForAuthors_signoff test_world (commit_of ''feat(app): new feature by human'') always
       (JObj [(lit ''rulesToEnforce'',
               JArr [rule_entry (lit ''@commitlint/rules'') (lit ''type-enum'') JNull,
                     rule_entry (lit ''@commitlint/rules'') (lit ''header-max-length'')
                       (JNum 50)])])
       = ([Import (lit ''@commitlint/rules''),
           Invoke (Exported 0) (JObj (commit_of ''feat(app): new feature by human'')) always JNull],
          Normal (False, lit ''[via @commitlint/rules/type-enum] type invalid''))"
proof -
  let ?c = "commit_of ''feat(app): new feature by human''"
  let ?h = "rule_entry (lit ''@commitlint/rules'') (lit ''header-max-length'') (JNum 50)"
  let ?e = "rule_entry (lit ''@commitlint/rules'') (lit ''type-enum'') JNull"
  let ?t = "rule_entry (lit ''@commitlint/rules'') (lit ''throws'') JNull"
  let ?tr = "[Import (lit ''@commitlint/rules''), Invoke (Exported 1) (JObj ?c) always (JNum 50)]"
  let ?out = "JArr [JBool False, JStr (lit ''type invalid'')]"
  have wf: "well_formed_entry ?e" by (simp add: well_formed_entry_def rule_entry_def)
  have r1: "reaches test_world ?c always (JObj [(lit ''rulesToEnforce'', JArr [?h, ?e, ?t])])
              [?h] ?e [?t] ?tr"
    by (simp add: reaches_def bypass_check_def test_eval)
  have f1: "resolve_rule test_world ?tr (packageName_of ?e) (ruleName_of ?e) = Normal (JFun (Exported 0))"
    by (simp add: test_eval)
  have c1: "await_resolve
              (call_function test_world (?tr @ [Import (packageName_of ?e)]) (Exported 0) (JObj ?c) always
                 (ruleValue_of ?e)) = Normal ?out"
    by (simp add: test_eval)
  have d: "destructure2 ?out = Inr (JBool False, JStr (lit ''type invalid''))"
    and n: "\<not> truthy (JBool False)"
    by simp_all
  have r2: "reaches_signoff test_world ?c always
              (JObj [(lit ''rulesToEnforce'', JArr [?e, ?h])]) [] ?e [?h] []"
    by (simp add: reaches_signoff_def bypass_check_signoff_def test_eval)
  have f2: "resolve_rule_signoff test_world [] (packageName_of ?e) (ruleName_of ?e)
              = Normal (JFun (Exported 0))"
    by (simp add: test_eval)
  have c2: "await_resolve
              (call_function test_world ([] @ [Import (packageName_of ?e)]) (Exported 0) (JObj ?c) always
                 (ruleValue_of ?e)) = Normal ?out"
    by (simp add: test_eval)
  from first_failure_short_circuits
         [of test_world ?c always "JObj [(lit ''rulesToEnforce'', JArr [?h, ?e, ?t])]"
             "[?h]" ?e "[?t]" ?tr "Exported 0" ?out "JBool False" "JStr (lit ''type invalid'')"]
       r1 wf f1 c1 d n
  have g1: "ignoreForAuthors test_world ?c always
              (JObj [(lit ''rulesToEnforce'', JArr [?h, ?e, ?t])])
            = (?tr @ [Import (packageName_of ?e), Invoke (Exported 0) (JObj ?c) always (ruleValue_of ?e)],
               Normal (False,
                 lit ''[@mridang/commitlint-plugin-conditionals via '' @ packageName_of ?e
                 @ lit ''/'' @ ruleName_of ?e @ lit ''] ''
                 @ ToString test_world (JStr (lit ''type invalid''))))"
    by blast
  from first_failure_short_circuits
         [of test_world ?c always "JObj [(lit ''rulesToEnforce'', JArr [?e, ?h])]"
             "[]" ?e "[?h]" "[]" "Exported 0" ?out "JBool False" "JStr (lit ''type invalid'')"]
       r2 wf f2 c2 d n
  have g2: "ignoreForAuthors_signoff test_world ?c always
              (JObj [(lit ''rulesToEnforce'', JArr [?e, ?h])])
            = ([] @ [Import (packageName_of ?e), Invoke (Exported 0) (JObj ?c) always (ruleValue_of ?e)],
               Normal (False,
                 lit ''[via '' @ packageName_of ?e @ lit ''/'' @ ruleName_of ?e @ lit ''] ''
                 @ ToString test_world (JStr (lit ''type invalid''))))"
    by blast
  from g1 g2 show ?thesis
    by (simp add: rule_entry_def lit_append [symmetric])
qed

text \<open>
  Claim C4 as stated gives the message \<open>[via <sourceName>/<ruleName>] <message>\<close> for both
  versions. The first version returns another text, which its test expects.
\<close>

theorem via_message_counterexample:
  "ignoreForAuthors test_world (commit_of ''feat(app): new feature by human'') always
     (JObj [(lit ''rulesToEnforce'',
             JArr [rule_entry (lit ''@commitlint/rules'') (lit ''type-enum'') JNull,
                   rule_entry (lit ''@commitlint/rules'') (lit ''header-max-length'')
                     (JNum 50)])])
     = ([Import (lit ''@commitlint/rules''),
         Invoke (Exported 0) (JObj (commit_of ''feat(app): new feature by human'')) always JNull],
        Normal (False,
          lit ''[@mridang/commitlint-plugin-conditionals via @commitlint/rules/type-enum] type invalid''))
   \<and> lit ''[@mridang/commitlint-plugin-conditionals via @commitlint/rules/type-enum] type invalid''
       \<noteq> lit ''[via @commitlint/rules/type-enum] type invalid''"
  by (simp add: ignoreForAuthors_def bypass_check_def test_eval lit_append [symmetric])

section \<open>Exceptions\<close>










section \<open>How a delegated rule is called\<close>

text \<open>
  An iteration adds to the trace at most the import of the package and one invocation,
  and the invocation has the commit, \<open>'always'\<close> and the \<open>value\<close> of the entry as its
  arguments.
\<close>

lemma enforce_one_events:
  assumes "enforce_one w parsed tr ruleConfig = (tr', r)"
  shows "tr' = tr
         \<or> tr' = tr @ [Import (packageName_of ruleConfig)]
         \<or> (\<exists>f. tr' = tr @ [Import (packageName_of ruleConfig),
                             Invoke f (JObj parsed) always (ruleValue_of ruleConfig)])"
proof (cases "well_formed_entry ruleConfig")
  case False
  from enforce_one_malformed [OF False, of w parsed tr] assms show ?thesis by simp
next
  case wf: True
  let ?p = "packageName_of ruleConfig"
  let ?n = "ruleName_of ruleConfig"
  show ?thesis
  proof (cases "resolve_rule w tr ?p ?n")
    case (Normal ruleFunction)
    show ?thesis
    proof (cases "typeof ruleFunction = TFunction")
      case True
      then obtain f where "ruleFunction = JFun f" by (cases ruleFunction) auto
      with Normal have "resolve_rule w tr ?p ?n = Normal (JFun f)" by simp
      from enforce_one_invoked [OF wf this, of parsed] assms show ?thesis by auto
    next
      case False
      from enforce_one_not_found [OF wf Normal False, of parsed] assms
      show ?thesis by simp
    qed
  next
    case (Throw error)
    then have "import_module w tr ?p = Throw error"
      by (auto simp: resolve_rule_def Let_def split: completion.splits)
    from enforce_one_load_error [OF wf this, of parsed] assms
    show ?thesis by simp
  next
    case Hang
    with wf assms show ?thesis
      by (auto simp: enforce_one_def well_formed_entry_def Let_def)
  qed
qed

lemma enforce_one_signoff_events:
  assumes "enforce_one_signoff w parsed tr ruleConfig = (tr', r)"
  shows "tr' = tr
         \<or> tr' = tr @ [Import (packageName_of ruleConfig)]
         \<or> (\<exists>f. tr' = tr @ [Import (packageName_of ruleConfig),
                             Invoke f (JObj parsed) always (ruleValue_of ruleConfig)])"
proof (cases "well_formed_entry ruleConfig")
  case False
  from enforce_one_signoff_malformed [OF False, of w parsed tr] assms show ?thesis by simp
next
  case wf: True
  let ?p = "packageName_of ruleConfig"
  let ?n = "ruleName_of ruleConfig"
  show ?thesis
  proof (cases "resolve_rule_signoff w tr ?p ?n")
    case (Normal ruleFunction)
    show ?thesis
    proof (cases "typeof ruleFunction = TFunction")
      case True
      then obtain f where "ruleFunction = JFun f" by (cases ruleFunction) auto
      with Normal have "resolve_rule_signoff w tr ?p ?n = Normal (JFun f)" by simp
      from enforce_one_signoff_invoked [OF wf this, of parsed] assms show ?thesis by auto
    next
      case False
      from enforce_one_signoff_not_found [OF wf Normal False, of parsed] assms
      show ?thesis by simp
    qed
  next
    case (Throw error)
    then have "import_module w tr ?p = Throw error"
      by (auto simp: resolve_rule_signoff_def Let_def split: completion.splits)
    from enforce_one_signoff_load_error [OF wf this, of parsed] assms
    show ?thesis by simp
  next
    case Hang
    with wf assms show ?thesis
      by (auto simp: enforce_one_signoff_def well_formed_entry_def Let_def)
  qed
qed

text \<open>
  The loop only adds to the trace, and every invocation it adds is the call of the rule of
  one of the entries with the commit, \<open>'always'\<close> and the \<open>value\<close> of that entry.
\<close>

lemma proper_call_mono:
  "proper_call parsed rest ev \<Longrightarrow> proper_call parsed (ruleConfig # rest) ev"
  by (auto simp: proper_call_def split: event.splits)

lemma enforce_events:
  "\<exists>new. fst (enforce w parsed tr entries) = tr @ new
          \<and> list_all (proper_call parsed entries) new"
proof (induction entries arbitrary: tr)
  case Nil
  then show ?case by simp
next
  case (Cons ruleConfig rest)
  obtain tr1 r where one: "enforce_one w parsed tr ruleConfig = (tr1, r)"
    by (cases "enforce_one w parsed tr ruleConfig")
  from enforce_one_events [OF one]
  obtain new1 where n1: "tr1 = tr @ new1"
    and p1: "list_all (proper_call parsed (ruleConfig # rest)) new1"
    by (auto simp: proper_call_def)
  show ?case
  proof (cases r)
    case None
    from Cons.IH [of tr1] obtain new2
      where n2: "fst (enforce w parsed tr1 rest) = tr1 @ new2"
        and p2: "list_all (proper_call parsed rest) new2"
      by blast
    from p2 have "list_all (proper_call parsed (ruleConfig # rest)) new2"
      by (auto simp: list_all_iff intro: proper_call_mono)
    with one None n1 n2 p1 show ?thesis by auto
  next
    case (Some c)
    with one n1 p1 show ?thesis by auto
  qed
qed

lemma enforce_signoff_events:
  "\<exists>new. fst (enforce_signoff w parsed tr entries) = tr @ new
          \<and> list_all (proper_call parsed entries) new"
proof (induction entries arbitrary: tr)
  case Nil
  then show ?case by simp
next
  case (Cons ruleConfig rest)
  obtain tr1 r where one: "enforce_one_signoff w parsed tr ruleConfig = (tr1, r)"
    by (cases "enforce_one_signoff w parsed tr ruleConfig")
  from enforce_one_signoff_events [OF one]
  obtain new1 where n1: "tr1 = tr @ new1"
    and p1: "list_all (proper_call parsed (ruleConfig # rest)) new1"
    by (auto simp: proper_call_def)
  show ?case
  proof (cases r)
    case None
    from Cons.IH [of tr1] obtain new2
      where n2: "fst (enforce_signoff w parsed tr1 rest) = tr1 @ new2"
        and p2: "list_all (proper_call parsed rest) new2"
      by blast
    from p2 have "list_all (proper_call parsed (ruleConfig # rest)) new2"
      by (auto simp: list_all_iff intro: proper_call_mono)
    with one None n1 n2 p1 show ?thesis by auto
  next
    case (Some c)
    with one n1 p1 show ?thesis by auto
  qed
qed

lemma ignoreForAuthors_events:
  "list_all (proper_call parsed (elements (option_field value ''rulesToEnforce'')))
     (fst (ignoreForAuthors w parsed when value))"
  using ignoreForAuthors_cases [of w parsed "when" "value"]
    enforce_events [of w parsed "[]" "elements (option_field value ''rulesToEnforce'')"]
  by auto

lemma ignoreForAuthors_signoff_events:
  "list_all (proper_call parsed (elements (option_field value ''rulesToEnforce'')))
     (fst (ignoreForAuthors_signoff w parsed when value))"
  using ignoreForAuthors_signoff_cases [of w parsed "when" "value"]
    enforce_signoff_events [of w parsed "[]" "elements (option_field value ''rulesToEnforce'')"]
  by auto

text \<open>
  Claim C9. Every invocation that the rule makes, in either version and whatever
  condition the rule itself was called with, has the arguments
  \<open>(commit, 'always', value)\<close>, where \<open>value\<close> is the \<open>value\<close> field of an entry of
  \<open>rulesToEnforce\<close>. And every rule that is resolved is invoked so: when the loop reaches a
  well-formed entry with the trace \<open>tr\<close> and the entry resolves to the function \<open>g\<close>, the
  trace of the whole evaluation goes on with the import of the package and the invocation
  of \<open>g\<close> with the commit, \<open>'always'\<close> and the \<open>value\<close> of this entry.
\<close>

theorem delegated_rules_called_with_always:
  "(Invoke f c a v \<in> set (fst (ignoreForAuthors w parsed when value)) \<longrightarrow>
      c = JObj parsed \<and> a = always
      \<and> (\<exists>ruleConfig \<in> set (elements (option_field value ''rulesToEnforce'')).
            v = ruleValue_of ruleConfig))
   \<and> (Invoke f c a v \<in> set (fst (ignoreForAuthors_signoff w parsed when value)) \<longrightarrow>
        c = JObj parsed \<and> a = always
        \<and> (\<exists>ruleConfig \<in> set (elements (option_field value ''rulesToEnforce'')).
              v = ruleValue_of ruleConfig))
   \<and> (reaches w parsed when value before ruleConfig after tr \<and> well_formed_entry ruleConfig
       \<and> resolve_rule w tr (packageName_of ruleConfig) (ruleName_of ruleConfig)
           = Normal (JFun g)
       \<longrightarrow> prefix (tr @ [Import (packageName_of ruleConfig),
                         Invoke g (JObj parsed) always (ruleValue_of ruleConfig)])
             (fst (ignoreForAuthors w parsed when value)))
   \<and> (reaches_signoff w parsed when value before ruleConfig after tr
       \<and> well_formed_entry ruleConfig
       \<and> resolve_rule_signoff w tr (packageName_of ruleConfig) (ruleName_of ruleConfig)
           = Normal (JFun g)
       \<longrightarrow> prefix (tr @ [Import (packageName_of ruleConfig),
                         Invoke g (JObj parsed) always (ruleValue_of ruleConfig)])
             (fst (ignoreForAuthors_signoff w parsed when value)))"
proof (intro conjI impI; (elim conjE)?)
  assume "Invoke f c a v \<in> set (fst (ignoreForAuthors w parsed when value))"
  with ignoreForAuthors_events [of parsed "value" w "when"]
  have "proper_call parsed (elements (option_field value ''rulesToEnforce'')) (Invoke f c a v)"
    by (simp add: list_all_iff)
  then show "c = JObj parsed" and "a = always"
    and "\<exists>ruleConfig \<in> set (elements (option_field value ''rulesToEnforce'')).
           v = ruleValue_of ruleConfig"
    by (simp_all add: proper_call_def list_ex_iff)
next
  assume "Invoke f c a v \<in> set (fst (ignoreForAuthors_signoff w parsed when value))"
  with ignoreForAuthors_signoff_events [of parsed "value" w "when"]
  have "proper_call parsed (elements (option_field value ''rulesToEnforce'')) (Invoke f c a v)"
    by (simp add: list_all_iff)
  then show "c = JObj parsed" and "a = always"
    and "\<exists>ruleConfig \<in> set (elements (option_field value ''rulesToEnforce'')).
           v = ruleValue_of ruleConfig"
    by (simp_all add: proper_call_def list_ex_iff)
next
  assume r: "reaches w parsed when value before ruleConfig after tr"
    and wf: "well_formed_entry ruleConfig"
    and g: "resolve_rule w tr (packageName_of ruleConfig) (ruleName_of ruleConfig)
              = Normal (JFun g)"
  let ?tr2 = "tr @ [Import (packageName_of ruleConfig),
                    Invoke g (JObj parsed) always (ruleValue_of ruleConfig)]"
  from enforce_one_invoked [OF wf g, of parsed]
  obtain x where one: "enforce_one w parsed tr ruleConfig = (?tr2, x)" by blast
  show "prefix ?tr2 (fst (ignoreForAuthors w parsed when value))"
  proof (cases x)
    case None
    with one have "ignoreForAuthors w parsed when value = enforce w parsed ?tr2 after"
      by (simp add: reaches_step [OF r])
    with enforce_events [of w parsed ?tr2 after] show ?thesis
      by (auto simp: prefix_def simp del: append_assoc)
  next
    case (Some res)
    with one have "ignoreForAuthors w parsed when value = (?tr2, res)"
      by (simp add: reaches_step [OF r])
    then show ?thesis by simp
  qed
next
  assume r: "reaches_signoff w parsed when value before ruleConfig after tr"
    and wf: "well_formed_entry ruleConfig"
    and g: "resolve_rule_signoff w tr (packageName_of ruleConfig) (ruleName_of ruleConfig)
              = Normal (JFun g)"
  let ?tr2 = "tr @ [Import (packageName_of ruleConfig),
                    Invoke g (JObj parsed) always (ruleValue_of ruleConfig)]"
  from enforce_one_signoff_invoked [OF wf g, of parsed]
  obtain x where one: "enforce_one_signoff w parsed tr ruleConfig = (?tr2, x)" by blast
  show "prefix ?tr2 (fst (ignoreForAuthors_signoff w parsed when value))"
  proof (cases x)
    case None
    with one have "ignoreForAuthors_signoff w parsed when value
                     = enforce_signoff w parsed ?tr2 after"
      by (simp add: reaches_signoff_step [OF r])
    with enforce_signoff_events [of w parsed ?tr2 after] show ?thesis
      by (auto simp: prefix_def simp del: append_assoc)
  next
    case (Some res)
    with one have "ignoreForAuthors_signoff w parsed when value = (?tr2, res)"
      by (simp add: reaches_signoff_step [OF r])
    then show ?thesis by simp
  qed
qed

text \<open>
  Instances, with the entries of the test suite: the rule called without a condition
  (\<open>undefined\<close>, which stands for \<open>'always'\<close>), and called with a condition that is
  neither \<open>'always'\<close> nor \<open>'never'\<close>.
\<close>

theorem delegated_rules_called_with_always_witness:
  "Invoke (Exported 0) (JObj (commit_of ''feat(app): new feature by human'')) always
       (JArr [JStr (lit ''feat''), JStr (lit ''fix''), JStr (lit ''chore'')])
     \<in> set (fst (ignoreForAuthors test_world (commit_of ''feat(app): new feature by human'')
                   JUndefined
                   (JObj [(lit ''rulesToEnforce'',
                     JArr [rule_entry (lit ''@commitlint/rules'') (lit ''header-max-length'')
                             (JNum 50),
                           rule_entry (lit ''@commitlint/rules'') (lit ''type-enum'')
                             (JArr [JStr (lit ''feat''), JStr (lit ''fix''),
                                    JStr (lit ''chore'')])])])))
   \<and> (\<exists>ruleConfig \<in> set (elements (option_field
           (JObj [(lit ''rulesToEnforce'',
                     JArr [rule_entry (lit ''@commitlint/rules'') (lit ''header-max-length'')
                             (JNum 50),
                           rule_entry (lit ''@commitlint/rules'') (lit ''type-enum'')
                             (JArr [JStr (lit ''feat''), JStr (lit ''fix''),
                                    JStr (lit ''chore'')])])])
           ''rulesToEnforce'')).
         JArr [JStr (lit ''feat''), JStr (lit ''fix''), JStr (lit ''chore'')]
           = ruleValue_of ruleConfig)
   \<and> prefix [Import (lit ''@commitlint/rules''),
              Invoke (Exported 1) (JObj (commit_of ''feat(app): new feature by human'')) always (JNum 50)]
        (fst (ignoreForAuthors_signoff test_world
                (commit_of ''feat(app): new feature by human'') (JStr (lit ''sometimes''))
                (JObj [(lit ''rulesToEnforce'',
                     JArr [rule_entry (lit ''@commitlint/rules'') (lit ''header-max-length'')
                             (JNum 50),
                           rule_entry (lit ''@commitlint/rules'') (lit ''type-enum'')
                             (JArr [JStr (lit ''feat''), JStr (lit ''fix''),
                                    JStr (lit ''chore'')])])])))"
proof -
  let ?c = "commit_of ''feat(app): new feature by human''"
  let ?tv = "JArr [JStr (lit ''feat''), JStr (lit ''fix''), JStr (lit ''chore'')]"
  let ?h = "rule_entry (lit ''@commitlint/rules'') (lit ''header-max-length'') (JNum 50)"
  let ?e = "rule_entry (lit ''@commitlint/rules'') (lit ''type-enum'') ?tv"
  let ?v = "JObj [(lit ''rulesToEnforce'', JArr [?h, ?e])]"
  have ev: "fst (ignoreForAuthors test_world ?c JUndefined ?v)
            = [Import (lit ''@commitlint/rules''), Invoke (Exported 1) (JObj ?c) always (JNum 50),
               Import (lit ''@commitlint/rules''), Invoke (Exported 0) (JObj ?c) always ?tv]"
    by (simp add: ignoreForAuthors_def bypass_check_def test_eval)
  then have m: "Invoke (Exported 0) (JObj ?c) always ?tv
                  \<in> set (fst (ignoreForAuthors test_world ?c JUndefined ?v))"
    by simp
  from delegated_rules_called_with_always
         [of "Exported 0" "JObj ?c" always ?tv test_world ?c JUndefined ?v] m
  have g1: "\<exists>ruleConfig \<in> set (elements (option_field ?v ''rulesToEnforce'')).
              ?tv = ruleValue_of ruleConfig"
    by blast
  have wf: "well_formed_entry ?h" by (simp add: well_formed_entry_def rule_entry_def)
  have r: "reaches_signoff test_world ?c (JStr (lit ''sometimes'')) ?v [] ?h [?e] []"
    by (simp add: reaches_signoff_def bypass_check_signoff_def test_eval)
  have f: "resolve_rule_signoff test_world [] (packageName_of ?h) (ruleName_of ?h)
             = Normal (JFun (Exported 1))"
    by (simp add: test_eval)
  from delegated_rules_called_with_always
         [of _ _ _ _ test_world ?c "JStr (lit ''sometimes'')" ?v "[]" ?h "[?e]" "[]" "Exported 1"]
       r wf f
  have g2: "prefix ([] @ [Import (packageName_of ?h),
                          Invoke (Exported 1) (JObj ?c) always (ruleValue_of ?h)])
              (fst (ignoreForAuthors_signoff test_world ?c (JStr (lit ''sometimes'')) ?v))"
    by blast
  have "[] @ [Import (packageName_of ?h), Invoke (Exported 1) (JObj ?c) always (ruleValue_of ?h)]
        = [Import (lit ''@commitlint/rules''), Invoke (Exported 1) (JObj ?c) always (JNum 50)]"
    by (simp add: rule_entry_def)
  with g2 have g2': "prefix [Import (lit ''@commitlint/rules''),
                             Invoke (Exported 1) (JObj ?c) always (JNum 50)]
              (fst (ignoreForAuthors_signoff test_world ?c (JStr (lit ''sometimes'')) ?v))"
    by simp
  from m g1 g2' show ?thesis by (intro conjI)
qed

section \<open>The pattern that is the empty string\<close>

text \<open>
  What the block of the patterns does when a pattern matches. The element that \<open>find\<close>
  returns is tested for truthiness, and the empty string is falsy.
\<close>

lemma bypass_check_first_match:
  assumes "list_all (\<lambda>pattern. typeof pattern = TString) patterns"
    and "find (\<lambda>pattern. js_includes raw (string_value pattern)) patterns = Some matched"
  shows "bypass_check raw (JArr patterns) =
           (if string_value matched \<noteq> []
            then Some (True,
                   plugin_prefix @ lit ''Commit by ignored author pattern ('' @ apos
                   @ string_value matched @ apos
                   @ lit ''). Ruleset defined in '' @ apos @ lit ''rulesToEnforce'' @ apos
                   @ lit '' bypassed.'')
            else None)"
proof -
  from assms(2) have "matched \<in> set patterns" by (auto simp: find_Some_iff)
  with assms(1) have "typeof matched = TString" by (simp add: list_all_iff)
  then obtain s where "matched = JStr s" by (cases matched) auto
  with assms show ?thesis by (simp add: bypass_check_def)
qed

lemma bypass_check_signoff_first_match:
  assumes "list_all (\<lambda>pattern. typeof pattern = TString) patterns"
    and "find (\<lambda>ignorePattern.
                 list_ex (\<lambda>actualSignOff. js_includes actualSignOff (string_value ignorePattern))
                   (extractSignOffs raw 0 []))
           patterns = Some matched"
  shows "bypass_check_signoff raw (JArr patterns) =
           (if string_value matched \<noteq> []
            then Some (True,
                   lit ''Commit has a '' @ apos @ lit ''Signed-off-by'' @ apos
                   @ lit '' line matching pattern ('' @ apos
                   @ string_value matched @ apos
                   @ lit ''). Ruleset defined in '' @ apos @ lit ''rulesToEnforce'' @ apos
                   @ lit '' bypassed.'')
            else None)"
proof -
  from assms(2) have m: "matched \<in> set patterns"
    and x: "list_ex (\<lambda>actualSignOff. js_includes actualSignOff (string_value matched))
              (extractSignOffs raw 0 [])"
    by (auto simp: find_Some_iff)
  from m assms(1) have "typeof matched = TString" by (simp add: list_all_iff)
  then obtain s where s: "matched = JStr s" by (cases matched) auto
  from m have ne: "patterns \<noteq> []" by auto
  from x have ne': "extractSignOffs raw 0 [] \<noteq> []" by auto
  from assms s ne ne' show ?thesis by (simp add: bypass_check_signoff_def Let_def)
qed

text \<open>
  So a match whose first matching pattern is not empty bypasses \<open>rulesToEnforce\<close>: the rule
  passes, the message quotes that pattern, and nothing is imported or invoked.
\<close>

lemma nonempty_first_match_bypasses:
  assumes "when \<noteq> never" and "raw_of parsed = JStr raw"
    and "option_field value ''ignoreAuthorPatterns'' = JArr patterns"
    and "list_all (\<lambda>pattern. typeof pattern = TString) patterns"
    and "find (\<lambda>pattern. js_includes raw (string_value pattern)) patterns = Some matched"
    and "string_value matched \<noteq> []"
  shows "ignoreForAuthors w parsed when value =
           ([], Normal (True,
              plugin_prefix @ lit ''Commit by ignored author pattern ('' @ apos
              @ string_value matched @ apos
              @ lit ''). Ruleset defined in '' @ apos @ lit ''rulesToEnforce'' @ apos
              @ lit '' bypassed.''))"
proof -
  from assms(2) have s: "typeof (raw_of parsed) = TString" by simp
  from assms(2,3,6) bypass_check_first_match [OF assms(4,5)]
  have "bypass_check (string_value (raw_of parsed))
          (option_field value ''ignoreAuthorPatterns'')
        = Some (True,
              plugin_prefix @ lit ''Commit by ignored author pattern ('' @ apos
              @ string_value matched @ apos
              @ lit ''). Ruleset defined in '' @ apos @ lit ''rulesToEnforce'' @ apos
              @ lit '' bypassed.'')"
    by simp
  from ignoreForAuthors_bypassed [OF assms(1) s this] show ?thesis .
qed

lemma nonempty_first_match_bypasses_signoff:
  assumes "when \<noteq> never" and "raw_of parsed = JStr raw"
    and "option_field value ''signOffPatternsToIgnore'' = JArr patterns"
    and "list_all (\<lambda>pattern. typeof pattern = TString) patterns"
    and "find (\<lambda>ignorePattern.
                 list_ex (\<lambda>actualSignOff. js_includes actualSignOff (string_value ignorePattern))
                   (extractSignOffs raw 0 []))
           patterns = Some matched"
    and "string_value matched \<noteq> []"
  shows "ignoreForAuthors_signoff w parsed when value =
           ([], Normal (True,
              lit ''Commit has a '' @ apos @ lit ''Signed-off-by'' @ apos
              @ lit '' line matching pattern ('' @ apos
              @ string_value matched @ apos
              @ lit ''). Ruleset defined in '' @ apos @ lit ''rulesToEnforce'' @ apos
              @ lit '' bypassed.''))"
proof -
  from assms(2) have s: "typeof (raw_of parsed) = TString" by simp
  from assms(2,3,6) bypass_check_signoff_first_match [OF assms(4,5)]
  have "bypass_check_signoff (string_value (raw_of parsed))
          (option_field value ''signOffPatternsToIgnore'')
        = Some (True,
              lit ''Commit has a '' @ apos @ lit ''Signed-off-by'' @ apos
              @ lit '' line matching pattern ('' @ apos
              @ string_value matched @ apos
              @ lit ''). Ruleset defined in '' @ apos @ lit ''rulesToEnforce'' @ apos
              @ lit '' bypassed.'')"
    by simp
  from ignoreForAuthors_signoff_bypassed [OF assms(1) s this] show ?thesis .
qed

text \<open>Without an extracted sign-off the later version never bypasses.\<close>

lemma no_sign_off_no_bypass:
  assumes "extractSignOffs raw 0 [] = []"
  shows "bypass_check_signoff raw patterns \<noteq> Some (True, message)"
  using assms by (simp add: bypass_check_signoff_def Let_def)

text \<open>The definitions that a run of the regular expression on a concrete text unfolds.\<close>

lemmas regex_eval =
  extractSignOffs.simps regex_exec.simps match_at_def at_line_start_def
  is_line_terminator_def is_space_def canonicalize_def trim_def lit_def Let_def

text \<open>
  Claim C2 says that when some pattern of an all-string list matches, the rule passes at
  once, quotes the first matching pattern and leaves \<open>rulesToEnforce\<close> alone. With the
  patterns \<open>['', 'bot']\<close> the pattern \<open>'bot'\<close> matches (it occurs in the raw message and in
  the sign-off), and the first matching pattern is \<open>''\<close>, which \<open>find\<close> returns. The
  code tests it for truthiness, takes it for no match, and goes on to \<open>rulesToEnforce\<close>:
  the package is imported, the rule is invoked, and the rule fails with what
  \<open>type-enum\<close> reports. This is the code at that input, in both versions.
\<close>

theorem empty_pattern_shadows_later_pattern:
  "js_includes (lit ''fix: update by bot'') (lit ''bot'')
   \<and> find (\<lambda>pattern. js_includes (lit ''fix: update by bot'') (string_value pattern))
         [JStr [], JStr (lit ''bot'')] = Some (JStr [])
   \<and> ignoreForAuthors test_world (commit_of ''fix: update by bot'') always
       (JObj [(lit ''ignoreAuthorPatterns'', JArr [JStr [], JStr (lit ''bot'')]),
              (lit ''rulesToEnforce'',
               JArr [rule_entry (lit ''@commitlint/rules'') (lit ''type-enum'') JNull])])
       = ([Import (lit ''@commitlint/rules''),
           Invoke (Exported 0) (JObj (commit_of ''fix: update by bot'')) always JNull],
          Normal (False,
            lit ''[@mridang/commitlint-plugin-conditionals via @commitlint/rules/type-enum] type invalid''))
   \<and> extractSignOffs (lit ''fix: update\<newline>\<newline>Signed-off-by: bot <bot@example.com>'') 0 []
       = [lit ''bot <bot@example.com>'']
   \<and> js_includes (lit ''bot <bot@example.com>'') (lit ''bot'')
   \<and> ignoreForAuthors_signoff test_world
       (commit_of ''fix: update\<newline>\<newline>Signed-off-by: bot <bot@example.com>'') always
       (JObj [(lit ''signOffPatternsToIgnore'', JArr [JStr [], JStr (lit ''bot'')]),
              (lit ''rulesToEnforce'',
               JArr [rule_entry (lit ''@commitlint/rules'') (lit ''type-enum'') JNull])])
       = ([Import (lit ''@commitlint/rules''),
           Invoke (Exported 0)
             (JObj (commit_of ''fix: update\<newline>\<newline>Signed-off-by: bot <bot@example.com>''))
             always JNull],
          Normal (False, lit ''[via @commitlint/rules/type-enum] type invalid''))"
proof -
  have i: "js_includes (lit ''fix: update by bot'') (lit ''bot'')"
    and i': "js_includes (lit ''bot <bot@example.com>'') (lit ''bot'')"
    by (simp_all add: lit_def)
  have x: "extractSignOffs (lit ''fix: update\<newline>\<newline>Signed-off-by: bot <bot@example.com>'') 0 []
             = [lit ''bot <bot@example.com>'']"
    by (simp add: regex_eval)
  have f: "find (\<lambda>pattern. js_includes (lit ''fix: update by bot'') (string_value pattern))
             [JStr [], JStr (lit ''bot'')] = Some (JStr [])"
    by (simp add: js_includes_empty)
  have b1: "bypass_check (lit ''fix: update by bot'') (JArr [JStr [], JStr (lit ''bot'')]) = None"
    by (simp add: bypass_check_def js_includes_empty)
  have b2: "bypass_check_signoff (lit ''fix: update\<newline>\<newline>Signed-off-by: bot <bot@example.com>'')
              (JArr [JStr [], JStr (lit ''bot'')]) = None"
    by (simp add: bypass_check_signoff_def x js_includes_empty)
  have e1: "ignoreForAuthors test_world (commit_of ''fix: update by bot'') always
       (JObj [(lit ''ignoreAuthorPatterns'', JArr [JStr [], JStr (lit ''bot'')]),
              (lit ''rulesToEnforce'',
               JArr [rule_entry (lit ''@commitlint/rules'') (lit ''type-enum'') JNull])])
       = ([Import (lit ''@commitlint/rules''),
           Invoke (Exported 0) (JObj (commit_of ''fix: update by bot'')) always JNull],
          Normal (False,
            lit ''[@mridang/commitlint-plugin-conditionals via @commitlint/rules/type-enum] type invalid''))"
    by (simp add: ignoreForAuthors_def b1 test_eval lit_append [symmetric])
  have e2: "ignoreForAuthors_signoff test_world
       (commit_of ''fix: update\<newline>\<newline>Signed-off-by: bot <bot@example.com>'') always
       (JObj [(lit ''signOffPatternsToIgnore'', JArr [JStr [], JStr (lit ''bot'')]),
              (lit ''rulesToEnforce'',
               JArr [rule_entry (lit ''@commitlint/rules'') (lit ''type-enum'') JNull])])
       = ([Import (lit ''@commitlint/rules''),
           Invoke (Exported 0)
             (JObj (commit_of ''fix: update\<newline>\<newline>Signed-off-by: bot <bot@example.com>''))
             always JNull],
          Normal (False, lit ''[via @commitlint/rules/type-enum] type invalid''))"
    by (simp add: ignoreForAuthors_signoff_def b2 test_eval lit_append [symmetric])
  from i f e1 x i' e2 show ?thesis by (intro conjI)
qed

text \<open>In particular the trace of these two evaluations is not empty.\<close>

theorem empty_pattern_shadows_later_pattern_witness:
  "fst (ignoreForAuthors test_world (commit_of ''fix: update by bot'') always
       (JObj [(lit ''ignoreAuthorPatterns'', JArr [JStr [], JStr (lit ''bot'')]),
              (lit ''rulesToEnforce'',
               JArr [rule_entry (lit ''@commitlint/rules'') (lit ''type-enum'') JNull])]))
     \<noteq> []
   \<and> fst (ignoreForAuthors_signoff test_world
       (commit_of ''fix: update\<newline>\<newline>Signed-off-by: bot <bot@example.com>'') always
       (JObj [(lit ''signOffPatternsToIgnore'', JArr [JStr [], JStr (lit ''bot'')]),
              (lit ''rulesToEnforce'',
               JArr [rule_entry (lit ''@commitlint/rules'') (lit ''type-enum'') JNull])]))
     \<noteq> []"
  using empty_pattern_shadows_later_pattern by simp

text \<open>
  Claim C10 says that a pattern list with the empty string bypasses \<open>rulesToEnforce\<close> for
  every commit (in the later version: for every commit with a sign-off). The empty string
  does occur in every string, but with the patterns \<open>['']\<close> the code does not bypass, for
  the reason given at claim C2: it imports the package and invokes the rule. This is the
  code at that input, in both versions.
\<close>

theorem empty_pattern_does_not_bypass:
  "js_includes (lit ''feat: anything'') []
   \<and> ignoreForAuthors test_world (commit_of ''feat: anything'') always
       (JObj [(lit ''ignoreAuthorPatterns'', JArr [JStr []]),
              (lit ''rulesToEnforce'',
               JArr [rule_entry (lit ''@commitlint/rules'') (lit ''type-enum'') JNull])])
       = ([Import (lit ''@commitlint/rules''),
           Invoke (Exported 0) (JObj (commit_of ''feat: anything'')) always JNull],
          Normal (False,
            lit ''[@mridang/commitlint-plugin-conditionals via @commitlint/rules/type-enum] type invalid''))
   \<and> extractSignOffs (lit ''feat: anything\<newline>\<newline>Signed-off-by: Human <human@example.com>'') 0 []
       = [lit ''Human <human@example.com>'']
   \<and> js_includes (lit ''Human <human@example.com>'') []
   \<and> ignoreForAuthors_signoff test_world
       (commit_of ''feat: anything\<newline>\<newline>Signed-off-by: Human <human@example.com>'') always
       (JObj [(lit ''signOffPatternsToIgnore'', JArr [JStr []]),
              (lit ''rulesToEnforce'',
               JArr [rule_entry (lit ''@commitlint/rules'') (lit ''type-enum'') JNull])])
       = ([Import (lit ''@commitlint/rules''),
           Invoke (Exported 0)
             (JObj (commit_of
                ''feat: anything\<newline>\<newline>Signed-off-by: Human <human@example.com>''))
             always JNull],
          Normal (False, lit ''[via @commitlint/rules/type-enum] type invalid''))"
proof -
  have x: "extractSignOffs
             (lit ''feat: anything\<newline>\<newline>Signed-off-by: Human <human@example.com>'') 0 []
           = [lit ''Human <human@example.com>'']"
    by (simp add: regex_eval)
  have b1: "bypass_check (lit ''feat: anything'') (JArr [JStr []]) = None"
    by (simp add: bypass_check_def js_includes_empty)
  have b2: "bypass_check_signoff
              (lit ''feat: anything\<newline>\<newline>Signed-off-by: Human <human@example.com>'')
              (JArr [JStr []]) = None"
    by (simp add: bypass_check_signoff_def x js_includes_empty)
  have e1: "ignoreForAuthors test_world (commit_of ''feat: anything'') always
       (JObj [(lit ''ignoreAuthorPatterns'', JArr [JStr []]),
              (lit ''rulesToEnforce'',
               JArr [rule_entry (lit ''@commitlint/rules'') (lit ''type-enum'') JNull])])
       = ([Import (lit ''@commitlint/rules''),
           Invoke (Exported 0) (JObj (commit_of ''feat: anything'')) always JNull],
          Normal (False,
            lit ''[@mridang/commitlint-plugin-conditionals via @commitlint/rules/type-enum] type invalid''))"
    by (simp add: ignoreForAuthors_def b1 test_eval lit_append [symmetric])
  have e2: "ignoreForAuthors_signoff test_world
       (commit_of ''feat: anything\<newline>\<newline>Signed-off-by: Human <human@example.com>'') always
       (JObj [(lit ''signOffPatternsToIgnore'', JArr [JStr []]),
              (lit ''rulesToEnforce'',
               JArr [rule_entry (lit ''@commitlint/rules'') (lit ''type-enum'') JNull])])
       = ([Import (lit ''@commitlint/rules''),
           Invoke (Exported 0)
             (JObj (commit_of
                ''feat: anything\<newline>\<newline>Signed-off-by: Human <human@example.com>''))
             always JNull],
          Normal (False, lit ''[via @commitlint/rules/type-enum] type invalid''))"
    by (simp add: ignoreForAuthors_signoff_def b2 test_eval lit_append [symmetric])
  from js_includes_empty e1 x js_includes_empty e2 show ?thesis by (intro conjI)
qed

text \<open>In particular the trace of these two evaluations is not empty.\<close>

theorem empty_pattern_does_not_bypass_witness:
  "fst (ignoreForAuthors test_world (commit_of ''feat: anything'') always
       (JObj [(lit ''ignoreAuthorPatterns'', JArr [JStr []]),
              (lit ''rulesToEnforce'',
               JArr [rule_entry (lit ''@commitlint/rules'') (lit ''type-enum'') JNull])]))
     \<noteq> []
   \<and> fst (ignoreForAuthors_signoff test_world
       (commit_of ''feat: anything\<newline>\<newline>Signed-off-by: Human <human@example.com>'') always
       (JObj [(lit ''signOffPatternsToIgnore'', JArr [JStr []]),
              (lit ''rulesToEnforce'',
               JArr [rule_entry (lit ''@commitlint/rules'') (lit ''type-enum'') JNull])]))
     \<noteq> []"
  using empty_pattern_does_not_bypass by simp

section \<open>The regular expression, line by line\<close>

text \<open>
  The loop over the matches of the regular expression is the scan of the text defined
  above, and on a text in which every sign-off line has a value that is not blank the scan
  gives the values of the sign-off lines as the specification words them.
\<close>



lemma match_at_signoff:
  "match_at raw p =
     (if at_line_start raw p \<and> is_signoff_line (drop p raw)
      then Some (length raw - length (dropWhile is_space (drop literal_length (drop p raw)))
                 + length (takeWhile not_terminator
                     (dropWhile is_space (drop literal_length (drop p raw)))),
                 takeWhile not_terminator
                   (dropWhile is_space (drop literal_length (drop p raw))))
      else None)"
  by (simp add: match_at_def is_signoff_line_def Let_def)

lemma extractSignOffs_skip:
  assumes "match_at raw i = None" and "i < length raw"
  shows "extractSignOffs raw i acc = extractSignOffs raw (Suc i) acc"
proof -
  from assms have "regex_exec raw i = regex_exec raw (Suc i)"
    by (simp add: regex_exec.simps [of raw i])
  then show ?thesis
    by (simp add: extractSignOffs.simps [of raw i] extractSignOffs.simps [of raw "Suc i"])
qed

lemma extractSignOffs_end:
  "extractSignOffs raw (length raw) acc = acc"
proof -
  have "match_at raw (length raw) = None"
    by (simp add: match_at_signoff is_signoff_line_def lit_def)
  then have "regex_exec raw (length raw) = None"
    by (simp add: regex_exec.simps [of raw "length raw"]
          regex_exec.simps [of raw "Suc (length raw)"])
  then show ?thesis by (simp add: extractSignOffs.simps [of raw "length raw"])
qed

lemma extractSignOffs_match:
  assumes "match_at raw i = Some (e, g)" and "i \<le> length raw"
  shows "extractSignOffs raw i acc = extractSignOffs raw e (acc @ [trim g])"
proof -
  from assms have "regex_exec raw i = Some (e, g)"
    by (simp add: regex_exec.simps [of raw i])
  then show ?thesis by (simp add: extractSignOffs.simps [of raw i])
qed

lemma match_at_decomposition:
  assumes "match_at raw i = Some (e, g)"
  defines "after \<equiv> dropWhile is_space (drop literal_length (drop i raw))"
  shows "g = takeWhile not_terminator after"
    and "drop e raw = dropWhile not_terminator after"
    and "dropWhile not_terminator after \<noteq> [] \<Longrightarrow> \<not> at_line_start raw e"
proof -
  let ?rest = "dropWhile not_terminator after"
  from assms(1) have g: "g = takeWhile not_terminator after"
    and e: "e = length raw - length after + length g"
    and sig: "is_signoff_line (drop i raw)"
    by (auto simp: match_at_signoff after_def split: if_splits)
  show "g = takeWhile not_terminator after" by (rule g)
  define pre where "pre = take (length raw - length after) raw"
  have suffix_after: "suffix after raw"
    unfolding after_def
    by (meson suffix_dropWhile suffix_drop suffix_order.trans)
  then obtain pre' where pre': "raw = pre' @ after" by (auto simp: suffix_def)
  then have lp: "length pre' = length raw - length after" by simp
  have ga: "after = g @ ?rest" by (simp add: g)
  from pre' ga have raw: "raw = pre' @ g @ ?rest" by simp
  from e lp have e': "e = length pre' + length g" by simp
  from raw e' have "drop e raw = drop (length pre' + length g) ((pre' @ g) @ ?rest)" by simp
  also have "\<dots> = ?rest" by (simp del: append_assoc)
  finally show "drop e raw = ?rest" .
  assume ne: "?rest \<noteq> []"
  then have lt: "is_line_terminator (hd ?rest)" using hd_dropWhile [OF ne] by simp
  have "g \<noteq> []"
  proof
    assume "g = []"
    with ga have a: "after = ?rest" by simp
    with ne have "after \<noteq> []" by simp
    then have "\<not> is_space (hd after)"
      unfolding after_def by (rule hd_dropWhile)
    moreover from a lt have "is_line_terminator (hd after)" by simp
    ultimately show False by (simp add: is_space_def)
  qed
  then have "last g \<in> set g" by simp
  then have nl: "not_terminator (last g)" unfolding g by (auto dest: set_takeWhileD)
  from \<open>g \<noteq> []\<close> e' have pos: "0 < e" by simp
  have "raw ! (e - 1) = ((pre' @ g) @ ?rest) ! (length (pre' @ g) - 1)"
    using raw e' by simp
  also have "\<dots> = (pre' @ g) ! (length (pre' @ g) - 1)"
    using \<open>g \<noteq> []\<close> by (subst nth_append) simp
  also have "\<dots> = last (pre' @ g)"
    using \<open>g \<noteq> []\<close> by (subst last_conv_nth) simp_all
  also have "\<dots> = last g" using \<open>g \<noteq> []\<close> by simp
  finally have "raw ! (e - 1) = last g" .
  with nl pos show "\<not> at_line_start raw e" by (simp add: at_line_start_def)
qed

lemma extractSignOffs_scan:
  "i \<le> length raw
   \<Longrightarrow> extractSignOffs raw i acc = acc @ scan (at_line_start raw i) (drop i raw)"
proof (induction "length raw - i" arbitrary: i acc rule: less_induct)
  case less
  show ?case
  proof (cases "i = length raw")
    case True
    then show ?thesis by (simp add: extractSignOffs_end)
  next
    case False
    with less.prems have lt: "i < length raw" by simp
    then have cons: "drop i raw = raw ! i # drop (Suc i) raw"
      by (simp add: Cons_nth_drop_Suc)
    let ?after = "dropWhile is_space (drop literal_length (drop i raw))"
    show ?thesis
    proof (cases "at_line_start raw i \<and> is_signoff_line (drop i raw)")
      case True
      then obtain e g where m: "match_at raw i = Some (e, g)"
        by (simp add: match_at_signoff)
      from match_at_bounds [OF m] have b: "i < e" "e \<le> length raw" by simp_all
      note d = match_at_decomposition [OF m]
      from b lt have "length raw - e < length raw - i" by arith
      from less.hyps [OF this b(2), of "acc @ [trim g]"]
      have "extractSignOffs raw e (acc @ [trim g])
              = acc @ trim g # scan (at_line_start raw e) (drop e raw)"
        by simp
      moreover have "scan (at_line_start raw e) (drop e raw)
                       = scan False (dropWhile not_terminator ?after)"
      proof (cases "dropWhile not_terminator ?after = []")
        case True
        with d(2) have "drop e raw = []" by (simp only:)
        with True show ?thesis by (simp only: scan.simps(1))
      next
        case False
        from d(3) [OF False] have "at_line_start raw e = False" by simp
        with d(2) show ?thesis by (simp only:)
      qed
      moreover from True cons d(1)
      have "scan (at_line_start raw i) (drop i raw)
              = trim g # scan False (dropWhile not_terminator ?after)"
        by (simp add: scan.simps(2) [of _ "raw ! i" "drop (Suc i) raw"] Let_def)
      ultimately show ?thesis
        by (simp add: extractSignOffs_match [OF m less.prems])
    next
      case False
      then have m: "match_at raw i = None" by (simp add: match_at_signoff)
      from lt have "length raw - Suc i < length raw - i" and "Suc i \<le> length raw" by arith+
      from less.hyps [OF this, of acc]
      have "extractSignOffs raw (Suc i) acc
              = acc @ scan (is_line_terminator (raw ! i)) (drop (Suc i) raw)"
        by (simp add: at_line_start_def)
      moreover from False cons
      have "scan (at_line_start raw i) (drop i raw)
              = scan (is_line_terminator (raw ! i)) (drop (Suc i) raw)"
        by (auto simp: scan.simps(2) [of _ "raw ! i" "drop (Suc i) raw"])
      ultimately show ?thesis by (simp add: extractSignOffs_skip [OF m lt])
    qed
  qed
qed

lemma extractSignOffs_is_scan: "extractSignOffs raw 0 [] = scan True raw"
  using extractSignOffs_scan [of 0 raw "[]"] by (simp add: at_line_start_def)

subsection \<open>Lines\<close>

lemma lines_of_head: "lines_of s = takeWhile not_terminator s # tl (lines_of s)"
  by (induction s) (auto split: list.splits)

lemma lines_of_tail_Cons:
  "tl (lines_of (c # s)) = (if is_line_terminator c then lines_of s else tl (lines_of s))"
  by (auto split: list.splits)

lemma lines_of_tail_dropWhile: "tl (lines_of (dropWhile not_terminator s)) = tl (lines_of s)"
  by (induction s) (auto split: list.splits)

lemma literal_canonical:
  "map canonicalize (lit ''Signed-off-by:'')
     = [0x53, 0x49, 0x47, 0x4E, 0x45, 0x44, 0x2D, 0x4F, 0x46, 0x46, 0x2D, 0x42, 0x59, 0x3A]"
  by (simp add: lit_def canonicalize_def)

lemma signoff_literal_no_terminator:
  assumes "is_signoff_line s" and "x \<in> set (take literal_length s)"
  shows "not_terminator x"
proof
  assume lt: "is_line_terminator x"
  from assms(2) have "canonicalize x \<in> set (map canonicalize (take literal_length s))"
    by simp
  also from assms(1) have "map canonicalize (take literal_length s)
                             = map canonicalize (lit ''Signed-off-by:'')"
    by (simp add: is_signoff_line_def Let_def)
  finally have "canonicalize x
                  \<in> set [0x53, 0x49, 0x47, 0x4E, 0x45, 0x44, 0x2D, 0x4F, 0x46, 0x46, 0x2D,
                          0x42, 0x59, 0x3A :: jschar]"
    by (simp only: literal_canonical)
  with lt show False
    by (auto simp: is_line_terminator_def canonicalize_def)
qed

lemma takeWhile_signoff:
  assumes "is_signoff_line s"
  shows "takeWhile not_terminator s
           = take literal_length s @ takeWhile not_terminator (drop literal_length s)"
proof -
  have "takeWhile not_terminator (take literal_length s @ drop literal_length s)
          = take literal_length s @ takeWhile not_terminator (drop literal_length s)"
    using signoff_literal_no_terminator [OF assms] by (intro takeWhile_append2) blast
  then show ?thesis by simp
qed

lemma dropWhile_signoff:
  assumes "is_signoff_line s"
  shows "dropWhile not_terminator s = dropWhile not_terminator (drop literal_length s)"
proof -
  have "dropWhile not_terminator (take literal_length s @ drop literal_length s)
          = dropWhile not_terminator (drop literal_length s)"
    using signoff_literal_no_terminator [OF assms] by (intro dropWhile_append2) blast
  then show ?thesis by simp
qed

lemma is_signoff_line_first_line:
  "is_signoff_line (takeWhile not_terminator s) \<longleftrightarrow> is_signoff_line s"
proof
  assume a: "is_signoff_line s"
  then have len: "literal_length \<le> length s" by (simp add: is_signoff_line_def Let_def)
  from a show "is_signoff_line (takeWhile not_terminator s)"
    unfolding takeWhile_signoff [OF a] using len
    by (simp add: is_signoff_line_def Let_def)
next
  assume a: "is_signoff_line (takeWhile not_terminator s)"
  then have len: "literal_length \<le> length (takeWhile not_terminator s)"
    by (simp add: is_signoff_line_def Let_def)
  have "take literal_length (takeWhile not_terminator s @ dropWhile not_terminator s)
          = take literal_length (takeWhile not_terminator s)"
    using len by (simp del: takeWhile_dropWhile_id)
  then have t: "take literal_length s = take literal_length (takeWhile not_terminator s)"
    by simp
  from len have "literal_length \<le> length s"
    using length_takeWhile_le [of not_terminator s] by (rule order_trans)
  with a t show "is_signoff_line s" by (simp add: is_signoff_line_def Let_def)
qed

lemma value_of_first_line:
  assumes "is_signoff_line s"
  shows "drop literal_length (takeWhile not_terminator s)
           = takeWhile not_terminator (drop literal_length s)"
proof -
  from assms have "literal_length \<le> length s" by (simp add: is_signoff_line_def Let_def)
  then show ?thesis unfolding takeWhile_signoff [OF assms] by simp
qed

subsection \<open>Trimming\<close>

lemma trim_all_space:
  assumes "\<forall>x \<in> set s. is_space x"
  shows "trim s = []"
proof -
  from assms have "dropWhile is_space s = []" by (simp only: dropWhile_eq_Nil_conv)
  then show ?thesis by (simp only: trim_def rev.simps dropWhile.simps)
qed

lemma trim_dropWhile: "trim (dropWhile is_space s) = trim s"
  by (simp add: trim_def)

lemma takeWhile_after_dropWhile: "takeWhile P (dropWhile P xs) = []"
  by (induction xs) auto

text \<open>
  On a sign-off line whose value is not blank, the white space that the expression skips
  ends within the line, and group 1 is the rest of the line.
\<close>

lemma group_within_line:
  assumes "trim (takeWhile not_terminator X) \<noteq> []"
  defines "after \<equiv> dropWhile is_space X"
  shows "trim (takeWhile not_terminator after) = trim (takeWhile not_terminator X)"
    and "dropWhile not_terminator after = dropWhile not_terminator X"
proof -
  let ?D = "takeWhile not_terminator X"
  let ?R = "dropWhile not_terminator X"
  from assms(1) obtain x where x: "x \<in> set ?D" "\<not> is_space x"
    using trim_all_space [of ?D] by blast
  have "after = dropWhile is_space (?D @ ?R)" by (simp add: after_def)
  also have "\<dots> = dropWhile is_space ?D @ ?R"
    using x by (intro dropWhile_append1)
  finally have a: "after = dropWhile is_space ?D @ ?R" .
  have nt: "\<forall>y \<in> set (dropWhile is_space ?D). not_terminator y"
    by (auto dest!: set_dropWhileD set_takeWhileD)
  from nt have "takeWhile not_terminator after
                  = dropWhile is_space ?D @ takeWhile not_terminator ?R"
    unfolding a by (intro takeWhile_append2) blast
  then have g: "takeWhile not_terminator after = dropWhile is_space ?D"
    by (simp add: takeWhile_after_dropWhile)
  show "trim (takeWhile not_terminator after) = trim ?D"
    by (simp add: g trim_dropWhile)
  from nt have "dropWhile not_terminator after = dropWhile not_terminator ?R"
    unfolding a by (intro dropWhile_append2) blast
  then show "dropWhile not_terminator after = ?R" by (simp add: dropWhile_idem)
qed

subsection \<open>The extraction agrees with the reading line by line\<close>

lemma set_tl_subset: "set (tl xs) \<subseteq> set xs"
  by (cases xs) auto

lemma scan_lines:
  assumes "\<forall>l \<in> set (if b then lines_of s else tl (lines_of s)).
             is_signoff_line l \<longrightarrow> trim (drop literal_length l) \<noteq> []"
  shows "scan b s =
           map (\<lambda>l. trim (drop literal_length l))
             (filter is_signoff_line (if b then lines_of s else tl (lines_of s)))"
  using assms
proof (induction b s rule: scan.induct)
  case (1 b)
  have "\<not> is_signoff_line []" by (simp add: is_signoff_line_def lit_def)
  then show ?case by simp
next
  case (2 b c s)
  let ?X = "drop literal_length (c # s)"
  let ?after = "dropWhile is_space ?X"
  let ?first = "takeWhile not_terminator (c # s)"
  let ?val = "\<lambda>l. trim (drop literal_length l)"
  have head: "lines_of (c # s) = ?first # tl (lines_of (c # s))" by (rule lines_of_head)
  show ?case
  proof (cases "b \<and> is_signoff_line (c # s)")
    case True
    then have b: b and sig: "is_signoff_line (c # s)" by simp_all
    from sig have sig1: "is_signoff_line ?first" by (simp only: is_signoff_line_first_line)
    have "?first \<in> set (lines_of (c # s))" by (subst head) simp
    with "2.prems" b sig1 have "trim (drop literal_length ?first) \<noteq> []" by simp
    then have ne: "trim (takeWhile not_terminator ?X) \<noteq> []"
      unfolding value_of_first_line [OF sig] .
    note g = group_within_line [OF ne]
    have "dropWhile not_terminator ?after = dropWhile not_terminator (c # s)"
      by (simp only: g(2) dropWhile_signoff [OF sig])
    then have tails: "tl (lines_of (dropWhile not_terminator ?after)) = tl (lines_of (c # s))"
      by (simp only: lines_of_tail_dropWhile)
    have "set (tl (lines_of (c # s))) \<subseteq> set (lines_of (c # s))"
      by (rule set_tl_subset)
    with "2.prems" b
    have "\<forall>l \<in> set (tl (lines_of (c # s))).
            is_signoff_line l \<longrightarrow> trim (drop literal_length l) \<noteq> []"
      by auto
    then have "\<forall>l \<in> set (if False then lines_of (dropWhile not_terminator ?after)
                           else tl (lines_of (dropWhile not_terminator ?after))).
            is_signoff_line l \<longrightarrow> trim (drop literal_length l) \<noteq> []"
      by (simp only: tails if_False)
    from "2.IH"(1) [OF True refl this]
    have rest: "scan False (dropWhile not_terminator ?after)
                  = map ?val (filter is_signoff_line (tl (lines_of (c # s))))"
      by (simp only: tails if_False)
    have "scan b (c # s)
            = trim (takeWhile not_terminator ?after)
              # scan False (dropWhile not_terminator ?after)"
      using True by (simp add: scan.simps(2) Let_def)
    also have "\<dots> = ?val ?first
                       # map ?val (filter is_signoff_line (tl (lines_of (c # s))))"
      by (simp only: rest g(1) value_of_first_line [OF sig])
    also have "\<dots> = map ?val (filter is_signoff_line (?first # tl (lines_of (c # s))))"
      using sig1 by simp
    also have "\<dots> = map ?val (filter is_signoff_line (lines_of (c # s)))"
      by (subst (2) head) (rule refl)
    finally show ?thesis using b by simp
  next
    case False
    have nosig: "b \<Longrightarrow> \<not> is_signoff_line ?first"
      using False by (simp only: is_signoff_line_first_line) simp
    have step: "scan b (c # s) = scan (is_line_terminator c) s"
      using False by (auto simp: scan.simps(2))
    have lines: "filter is_signoff_line (if b then lines_of (c # s) else tl (lines_of (c # s)))
                   = filter is_signoff_line (tl (lines_of (c # s)))"
    proof (cases b)
      case True
      with nosig have "\<not> is_signoff_line ?first" by simp
      then have "filter is_signoff_line (?first # tl (lines_of (c # s)))
                   = filter is_signoff_line (tl (lines_of (c # s)))"
        by simp
      then have "filter is_signoff_line (lines_of (c # s))
                   = filter is_signoff_line (tl (lines_of (c # s)))"
        by (subst head) simp
      with True show ?thesis by simp
    next
      case False
      then show ?thesis by simp
    qed
    have sub: "set (tl (lines_of (c # s)))
                 \<subseteq> set (if b then lines_of (c # s) else tl (lines_of (c # s)))"
      using set_tl_subset [of "lines_of (c # s)"] by (cases b) simp_all
    have tl_eq: "tl (lines_of (c # s))
                   = (if is_line_terminator c then lines_of s else tl (lines_of s))"
      by (rule lines_of_tail_Cons)
    from "2.prems" sub
    have "\<forall>l \<in> set (tl (lines_of (c # s))).
            is_signoff_line l \<longrightarrow> trim (drop literal_length l) \<noteq> []"
      by blast
    then have "\<forall>l \<in> set (if is_line_terminator c then lines_of s else tl (lines_of s)).
                 is_signoff_line l \<longrightarrow> trim (drop literal_length l) \<noteq> []"
      by (simp only: tl_eq)
    from "2.IH"(2) [OF False this]
    have "scan (is_line_terminator c) s
            = map ?val (filter is_signoff_line (tl (lines_of (c # s))))"
      by (simp only: tl_eq)
    with step lines show ?thesis by simp
  qed
qed

lemma extraction_line_by_line:
  assumes "\<forall>l \<in> set (lines_of raw).
             is_signoff_line l \<longrightarrow> trim (drop (length (lit ''Signed-off-by:'')) l) \<noteq> []"
  shows "extractSignOffs raw 0 [] = spec_signoff_values raw"
proof -
  from assms have "scan True raw
                     = map (\<lambda>l. trim (drop literal_length l))
                         (filter is_signoff_line (lines_of raw))"
    using scan_lines [of True raw] by simp
  then show ?thesis by (simp add: extractSignOffs_is_scan spec_signoff_values_def)
qed

lemma sign_off_match_line_by_line:
  assumes "\<forall>l \<in> set (lines_of raw).
             is_signoff_line l \<longrightarrow> trim (drop (length (lit ''Signed-off-by:'')) l) \<noteq> []"
  shows "list_ex (\<lambda>actualSignOff. js_includes actualSignOff pattern) (extractSignOffs raw 0 [])
         \<longleftrightarrow> (\<exists>v \<in> set (spec_signoff_values raw). js_includes v pattern)"
  by (simp add: extraction_line_by_line [OF assms] list_ex_iff)


section \<open>The value of a sign-off taken from another line\<close>

text \<open>
  Claim C3 says that in the later version a pattern matches exactly when it occurs in the
  value of a \<open>Signed-off-by:\<close> line, and that a pattern in a line of the body that is not
  such a line gives no match. In the regular expression \<open>\s*\<close> also runs over line
  terminators, so after a \<open>Signed-off-by:\<close> line without a value the next line that is
  not blank is taken as the value. In the message below the only sign-off line has no
  value (the values read line by line are one empty string), the pattern occurs only in
  the line after it, and the code extracts that line, finds the pattern in it and bypasses
  \<open>rulesToEnforce\<close>, saying that a \<open>Signed-off-by\<close> line matches the pattern.
\<close>

theorem sign_off_value_from_next_line:
  "extractSignOffs (lit ''chore: bump\<newline>\<newline>Signed-off-by:\<newline>dependabot[bot] says hi'') 0 []
     = [lit ''dependabot[bot] says hi'']
   \<and> lines_of (lit ''chore: bump\<newline>\<newline>Signed-off-by:\<newline>dependabot[bot] says hi'')
       = [lit ''chore: bump'', [], lit ''Signed-off-by:'', lit ''dependabot[bot] says hi'']
   \<and> spec_signoff_values
         (lit ''chore: bump\<newline>\<newline>Signed-off-by:\<newline>dependabot[bot] says hi'') = [[]]
   \<and> ignoreForAuthors_signoff test_world
       (commit_of ''chore: bump\<newline>\<newline>Signed-off-by:\<newline>dependabot[bot] says hi'') always
       (JObj [(lit ''signOffPatternsToIgnore'', JArr [JStr (lit ''dependabot[bot]'')]),
              (lit ''rulesToEnforce'',
               JArr [rule_entry (lit ''@commitlint/rules'') (lit ''type-enum'') JNull])])
       = ([],
          Normal (True,
            lit ''Commit has a 'Signed-off-by' line matching pattern ('dependabot[bot]'). Ruleset defined in 'rulesToEnforce' bypassed.''))"
proof -
  let ?raw = "lit ''chore: bump\<newline>\<newline>Signed-off-by:\<newline>dependabot[bot] says hi''"
  have x: "extractSignOffs ?raw 0 [] = [lit ''dependabot[bot] says hi'']"
    by (simp add: regex_eval)
  have l: "lines_of ?raw
             = [lit ''chore: bump'', [], lit ''Signed-off-by:'', lit ''dependabot[bot] says hi'']"
    by (simp add: lit_def is_line_terminator_def)
  have s: "spec_signoff_values ?raw = [[]]"
    unfolding spec_signoff_values_def l
    by (simp add: is_signoff_line_def lit_def canonicalize_def trim_def)
  have i: "js_includes (lit ''dependabot[bot] says hi'') (lit ''dependabot[bot]'')"
    by (simp add: lit_def)
  have b: "bypass_check_signoff ?raw (JArr [JStr (lit ''dependabot[bot]'')])
             = Some (True,
                 lit ''Commit has a 'Signed-off-by' line matching pattern ('dependabot[bot]'). Ruleset defined in 'rulesToEnforce' bypassed.'')"
    by (simp add: bypass_check_signoff_def x i apos_def) (simp add: lit_def)
  have e: "ignoreForAuthors_signoff test_world
       (commit_of ''chore: bump\<newline>\<newline>Signed-off-by:\<newline>dependabot[bot] says hi'') always
       (JObj [(lit ''signOffPatternsToIgnore'', JArr [JStr (lit ''dependabot[bot]'')]),
              (lit ''rulesToEnforce'',
               JArr [rule_entry (lit ''@commitlint/rules'') (lit ''type-enum'') JNull])])
       = ([],
          Normal (True,
            lit ''Commit has a 'Signed-off-by' line matching pattern ('dependabot[bot]'). Ruleset defined in 'rulesToEnforce' bypassed.''))"
    by (simp add: ignoreForAuthors_signoff_def b commit_of_def)
  from x l s e show ?thesis by (intro conjI)
qed

text \<open>In particular the two readings of the sign-off values differ on this message.\<close>

theorem sign_off_value_from_next_line_witness:
  "spec_signoff_values
     (lit ''chore: bump\<newline>\<newline>Signed-off-by:\<newline>dependabot[bot] says hi'')
   \<noteq> extractSignOffs
       (lit ''chore: bump\<newline>\<newline>Signed-off-by:\<newline>dependabot[bot] says hi'') 0 []"
  using sign_off_value_from_next_line by (simp add: lit_def)

section \<open>Examples of the test suite\<close>

text \<open>
  Three tests of the repository that the instances above do not cover, run on the model:
  a commit by an ignored author, a commit with an ignored sign-off, and a commit for
  which every enforced rule passes.
\<close>

lemma test_ignored_author_bypasses:
  "ignoreForAuthors test_world (commit_of ''fix(deps): update by dependabot[bot]'') always
     (JObj [(lit ''ignoreAuthorPatterns'',
             JArr [JStr (lit ''dependabot[bot]''), JStr (lit ''github-actions[bot]''),
                   JStr (lit ''renovate-bot'')]),
            (lit ''rulesToEnforce'',
             JArr [rule_entry (lit ''@commitlint/rules'') (lit ''type-enum'')
                     (JArr [JStr (lit ''feat'')])])])
   = ([],
      Normal (True,
        lit ''[@mridang/commitlint-plugin-conditionals ignoreForAuthors] Commit by ignored author pattern ('dependabot[bot]'). Ruleset defined in 'rulesToEnforce' bypassed.''))"
proof -
  have "find (\<lambda>pattern. js_includes (lit ''fix(deps): update by dependabot[bot]'')
                (string_value pattern))
          [JStr (lit ''dependabot[bot]''), JStr (lit ''github-actions[bot]''),
           JStr (lit ''renovate-bot'')]
        = Some (JStr (lit ''dependabot[bot]''))"
    by (simp add: lit_def)
  from nonempty_first_match_bypasses [of always _ "lit ''fix(deps): update by dependabot[bot]''"
         _ _ _ test_world, OF _ _ _ _ this]
  show ?thesis
    by (simp add: commit_of_def plugin_prefix_def apos_def) (simp add: lit_def)
qed

lemma test_ignored_sign_off_bypasses:
  "ignoreForAuthors_signoff test_world
     (commit_of ''fix(deps): update by bot\<newline>\<newline>Signed-off-by: dependabot[bot] <dev@example.com>'')
     always
     (JObj [(lit ''signOffPatternsToIgnore'', JArr [JStr (lit ''dependabot[bot]'')]),
            (lit ''rulesToEnforce'',
             JArr [rule_entry (lit ''@commitlint/rules'') (lit ''type-enum'')
                     (JArr [JStr (lit ''feat'')])])])
   = ([],
      Normal (True,
        lit ''Commit has a 'Signed-off-by' line matching pattern ('dependabot[bot]'). Ruleset defined in 'rulesToEnforce' bypassed.''))"
proof -
  let ?raw = "lit ''fix(deps): update by bot\<newline>\<newline>Signed-off-by: dependabot[bot] <dev@example.com>''"
  have x: "extractSignOffs ?raw 0 [] = [lit ''dependabot[bot] <dev@example.com>'']"
    by (simp add: regex_eval)
  have "find (\<lambda>ignorePattern.
                 list_ex (\<lambda>actualSignOff. js_includes actualSignOff (string_value ignorePattern))
                   (extractSignOffs ?raw 0 []))
          [JStr (lit ''dependabot[bot]'')]
        = Some (JStr (lit ''dependabot[bot]''))"
    unfolding x by (simp add: lit_def)
  from nonempty_first_match_bypasses_signoff [of always _ ?raw _ _ _ test_world, OF _ _ _ _ this]
  show ?thesis
    by (simp add: commit_of_def apos_def) (simp add: lit_def)
qed

lemma test_all_rules_pass:
  "ignoreForAuthors_signoff test_world
     (commit_of ''feat(app): new feature by human\<newline>\<newline>Signed-off-by: Human <human@example.com>'')
     always
     (JObj [(lit ''signOffPatternsToIgnore'', JArr [JStr (lit ''non-matching-bot-pattern'')]),
            (lit ''rulesToEnforce'',
             JArr [rule_entry (lit ''@commitlint/rules'') (lit ''header-max-length'')
                     (JNum 50)])])
   = ([Import (lit ''@commitlint/rules''),
       Invoke (Exported 1)
         (JObj (commit_of
            ''feat(app): new feature by human\<newline>\<newline>Signed-off-by: Human <human@example.com>''))
         always (JNum 50)],
      Normal (True, lit ''All configured '' @ dquote @ lit ''rulesToEnforce'' @ dquote
                    @ lit '' passed for this author.''))"
proof -
  let ?raw = "lit ''feat(app): new feature by human\<newline>\<newline>Signed-off-by: Human <human@example.com>''"
  have x: "extractSignOffs ?raw 0 [] = [lit ''Human <human@example.com>'']"
    by (simp add: regex_eval)
  have n: "\<not> js_includes (lit ''Human <human@example.com>'') (lit ''non-matching-bot-pattern'')"
    by (simp add: lit_def)
  have b: "bypass_check_signoff ?raw (JArr [JStr (lit ''non-matching-bot-pattern'')]) = None"
    by (simp add: bypass_check_signoff_def x n)
  show ?thesis
    by (simp add: ignoreForAuthors_signoff_def b test_eval)
qed

end
